(* ===== verification/Prelude.thy ===== *)
theory Prelude
  imports Main "HOL-Library.Multiset" "HOL-Library.Char_ord" "HOL-Library.List_Lexorder"
begin

text \<open>
  Shared vocabulary of the development.  The operator is written in Go; its results come as
  a value and an error, its slices are lists, its maps are association lists (a list of pairs
  with distinct keys stands for one iteration order of the map) or partial functions, and
  its strings are byte sequences, here \<^typ>\<open>string\<close> with the byte-wise order that Go's
  comparison operators use (\<open>HOL-Library.Char_ord\<close> and \<open>HOL-Library.List_Lexorder\<close>).

  The theory holds the named collections of rules that the component proofs share, and the
  generic facts on lists, sorting and integer intervals.
\<close>

named_theorems slot_simps \<open>slot-set semantics of the range operations\<close>
named_theorems trace_simps \<open>what an operation appends to the action trace\<close>

type_synonym ('e, 'a) result = "'e + 'a"

subsection \<open>Lists\<close>

text \<open>
  A loop with an accumulator that only adds is a sum, wherever it starts.
\<close>

lemma foldl_add_sum_list:
  fixes f :: "'a \<Rightarrow> int"
  shows "foldl (\<lambda>t x. t + f x) a xs = a + sum_list (map f xs)"
  by (induction xs arbitrary: a) (auto simp: algebra_simps)

lemma find_SomeD: "List.find P xs = Some x \<Longrightarrow> x \<in> set xs \<and> P x"
  by (induction xs) (auto split: if_splits)

lemma find_None_iff_filter: "List.find P xs = None \<longleftrightarrow> filter P xs = []"
  by (induction xs) auto

lemma find_eq_hd_filter:
  "List.find P xs = (case filter P xs of [] \<Rightarrow> None | x # _ \<Rightarrow> Some x)"
  by (induction xs) auto

lemma distinct_concat_map_disjoint:
  assumes "distinct (concat xss)" and "i < length xss" and "j < length xss" and "i \<noteq> j"
  shows "set (xss ! i) \<inter> set (xss ! j) = {}"
  using assms
proof (induction xss arbitrary: i j)
  case Nil
  then show ?case by simp
next
  case (Cons xs xss)
  have mem: "\<And>k. k < length xss \<Longrightarrow> set (xss ! k) \<subseteq> set (concat xss)"
    using nth_mem by fastforce
  show ?case
  proof (cases i)
    case 0
    with Cons.prems obtain j' where "j = Suc j'" "j' < length xss"
      by (cases j) auto
    with Cons.prems 0 mem [of j'] show ?thesis by auto
  next
    case (Suc i')
    show ?thesis
    proof (cases j)
      case 0
      with Cons.prems Suc mem [of i'] show ?thesis by auto
    next
      case (Suc j')
      with \<open>i = Suc i'\<close> Cons.prems Cons.IH [of i' j'] show ?thesis by auto
    qed
  qed
qed

subsection \<open>Sorting\<close>

text \<open>
  The code sorts slices with \<^verbatim>\<open>slices.SortFunc\<close> on a key.  For slices of up to
  twelve elements Go runs a stable insertion sort, which is what \<^const>\<open>sort_key\<close> computes;
  for longer slices the result agrees with \<^const>\<open>sort_key\<close> wherever the keys are distinct
  (the code sorts nodes by their dial address or by their object name, both of which identify
  a node).
\<close>

lemma mset_sort_key [simp]: "mset (sort_key f xs) = mset xs"
  by (rule mset_sort)

lemma hd_sort_key_least:
  assumes "xs \<noteq> []" and "y \<in> set xs"
  shows "f (hd (sort_key f xs)) \<le> f y"
proof -
  have ne: "sort_key f xs \<noteq> []" using assms(1) by (metis set_empty set_sort)
  then obtain z zs where z: "sort_key f xs = z # zs" by (cases "sort_key f xs") auto
  have "sorted (map f (z # zs))" using z sorted_sort_key [of f xs] by simp
  moreover have "y \<in> set (z # zs)" using assms(2) by (metis set_sort z)
  ultimately show ?thesis using z by auto
qed

lemma hd_sort_key_mem: "xs \<noteq> [] \<Longrightarrow> hd (sort_key f xs) \<in> set xs"
  by (metis hd_in_set set_empty set_sort)

subsection \<open>Integer intervals\<close>

lemma take_upto: "0 \<le> n \<Longrightarrow> take (nat n) [a..b] = [a..min b (a + n - 1)]"
proof (cases "n = 0")
  case True
  then show ?thesis by simp
next
  case False
  assume "0 \<le> n"
  show ?thesis
  proof (cases "a + n - 1 < b")
    case True
    then have "[a..b] = [a..a + n - 1] @ [a + n..b]"
      using \<open>0 \<le> n\<close> False upto_split2 [of a "a + n - 1" b] by simp
    with True show ?thesis using \<open>0 \<le> n\<close> by simp
  next
    case False
    then show ?thesis by simp
  qed
qed

lemma drop_upto: "0 \<le> n \<Longrightarrow> drop (nat n) [a..b] = [a + n..b]"
proof (cases "a + n \<le> b")
  case True
  assume "0 \<le> n"
  with True have "[a..b] = [a..a + n - 1] @ [a + n..b]"
    by (cases "n = 0") (use upto_split2 [of a "a + n - 1" b] in simp_all)
  then show ?thesis using \<open>0 \<le> n\<close> by simp
qed simp

lemma find_distinct_key:
  "distinct (map f xs) \<Longrightarrow> x \<in> set xs \<Longrightarrow> find (\<lambda>y. f y = f x) xs = Some x"
  by (induction xs) (auto simp: image_iff)

lemma distinct_submset:
  assumes "mset ys \<subseteq># mset xs" "distinct xs" shows "distinct ys"
proof -
  have "count (mset ys) a \<le> 1" for a
    using mset_subset_eq_count [OF assms(1), of a] assms(2)
    by (metis distinct_count_atmost_1 dual_order.trans le_less order_refl zero_le_one)
  moreover have "count (mset ys) a = (if a \<in> set ys then 1 else 0)" if "count (mset ys) a \<le> 1" for a
    using that by (auto simp: count_greater_zero_iff [symmetric] not_in_iff simp del: count_greater_zero_iff)
      (metis One_nat_def Suc_leI count_greater_zero_iff le_antisym set_mset_mset)
  ultimately show ?thesis by (simp add: distinct_count_atmost_1)
qed

lemma sum_list_update_int:
  "k < length xs \<Longrightarrow> sum_list (xs[k := x]) = sum_list xs + x - xs ! k" for xs :: "int list"
proof (induction xs arbitrary: k)
  case (Cons y ys)
  then show ?case by (cases k) auto
qed simp

lemma sum_list_update2:
  fixes xs :: "int list"
  assumes "i < length xs" "j < length xs" "i \<noteq> j"
  shows "sum_list (xs[i := x, j := y]) = sum_list xs + x - xs ! i + y - xs ! j"
  using assms by (simp add: sum_list_update_int)

lemma set_map_filter: "y \<in> set (List.map_filter f xs) \<longleftrightarrow> (\<exists>x \<in> set xs. f x = Some y)"
  by (force simp: map_filter_def)

subsection \<open>Sorting by two keys\<close>

lemma sorted_wrt_lexI:
  fixes f :: "'a \<Rightarrow> 'b :: linorder" and g :: "'a \<Rightarrow> 'c :: linorder"
  assumes "sorted (map f ys)" "\<And>k. sorted (map g (filter (\<lambda>y. f y = k) ys))"
  shows "sorted_wrt (\<lambda>a b. f a < f b \<or> f a = f b \<and> g a \<le> g b) ys"
  using assms
proof (induction ys)
  case (Cons a ys)
  have "sorted (map g (filter (\<lambda>y. f y = k) ys))" for k using Cons.prems(2) [of k] by (auto split: if_splits)
  with Cons have "sorted_wrt (\<lambda>a b. f a < f b \<or> f a = f b \<and> g a \<le> g b) ys" by simp
  moreover have "f a < f b \<or> f a = f b \<and> g a \<le> g b" if "b \<in> set ys" for b
    using Cons.prems(1) Cons.prems(2) [of "f a"] that by (cases "f a = f b") (auto simp: less_le)
  ultimately show ?case by simp
qed simp

lemma sorted_sort_key_lex:
  "sorted_wrt (\<lambda>a b. f a < f b \<or> f a = f b \<and> g a \<le> g b) (sort_key f (sort_key g xs))"
  by (rule sorted_wrt_lexI) (simp_all add: sort_key_stable sorted_filter)

lemma find_sorted_wrt:
  assumes "sorted_wrt R xs" "find P xs = Some x" "y \<in> set xs" "P y" "y \<noteq> x"
  shows "R x y"
  using assms by (induction xs) (auto split: if_splits)

end
