(* ===== verification/Go_Strings.thy ===== *)
theory Go_Strings
  imports Prelude
begin

text \<open>
  The functions of Go's \<^verbatim>\<open>strings\<close> and \<^verbatim>\<open>strconv\<close> packages that the
  operator calls, on byte strings: \<^verbatim>\<open>Split\<close>, \<^verbatim>\<open>SplitN\<close>, \<^verbatim>\<open>Fields\<close>,
  \<^verbatim>\<open>Cut\<close>, \<^verbatim>\<open>Join\<close>, \<^verbatim>\<open>Trim*\<close>, \<^verbatim>\<open>HasPrefix\<close>,
  \<^verbatim>\<open>Contains\<close>, \<^verbatim>\<open>IndexByte\<close>, \<^verbatim>\<open>LastIndexByte\<close>, \<^verbatim>\<open>ToLower\<close>,
  \<^verbatim>\<open>Itoa\<close>, \<^verbatim>\<open>Atoi\<close> and \<^verbatim>\<open>ParseInt(s, 10, 64)\<close>.  White space and letter
  case are those of ASCII, the only ones in the engine's output and in object names.

  The lemmas are the round trips the parsers rest on: splitting a joined list gives the list
  back, and reading the decimal form of a 64-bit integer gives the integer back.
\<close>

subsection \<open>Splitting and joining\<close>

definition isSpace :: "char \<Rightarrow> bool" where
  "isSpace c \<longleftrightarrow> c \<in> {CHR 0x20, CHR 0x09, CHR 0x0A, CHR 0x0B, CHR 0x0C, CHR 0x0D}"

fun split_on :: "(char \<Rightarrow> bool) \<Rightarrow> string \<Rightarrow> string list" where
  "split_on P [] = [[]]"
| "split_on P (c # cs) =
     (if P c then [] # split_on P cs
      else (case split_on P cs of [] \<Rightarrow> [[c]] | w # ws \<Rightarrow> (c # w) # ws))"

definition Split :: "string \<Rightarrow> char \<Rightarrow> string list" where
  "Split s c = split_on (\<lambda>x. x = c) s"

definition Fields :: "string \<Rightarrow> string list" where
  "Fields s = filter (\<lambda>w. w \<noteq> []) (split_on isSpace s)"

fun Join :: "string list \<Rightarrow> string \<Rightarrow> string" where
  "Join [] sep = []"
| "Join [w] sep = w"
| "Join (w # v # ws) sep = w @ sep @ Join (v # ws) sep"

definition Cut :: "string \<Rightarrow> char \<Rightarrow> string \<times> string \<times> bool" where
  "Cut s c = (takeWhile (\<lambda>x. x \<noteq> c) s, drop 1 (dropWhile (\<lambda>x. x \<noteq> c) s), c \<in> set s)"

fun SplitN :: "string \<Rightarrow> char \<Rightarrow> nat \<Rightarrow> string list" where
  "SplitN s c 0 = []"
| "SplitN s c (Suc 0) = [s]"
| "SplitN s c (Suc (Suc n)) =
     (case Cut s c of (before, after, found) \<Rightarrow>
        if found then before # SplitN after c (Suc n) else [s])"

lemma split_on_not_Nil [simp]: "split_on P s \<noteq> []"
  by (induction s) (auto split: list.splits)

lemma Split_not_Nil [simp]: "Split s c \<noteq> []"
  by (simp add: Split_def)

lemma split_on_append:
  assumes "\<forall>x \<in> set w. \<not> P x"
  shows "split_on P (w @ s) = (w @ hd (split_on P s)) # tl (split_on P s)"
  using assms by (induction w) (auto simp: neq_Nil_conv split: list.splits)

lemma split_on_all: "\<forall>x \<in> set w. \<not> P x \<Longrightarrow> split_on P w = [w]"
  using split_on_append [of w P "[]"] by simp

lemma split_on_sep:
  assumes "\<forall>x \<in> set w. \<not> P x" and "P c"
  shows "split_on P (w @ c # s) = w # split_on P s"
  using split_on_append [OF assms(1), of "c # s"] assms(2) by simp

lemma Split_Join:
  assumes "ws \<noteq> []" and "\<forall>w \<in> set ws. c \<notin> set w"
  shows "Split (Join ws [c]) c = ws"
  using assms
proof (induction ws "[c]" rule: Join.induct)
  case (2 w)
  then show ?case
    using split_on_all [of w "\<lambda>x. x = c"] by (auto simp: Split_def)
next
  case (3 w v ws)
  then show ?case
    using split_on_sep [of w "\<lambda>x. x = c" c "Join (v # ws) [c]"] by (auto simp: Split_def)
qed simp

lemma Split_append_sep:
  "c \<notin> set w \<Longrightarrow> Split (w @ c # s) c = w # Split s c"
  using split_on_sep [of w "\<lambda>x. x = c" c s] by (auto simp: Split_def)

lemma split_on_append_gen:
  "split_on P (s @ c # t) = split_on P s @ split_on P t" if "P c"
  using that by (induction s) (auto split: list.splits)

lemma Split_append: "Split (s @ c # t) c = Split s c @ Split t c"
  by (simp add: Split_def split_on_append_gen)

lemma Cut_sep: "c \<notin> set w \<Longrightarrow> Cut (w @ c # s) c = (w, s, True)"
proof -
  assume "c \<notin> set w"
  then have "\<And>x. x \<in> set w \<Longrightarrow> x \<noteq> c" by auto
  then show ?thesis
    by (simp add: Cut_def takeWhile_append2 dropWhile_append2)
qed

lemma Cut_none: "c \<notin> set s \<Longrightarrow> Cut s c = (s, [], False)"
proof -
  assume "c \<notin> set s"
  then have all: "\<forall>x \<in> set s. x \<noteq> c" by auto
  then have d: "dropWhile (\<lambda>x. x \<noteq> c) s = []" and t: "takeWhile (\<lambda>x. x \<noteq> c) s = s"
    by (simp_all only: dropWhile_eq_Nil_conv takeWhile_eq_all_conv)
  show ?thesis unfolding Cut_def d t using \<open>c \<notin> set s\<close> by simp
qed

subsection \<open>Prefixes, suffixes and trimming\<close>

definition HasPrefix :: "string \<Rightarrow> string \<Rightarrow> bool" where
  "HasPrefix s p \<longleftrightarrow> take (length p) s = p"

definition HasSuffix :: "string \<Rightarrow> string \<Rightarrow> bool" where
  "HasSuffix s p \<longleftrightarrow> length p \<le> length s \<and> drop (length s - length p) s = p"

definition TrimPrefix :: "string \<Rightarrow> string \<Rightarrow> string" where
  "TrimPrefix s p = (if HasPrefix s p then drop (length p) s else s)"

definition TrimSuffix :: "string \<Rightarrow> string \<Rightarrow> string" where
  "TrimSuffix s p = (if HasSuffix s p then take (length s - length p) s else s)"

definition TrimRightP :: "(char \<Rightarrow> bool) \<Rightarrow> string \<Rightarrow> string" where
  "TrimRightP P s = rev (dropWhile P (rev s))"

definition TrimP :: "(char \<Rightarrow> bool) \<Rightarrow> string \<Rightarrow> string" where
  "TrimP P s = TrimRightP P (dropWhile P s)"

definition TrimSpace :: "string \<Rightarrow> string" where
  "TrimSpace = TrimP isSpace"

definition TrimRight :: "string \<Rightarrow> char \<Rightarrow> string" where
  "TrimRight s c = TrimRightP (\<lambda>x. x = c) s"

definition Trim :: "string \<Rightarrow> char \<Rightarrow> string" where
  "Trim s c = TrimP (\<lambda>x. x = c) s"

fun Contains :: "string \<Rightarrow> string \<Rightarrow> bool" where
  "Contains [] sub = (sub = [])"
| "Contains (c # s) sub = (HasPrefix (c # s) sub \<or> Contains s sub)"

definition ToLower :: "string \<Rightarrow> string" where
  "ToLower s = map (\<lambda>c. if CHR ''A'' \<le> c \<and> c \<le> CHR ''Z'' then char_of (of_char c + (32 :: nat)) else c) s"

definition EqualFold :: "string \<Rightarrow> string \<Rightarrow> bool" where
  "EqualFold s t \<longleftrightarrow> ToLower s = ToLower t"

text \<open>The part of a string before the last occurrence of a byte (\<^verbatim>\<open>s[:LastIndexByte]\<close>).\<close>

definition before_last :: "char \<Rightarrow> string \<Rightarrow> string option" where
  "before_last c s =
     (if c \<in> set s then Some (rev (drop 1 (dropWhile (\<lambda>x. x \<noteq> c) (rev s)))) else None)"

definition after_last :: "char \<Rightarrow> string \<Rightarrow> string option" where
  "after_last c s =
     (if c \<in> set s then Some (rev (takeWhile (\<lambda>x. x \<noteq> c) (rev s))) else None)"

text \<open>
  \<open>quoted\<close> is the verb \<open>%q\<close> on a string: the ASCII control characters, the quote and the backslash
  are escaped; bytes above 127 are taken as printable text.
\<close>

definition hex_digit :: "nat \<Rightarrow> char" where
  "hex_digit n = (if n < 10 then char_of (48 + n) else char_of (87 + n))"

definition quote_char :: "char \<Rightarrow> string" where
  "quote_char c =
     (let n = (of_char c :: nat) in
      if n = 34 \<or> n = 92 then [CHR 0x5C, c]
      else if n = 7 then [CHR 0x5C, CHR ''a''] else if n = 8 then [CHR 0x5C, CHR ''b'']
      else if n = 12 then [CHR 0x5C, CHR ''f''] else if n = 10 then [CHR 0x5C, CHR ''n'']
      else if n = 13 then [CHR 0x5C, CHR ''r''] else if n = 9 then [CHR 0x5C, CHR ''t'']
      else if n = 11 then [CHR 0x5C, CHR ''v'']
      else if n < 32 \<or> n = 127 then [CHR 0x5C, CHR ''x'', hex_digit (n div 16), hex_digit (n mod 16)]
      else [c])"

definition quoted :: "string \<Rightarrow> string" where
  "quoted s = CHR 0x22 # concat (map quote_char s) @ [CHR 0x22]"

lemma HasPrefix_append [simp]: "HasPrefix (p @ s) p"
  by (simp add: HasPrefix_def)

lemma HasPrefixD: "HasPrefix s p \<Longrightarrow> \<exists>t. s = p @ t"
  by (metis HasPrefix_def append_take_drop_id)

lemma TrimPrefix_append [simp]: "TrimPrefix (p @ s) p = s"
  by (simp add: TrimPrefix_def)

lemma TrimSuffix_append [simp]: "TrimSuffix (s @ p) p = s"
  by (simp add: TrimSuffix_def HasSuffix_def)

lemma TrimP_id:
  assumes "s \<noteq> [] \<Longrightarrow> \<not> P (hd s) \<and> \<not> P (last s)"
  shows "TrimP P s = s"
proof (cases s rule: rev_cases)
  case Nil
  then show ?thesis by (simp add: TrimP_def TrimRightP_def)
next
  case (snoc t x)
  with assms have "\<not> P (hd s)" "\<not> P x" by auto
  then have "dropWhile P s = s" by (metis dropWhile_eq_self_iff)
  with snoc \<open>\<not> P x\<close> show ?thesis by (simp add: TrimP_def TrimRightP_def)
qed

lemma TrimP_none: "\<forall>x \<in> set s. \<not> P x \<Longrightarrow> TrimP P s = s"
  by (rule TrimP_id) auto

lemma before_last_append: "c \<notin> set t \<Longrightarrow> before_last c (s @ c # t) = Some s"
proof -
  assume "c \<notin> set t"
  then have "dropWhile (\<lambda>x. x \<noteq> c) (rev t @ c # rev s) = c # rev s"
    by (subst dropWhile_append2) auto
  then show ?thesis by (simp add: before_last_def)
qed

subsection \<open>Decimal integers\<close>

datatype num_error = ErrSyntax | ErrRange

definition digit_char :: "nat \<Rightarrow> char" where
  "digit_char d = char_of (48 + d)"

definition is_digit :: "char \<Rightarrow> bool" where
  "is_digit c \<longleftrightarrow> CHR ''0'' \<le> c \<and> c \<le> CHR ''9''"

definition digit_val :: "char \<Rightarrow> nat" where
  "digit_val c = of_char c - 48"

fun show_nat :: "nat \<Rightarrow> string" where
  "show_nat n = (if n < 10 then [digit_char n] else show_nat (n div 10) @ [digit_char (n mod 10)])"

declare show_nat.simps [simp del]

definition Itoa :: "int \<Rightarrow> string" where
  "Itoa n = (if n < 0 then ''-'' @ show_nat (nat (- n)) else show_nat (nat n))"

text \<open>\<^verbatim>\<open>ParseUint\<close> reads digits until one is not a digit or the value leaves 64 bits.\<close>

fun ParseUint_loop :: "nat \<Rightarrow> string \<Rightarrow> (num_error, nat) result" where
  "ParseUint_loop n [] = Inr n"
| "ParseUint_loop n (c # cs) =
     (if \<not> is_digit c then Inl ErrSyntax
      else let n' = n * 10 + digit_val c
           in if 2 ^ 64 \<le> n' then Inl ErrRange else ParseUint_loop n' cs)"

definition ParseUint :: "string \<Rightarrow> (num_error, nat) result" where
  "ParseUint s = (if s = [] then Inl ErrSyntax else ParseUint_loop 0 s)"

text \<open>
  \<^verbatim>\<open>ParseInt(s, 10, 64)\<close> and \<^verbatim>\<open>Atoi\<close> return a value also with an error: 0 for a
  malformed number, the nearest bound for one out of range.  Callers that drop the error use
  that value.
\<close>

definition ParseInt :: "string \<Rightarrow> int \<times> num_error option" where
  "ParseInt s =
     (case s of
        [] \<Rightarrow> (0, Some ErrSyntax)
      | c # cs \<Rightarrow>
          let neg = (c = CHR ''-'');
              ds = (if c = CHR ''-'' \<or> c = CHR ''+'' then cs else s)
          in (case ParseUint ds of
                Inl ErrSyntax \<Rightarrow> (0, Some ErrSyntax)
              | Inl ErrRange \<Rightarrow> (if neg then - (2 ^ 63) else 2 ^ 63 - 1, Some ErrRange)
              | Inr n \<Rightarrow>
                  if \<not> neg \<and> 2 ^ 63 \<le> n then (2 ^ 63 - 1, Some ErrRange)
                  else if neg \<and> 2 ^ 63 < n then (- (2 ^ 63), Some ErrRange)
                  else (if neg then - int n else int n, None)))"

definition Atoi :: "string \<Rightarrow> int \<times> num_error option" where
  "Atoi s = ParseInt s"

definition int64 :: "int \<Rightarrow> bool" where
  "int64 n \<longleftrightarrow> - (2 ^ 63) \<le> n \<and> n < 2 ^ 63"

lemma of_char_digit [simp]: "d < 10 \<Longrightarrow> of_char (digit_char d) = 48 + d"
  by (simp add: digit_char_def)

lemma is_digit_alt: "is_digit c \<longleftrightarrow> 48 \<le> (of_char c :: nat) \<and> (of_char c :: nat) \<le> 57"
  by (simp add: is_digit_def less_eq_char_def)

lemma is_digit_digit_char [simp]: "d < 10 \<Longrightarrow> is_digit (digit_char d)"
  by (simp add: is_digit_alt)

lemma digit_val_digit_char [simp]: "d < 10 \<Longrightarrow> digit_val (digit_char d) = d"
  by (simp add: digit_val_def)

lemma show_nat_not_Nil [simp]: "show_nat n \<noteq> []"
  by (subst show_nat.simps) simp

lemma show_nat_digits: "c \<in> set (show_nat n) \<Longrightarrow> is_digit c"
  by (induction n rule: show_nat.induct) (subst (asm) (2) show_nat.simps, auto split: if_splits)

lemma not_digit [simp]:
  "\<not> is_digit (CHR ''-'')" "\<not> is_digit (CHR ''+'')" "\<not> is_digit (CHR '','')"
  "\<not> is_digit (CHR '' '')" "\<not> is_digit (CHR ''['')" "\<not> is_digit (CHR ''@'')"
  "\<not> is_digit (CHR '':'')" "\<not> is_digit (CHR ''/'')" "\<not> is_digit (CHR ''.'')"
  by (simp_all add: is_digit_alt)

lemma digit_not_space: "is_digit c \<Longrightarrow> \<not> isSpace c"
  by (auto simp: isSpace_def is_digit_alt)

lemma ParseUint_loop_append:
  "ParseUint_loop n (xs @ ys) =
     (case ParseUint_loop n xs of Inl e \<Rightarrow> Inl e | Inr m \<Rightarrow> ParseUint_loop m ys)"
  by (induction xs arbitrary: n) (auto simp: Let_def)

lemma ParseUint_loop_show_nat: "n < 2 ^ 64 \<Longrightarrow> ParseUint_loop 0 (show_nat n) = Inr n"
proof (induction n rule: show_nat.induct)
  case (1 n)
  show ?case
  proof (cases "n < 10")
    case True
    with "1.prems" show ?thesis by (simp add: show_nat.simps [of n])
  next
    case False
    with 1 have "ParseUint_loop 0 (show_nat (n div 10)) = Inr (n div 10)" by simp
    with False "1.prems" show ?thesis
      by (simp add: show_nat.simps [of n] ParseUint_loop_append mult.commute)
  qed
qed

theorem Atoi_Itoa: "int64 n \<Longrightarrow> Atoi (Itoa n) = (n, None)"
proof -
  assume n: "int64 n"
  obtain c cs where cs: "show_nat (nat n) = c # cs" by (cases "show_nat (nat n)") auto
  then have c: "is_digit c" using show_nat_digits by (metis list.set_intros(1))
  have P: "ParseUint (show_nat (nat \<bar>n\<bar>)) = Inr (nat \<bar>n\<bar>)"
  proof -
    have "nat \<bar>n\<bar> < 2 ^ 64" using n by (auto simp: int64_def)
    then show ?thesis using ParseUint_loop_show_nat by (simp add: ParseUint_def)
  qed
  show ?thesis
  proof (cases "n < 0")
    case True
    with n P show ?thesis by (auto simp: Atoi_def Itoa_def ParseInt_def int64_def)
  next
    case False
    with n P cs c show ?thesis
      by (auto simp: Atoi_def Itoa_def ParseInt_def int64_def Let_def)
  qed
qed

lemma Itoa_digits: "0 \<le> n \<Longrightarrow> c \<in> set (Itoa n) \<Longrightarrow> is_digit c"
  by (auto simp: Itoa_def dest: show_nat_digits)

lemma Itoa_not_Nil [simp]: "Itoa n \<noteq> []"
  by (simp add: Itoa_def)

lemma Itoa_inj: "int64 m \<Longrightarrow> int64 n \<Longrightarrow> Itoa m = Itoa n \<Longrightarrow> m = n"
  by (metis Atoi_Itoa prod.inject)


subsection \<open>Fields of a joined line\<close>

definition token :: "string \<Rightarrow> bool" where
  "token w \<longleftrightarrow> w \<noteq> [] \<and> (\<forall>c \<in> set w. \<not> isSpace c)"

lemma isSpace_blank [simp]: "isSpace (CHR '' '')"
  by (simp add: isSpace_def)

lemma split_on_Join_blank:
  "ws \<noteq> [] \<Longrightarrow> list_all token ws \<Longrightarrow> split_on isSpace (Join ws '' '') = ws"
proof (induction ws "'' ''" rule: Join.induct)
  case (2 w)
  then show ?case by (simp add: split_on_all token_def)
next
  case (3 w v ws)
  then show ?case
    using split_on_sep [of w isSpace "CHR '' ''" "Join (v # ws) '' ''"] by (simp add: token_def)
qed simp

lemma Join_ends:
  "ws \<noteq> [] \<Longrightarrow> list_all token ws \<Longrightarrow>
   Join ws '' '' \<noteq> [] \<and> hd (Join ws '' '') = hd (hd ws) \<and> last (Join ws '' '') = last (last ws)"
proof (induction ws "'' ''" rule: Join.induct)
  case (3 w v ws)
  then have "Join (v # ws) '' '' \<noteq> []" "w \<noteq> []" by (simp_all add: token_def)
  then show ?case using 3 by (simp add: hd_append)
qed (simp_all add: token_def)

lemma Fields_Join:
  assumes "ws \<noteq> []" "list_all token ws"
  shows "Fields (TrimSpace (Join ws '' '')) = ws"
proof -
  have "token (hd ws)" "token (last ws)" using assms by (simp_all add: list_all_iff)
  then have "\<not> isSpace (hd (hd ws))" "\<not> isSpace (last (last ws))" by (auto simp: token_def)
  then have "TrimSpace (Join ws '' '') = Join ws '' ''"
    unfolding TrimSpace_def using Join_ends [OF assms] by (intro TrimP_id) simp
  moreover have "filter (\<lambda>w. w \<noteq> []) ws = ws"
    using assms by (intro filter_True) (auto simp: list_all_iff token_def)
  ultimately show ?thesis by (simp add: Fields_def split_on_Join_blank [OF assms])
qed

lemma token_append: "token v \<Longrightarrow> token w \<Longrightarrow> token (v @ w)"
  by (auto simp: token_def)

lemma token_Itoa: "token (Itoa n)"
proof -
  have "\<not> isSpace (CHR ''-'')" by (simp add: isSpace_def)
  then show ?thesis
    by (auto simp: token_def Itoa_def dest: show_nat_digits digit_not_space split: if_splits)
qed

lemma Split_terminated:
  "\<forall>l \<in> set ls. c \<notin> set l \<Longrightarrow> Split (concat (map (\<lambda>l. l @ [c]) ls)) c = ls @ [[]]"
proof (induction ls)
  case Nil
  then show ?case by (simp add: Split_def)
next
  case (Cons l ls)
  then show ?case using Split_append_sep [of c l] by simp
qed

text \<open>Evaluation of the string functions on concrete arguments.\<close>

lemma show_nat_small: "n < 10 \<Longrightarrow> show_nat n = [digit_char n]"
  by (simp add: show_nat.simps)

lemma show_nat_large: "10 \<le> n \<Longrightarrow> show_nat n = show_nat (n div 10) @ [digit_char (n mod 10)]"
  by (subst show_nat.simps) simp

lemma SplitN_2: "SplitN s c 2 = (case Cut s c of (before, after, found) \<Rightarrow> if found then [before, after] else [s])"
  by (simp add: numeral_2_eq_2 split: prod.split)

lemma SplitN_3:
  "SplitN s c 3 = (case Cut s c of (before, after, found) \<Rightarrow> if found then before # SplitN after c 2 else [s])"
  by (simp add: numeral_3_eq_3 numeral_2_eq_2 split: prod.split)

lemma digit_chars:
  "digit_char 0 = CHR ''0''" "digit_char (Suc 0) = CHR ''1''" "digit_char 1 = CHR ''1''" "digit_char 2 = CHR ''2''"
  "digit_char 3 = CHR ''3''" "digit_char 4 = CHR ''4''" "digit_char 5 = CHR ''5''" "digit_char 6 = CHR ''6''"
  "digit_char 7 = CHR ''7''" "digit_char 8 = CHR ''8''" "digit_char 9 = CHR ''9''"
  by code_simp+

lemmas go_eval = TrimSpace_def TrimP_def TrimRightP_def TrimRight_def Trim_def isSpace_def SplitN_2 SplitN_3
  Cut_def Atoi_def ParseInt_def ParseUint_def is_digit_alt digit_val_def Let_def Itoa_def
  show_nat_small show_nat_large digit_chars HasPrefix_def HasSuffix_def TrimPrefix_def TrimSuffix_def
  Split_def Fields_def

end
