(* ===== verification/Slots.thy ===== *)
theory Slots
  imports Go_Strings "HOL-Library.Signed_Division"
begin

text \<open>
  Hash-slot arithmetic, \<^verbatim>\<open>src/pkg/valkey/slots.go\<close>: inclusive slot ranges, their
  normal form, set difference, the even split of the slot space and the text form of the
  \<^verbatim>\<open>CLUSTER NODES\<close> reply.

  The meaning of a list of ranges is the list \<open>slots_of\<close> of the slots it enumerates and the
  set \<open>slot_set\<close> of them.  The lemmas give each operation as an operation on these: taking
  slots is \<^const>\<open>take\<close>, dropping the lowest is \<^const>\<open>drop\<close>, collapsing is \<^const>\<open>sort\<close>,
  subtracting is set difference.
\<close>

subsection \<open>Ranges\<close>

datatype SlotRange = SlotRange (Start: int) (End: int)

text \<open>The comparator of \<open>NormalizeSlotRanges\<close>: by start, then by end.\<close>

instantiation SlotRange :: linorder
begin

definition less_eq_SlotRange :: "SlotRange \<Rightarrow> SlotRange \<Rightarrow> bool" where
  "less_eq_SlotRange a b \<longleftrightarrow> Start a < Start b \<or> Start a = Start b \<and> End a \<le> End b"

definition less_SlotRange :: "SlotRange \<Rightarrow> SlotRange \<Rightarrow> bool" where
  "less_SlotRange a b \<longleftrightarrow> Start a < Start b \<or> Start a = Start b \<and> End a < End b"

instance
  by standard (auto simp: less_eq_SlotRange_def less_SlotRange_def SlotRange.expand)

end

definition TotalSlots :: int where "TotalSlots = 16384"

definition maxSlot :: int where "maxSlot = TotalSlots - 1"

definition BatchSize :: int where "BatchSize = 400"

definition SlotRange_String :: "SlotRange \<Rightarrow> string" where
  "SlotRange_String r =
     (if Start r = End r then Itoa (Start r) else Itoa (Start r) @ ''-'' @ Itoa (End r))"

definition Count :: "SlotRange \<Rightarrow> int" where
  "Count r = End r - Start r + 1"

definition FormatSlotRanges :: "SlotRange list \<Rightarrow> string" where
  "FormatSlotRanges ranges = Join (map SlotRange_String ranges) '',''"

definition CountSlots :: "SlotRange list \<Rightarrow> int" where
  "CountSlots ranges = foldl (\<lambda>total r. total + Count r) 0 ranges"

definition targetSlotsPerShard :: "int \<Rightarrow> int list" where
  "targetSlotsPerShard n =
     (if n \<le> 0 then []
      else let base = TotalSlots div n; rm = TotalSlots mod n
           in map (\<lambda>i. if int i < rm then base + 1 else base) [0..<nat n])"

subsection \<open>Taking and dropping slots\<close>

text \<open>The inner \<^verbatim>\<open>for\<close> loop of \<open>takeSlots\<close> over one range.\<close>

function takeSlots_range :: "int \<Rightarrow> int \<Rightarrow> int \<Rightarrow> int list \<Rightarrow> int list" where
  "takeSlots_range slot e n out =
     (if slot \<le> e \<and> int (length out) < n then takeSlots_range (slot + 1) e n (out @ [slot]) else out)"
  by pat_completeness auto
termination
  by (relation "measure (\<lambda>(slot, e, n, out). nat (e - slot + 1))") auto

declare takeSlots_range.simps [simp del]

fun takeSlots_loop :: "SlotRange list \<Rightarrow> int \<Rightarrow> int list \<Rightarrow> int list" where
  "takeSlots_loop [] n out = out"
| "takeSlots_loop (r # rs) n out =
     (let out' = takeSlots_range (Start r) (End r) n out
      in if int (length out') = n then out' else takeSlots_loop rs n out')"

definition takeSlots :: "SlotRange list \<Rightarrow> int \<Rightarrow> int list" where
  "takeSlots ranges n = (if n \<le> 0 then [] else takeSlots_loop ranges n [])"

fun removeLowestSlots :: "SlotRange list \<Rightarrow> int \<Rightarrow> SlotRange list" where
  "removeLowestSlots [] n = []"
| "removeLowestSlots (r # rs) n =
     (let count = Count r
      in if count \<le> n then removeLowestSlots rs (n - count)
         else if 0 < n then SlotRange (Start r + n) (End r) # removeLowestSlots rs 0
         else r # removeLowestSlots rs n)"

subsection \<open>Collapsing, normal form and difference\<close>

fun SlotsToRanges_loop :: "int \<Rightarrow> int \<Rightarrow> int list \<Rightarrow> SlotRange list" where
  "SlotsToRanges_loop start prev [] = [SlotRange start prev]"
| "SlotsToRanges_loop start prev (slot # rest) =
     (if slot = prev + 1 then SlotsToRanges_loop start slot rest
      else SlotRange start prev # SlotsToRanges_loop slot slot rest)"

definition SlotsToRanges :: "int list \<Rightarrow> SlotRange list" where
  "SlotsToRanges slots =
     (case sort slots of [] \<Rightarrow> [] | s # rest \<Rightarrow> SlotsToRanges_loop s s rest)"

text \<open>The merge loop of \<open>NormalizeSlotRanges\<close>; \<open>lst\<close> is the last range of the output.\<close>

fun NormalizeSlotRanges_loop :: "SlotRange \<Rightarrow> SlotRange list \<Rightarrow> SlotRange list" where
  "NormalizeSlotRanges_loop lst [] = [lst]"
| "NormalizeSlotRanges_loop lst (r # rs) =
     (if Start r \<le> End lst + 1
      then NormalizeSlotRanges_loop (if End lst < End r then SlotRange (Start lst) (End r) else lst) rs
      else lst # NormalizeSlotRanges_loop r rs)"

definition NormalizeSlotRanges :: "SlotRange list \<Rightarrow> SlotRange list" where
  "NormalizeSlotRanges ranges =
     (case sort ranges of [] \<Rightarrow> [] | r # rs \<Rightarrow> NormalizeSlotRanges_loop r rs)"

definition subtractSlotRange :: "SlotRange \<Rightarrow> SlotRange \<Rightarrow> SlotRange list" where
  "subtractSlotRange base remove =
     (if End remove < Start base \<or> End base < Start remove then [base]
      else (if Start base < Start remove then [SlotRange (Start base) (Start remove - 1)] else [])
         @ (if End remove < End base then [SlotRange (End remove + 1) (End base)] else []))"

text \<open>
  The loop that carves one range out of a list of ranges; \<open>SubtractRanges\<close> and
  \<open>GetUnassignedSlots\<close> both run it.
\<close>

definition carveRange :: "SlotRange list \<Rightarrow> SlotRange \<Rightarrow> SlotRange list" where
  "carveRange current rm = concat (map (\<lambda>b. subtractSlotRange b rm) current)"

definition SubtractRanges :: "SlotRange list \<Rightarrow> SlotRange list \<Rightarrow> SlotRange list" where
  "SubtractRanges base remove =
     NormalizeSlotRanges (foldl carveRange (NormalizeSlotRanges base) (NormalizeSlotRanges remove))"

subsection \<open>The even split\<close>

fun SplitUnassignedEvenly_loop ::
  "SlotRange list \<Rightarrow> int \<Rightarrow> int \<Rightarrow> nat list \<Rightarrow> SlotRange list list" where
  "SplitUnassignedEvenly_loop un base rm [] = []"
| "SplitUnassignedEvenly_loop un base rm (i # is) =
     (let want = (if int i < rm then base + 1 else base)
      in if want = 0 then [] # SplitUnassignedEvenly_loop un base rm is
         else SlotsToRanges (takeSlots un want)
                # SplitUnassignedEvenly_loop (removeLowestSlots un want) base rm is)"

text \<open>
  \<^verbatim>\<open>make\<close> panics on a negative length, the value \<^const>\<open>None\<close>; Go's \<^verbatim>\<open>/\<close> and
  \<^verbatim>\<open>%\<close> truncate towards zero, which are \<open>sdiv\<close> and \<open>smod\<close>.
\<close>

definition SplitUnassignedEvenly :: "SlotRange list \<Rightarrow> int \<Rightarrow> SlotRange list list option" where
  "SplitUnassignedEvenly un n =
     (if n < 0 then None
      else if n = 0 then Some []
      else let total = CountSlots un
           in Some (SplitUnassignedEvenly_loop un (total sdiv n) (total smod n) [0..<nat n]))"

subsection \<open>Text form\<close>

datatype slot_error =
    InvalidSlot string num_error
  | InvalidSlotRange string num_error
  | StartAfterEnd string

definition parseSlotRange :: "string \<Rightarrow> (slot_error, SlotRange) result" where
  "parseSlotRange s =
     (case Cut s (CHR ''-'') of (start, fin, isRange) \<Rightarrow>
        if \<not> isRange
        then (case Atoi s of
                (n, Some e) \<Rightarrow> Inl (InvalidSlot s e)
              | (n, None) \<Rightarrow> Inr (SlotRange n n))
        else (case Atoi start of
                (lo, Some e) \<Rightarrow> Inl (InvalidSlotRange s e)
              | (lo, None) \<Rightarrow>
                  (case Atoi fin of
                     (hi, Some e) \<Rightarrow> Inl (InvalidSlotRange s e)
                   | (hi, None) \<Rightarrow>
                       if hi < lo then Inl (StartAfterEnd s) else Inr (SlotRange lo hi))))"

fun parseSlotRanges :: "string list \<Rightarrow> (slot_error, SlotRange list) result" where
  "parseSlotRanges [] = Inr []"
| "parseSlotRanges (f # fs) =
     (if HasPrefix f ''['' then parseSlotRanges fs
      else (case parseSlotRange f of
              Inl e \<Rightarrow> Inl e
            | Inr r \<Rightarrow> (case parseSlotRanges fs of Inl e \<Rightarrow> Inl e | Inr rs \<Rightarrow> Inr (r # rs))))"

subsection \<open>Meaning of ranges\<close>

definition slots_of :: "SlotRange list \<Rightarrow> int list" where
  "slots_of rs = concat (map (\<lambda>r. [Start r..End r]) rs)"

abbreviation range_set :: "SlotRange \<Rightarrow> int set" where
  "range_set r \<equiv> {Start r..End r}"

definition slot_set :: "SlotRange list \<Rightarrow> int set" where
  "slot_set rs = (\<Union>r \<in> set rs. range_set r)"

definition valid_range :: "SlotRange \<Rightarrow> bool" where
  "valid_range r \<longleftrightarrow> Start r \<le> End r"

definition valid_ranges :: "SlotRange list \<Rightarrow> bool" where
  "valid_ranges rs \<longleftrightarrow> list_all valid_range rs"

text \<open>Disjoint ranges in address order.\<close>

definition ascending :: "SlotRange list \<Rightarrow> bool" where
  "ascending rs \<longleftrightarrow> valid_ranges rs \<and> sorted_wrt (\<lambda>a b. End a < Start b) rs"

text \<open>The normal form: in address order, with a gap between neighbours.\<close>

definition separated :: "SlotRange list \<Rightarrow> bool" where
  "separated rs \<longleftrightarrow> valid_ranges rs \<and> sorted_wrt (\<lambda>a b. End a + 1 < Start b) rs"

lemma slots_of_simps [simp]:
  "slots_of [] = []"
  "slots_of (r # rs) = [Start r..End r] @ slots_of rs"
  "slots_of (rs @ rs') = slots_of rs @ slots_of rs'"
  by (simp_all add: slots_of_def)

lemma slot_set_simps [simp]:
  "slot_set [] = {}"
  "slot_set (r # rs) = range_set r \<union> slot_set rs"
  "slot_set (rs @ rs') = slot_set rs \<union> slot_set rs'"
  by (auto simp: slot_set_def)

lemma set_slots_of [simp]: "set (slots_of rs) = slot_set rs"
  by (induction rs) auto

lemma valid_ranges_simps [simp]:
  "valid_ranges []"
  "valid_ranges (r # rs) \<longleftrightarrow> Start r \<le> End r \<and> valid_ranges rs"
  "valid_ranges (rs @ rs') \<longleftrightarrow> valid_ranges rs \<and> valid_ranges rs'"
  by (simp_all add: valid_ranges_def valid_range_def)

lemma valid_ranges_mem: "valid_ranges rs \<Longrightarrow> r \<in> set rs \<Longrightarrow> Start r \<le> End r"
  by (simp add: valid_ranges_def valid_range_def list_all_iff)

lemma valid_ranges_mset: "mset rs = mset rs' \<Longrightarrow> valid_ranges rs \<longleftrightarrow> valid_ranges rs'"
  by (metis (no_types, lifting) list_all_iff mset_eq_setD valid_ranges_def)

lemma slot_set_mset: "mset rs = mset rs' \<Longrightarrow> slot_set rs = slot_set rs'"
  by (metis mset_eq_setD slot_set_def)

lemma slot_set_empty_iff: "valid_ranges rs \<Longrightarrow> slot_set rs = {} \<longleftrightarrow> rs = []"
  by (cases rs) auto

lemma ascendingD: "ascending rs \<Longrightarrow> sorted (slots_of rs) \<and> distinct (slots_of rs)"
proof (induction rs)
  case Nil
  then show ?case by simp
next
  case (Cons r rs)
  then have asc: "ascending rs" and lt: "\<forall>s \<in> set rs. End r < Start s"
    by (auto simp: ascending_def)
  have "\<forall>x \<in> slot_set rs. End r < x" using lt by (auto simp: slot_set_def)
  with Cons.IH [OF asc] show ?case by (fastforce simp: sorted_append)
qed

lemma separated_ascending: "separated rs \<Longrightarrow> ascending rs"
  by (auto simp: separated_def ascending_def elim!: sorted_wrt_mono_rel [rotated])

lemma CountSlots_sum: "CountSlots rs = sum_list (map Count rs)"
  by (simp add: CountSlots_def foldl_add_sum_list)

lemma CountSlots_simps [simp]:
  "CountSlots [] = 0"
  "CountSlots (r # rs) = Count r + CountSlots rs"
  "CountSlots (rs @ rs') = CountSlots rs + CountSlots rs'"
  by (simp_all add: CountSlots_sum)

lemma CountSlots_length: "valid_ranges rs \<Longrightarrow> CountSlots rs = int (length (slots_of rs))"
  by (induction rs) (auto simp: Count_def)

lemma CountSlots_nonneg: "valid_ranges rs \<Longrightarrow> 0 \<le> CountSlots rs"
  by (simp add: CountSlots_length)

lemma CountSlots_card: "ascending rs \<Longrightarrow> CountSlots rs = int (card (slot_set rs))"
  by (metis CountSlots_length ascendingD ascending_def distinct_card set_slots_of)


subsection \<open>Taking and dropping\<close>

lemma takeSlots_range_eq:
  "int (length out) \<le> n \<Longrightarrow>
   takeSlots_range slot e n out = out @ take (nat n - length out) [slot..e]"
proof (induction slot e n out rule: takeSlots_range.induct)
  case (1 slot e n out)
  show ?case
  proof (cases "slot \<le> e \<and> int (length out) < n")
    case True
    then have "takeSlots_range slot e n out = takeSlots_range (slot + 1) e n (out @ [slot])"
      by (simp add: takeSlots_range.simps)
    also have "\<dots> = (out @ [slot]) @ take (nat n - Suc (length out)) [slot + 1..e]"
      using 1(1) [OF True] True by simp
    also have "\<dots> = out @ take (nat n - length out) [slot..e]"
    proof -
      have "nat n - length out = Suc (nat n - Suc (length out))" using True by linarith
      then show ?thesis using True by (simp add: upto_rec1)
    qed
    finally show ?thesis .
  next
    case False
    then show ?thesis using 1(2) by (subst takeSlots_range.simps) auto
  qed
qed

lemma takeSlots_loop_eq:
  "int (length out) \<le> n \<Longrightarrow>
   takeSlots_loop rs n out = out @ take (nat n - length out) (slots_of rs)"
proof (induction rs arbitrary: out)
  case Nil
  then show ?case by simp
next
  case (Cons r rs)
  let ?out = "out @ take (nat n - length out) [Start r..End r]"
  have len: "int (length ?out) \<le> n" using Cons.prems by auto
  show ?case
  proof (cases "int (length ?out) = n")
    case True
    then have "nat n - length out \<le> length [Start r..End r]" by auto
    then show ?thesis using True Cons.prems by (simp add: takeSlots_range_eq)
  next
    case False
    then have *: "length ?out = length out + length [Start r..End r]" using Cons.prems by auto
    have "takeSlots_loop (r # rs) n out = takeSlots_loop rs n ?out"
      by (simp only: takeSlots_loop.simps Let_def takeSlots_range_eq [OF Cons.prems] False if_False)
    also have "\<dots> = ?out @ take (nat n - length ?out) (slots_of rs)"
      by (rule Cons.IH [OF len])
    finally show ?thesis using * by (simp add: diff_diff_eq)
  qed
qed

lemma takeSlots_eq [slot_simps]: "takeSlots rs n = take (nat n) (slots_of rs)"
  by (simp add: takeSlots_def takeSlots_loop_eq)

lemma removeLowestSlots_slots [slot_simps]:
  "valid_ranges rs \<Longrightarrow> slots_of (removeLowestSlots rs n) = drop (nat n) (slots_of rs)"
proof (induction rs arbitrary: n)
  case Nil
  then show ?case by simp
next
  case (Cons r rs)
  then have IH: "\<And>m. slots_of (removeLowestSlots rs m) = drop (nat m) (slots_of rs)"
    and le: "Start r \<le> End r" by auto
  consider "Count r \<le> n" | "0 < n" "n < Count r" | "n \<le> 0" "n < Count r" by linarith
  then show ?case
  proof cases
    case 1
    then have "nat n - nat (End r - Start r + 1) = nat (n - Count r)"
      and "nat (End r - Start r + 1) \<le> nat n"
      using le by (auto simp: Count_def)
    then show ?thesis using 1 by (simp add: IH)
  next
    case 2
    then have "nat n - nat (End r - Start r + 1) = 0" by (simp add: Count_def)
    then show ?thesis using 2 by (simp add: IH drop_upto)
  next
    case 3
    then show ?thesis by (simp add: IH)
  qed
qed

lemma removeLowestSlots_valid: "valid_ranges rs \<Longrightarrow> valid_ranges (removeLowestSlots rs n)"
  by (induction rs n rule: removeLowestSlots.induct) (auto simp: Let_def Count_def)

lemma removeLowestSlots_ascending:
  assumes "ascending rs" shows "ascending (removeLowestSlots rs n)"
proof -
  have mem: "\<exists>r' \<in> set rs. Start r' \<le> Start r \<and> End r = End r'"
    if "r \<in> set (removeLowestSlots rs n)" for r rs n
    using that by (induction rs n rule: removeLowestSlots.induct)
      (auto simp: Let_def split: if_splits)
  have "sorted_wrt (\<lambda>a b. End a < Start b) (removeLowestSlots rs n)"
    if "sorted_wrt (\<lambda>a b. End a < Start b) rs" for rs n
    using that
    by (induction rs n rule: removeLowestSlots.induct) (fastforce simp: Let_def dest: mem)+
  then show ?thesis using assms by (auto simp: ascending_def removeLowestSlots_valid)
qed

subsection \<open>Collapsing\<close>

lemma SlotsToRanges_loop_slots:
  "start \<le> prev \<Longrightarrow> slots_of (SlotsToRanges_loop start prev xs) = [start..prev] @ xs"
proof (induction start prev xs rule: SlotsToRanges_loop.induct)
  case (2 start prev slot rest)
  then show ?case by (cases "slot = prev + 1") (auto simp: upto_rec2)
qed simp

lemma SlotsToRanges_slots [slot_simps]: "slots_of (SlotsToRanges xs) = sort xs"
  by (auto simp: SlotsToRanges_def SlotsToRanges_loop_slots split: list.split)

lemma SlotsToRanges_loop_valid:
  "start \<le> prev \<Longrightarrow> valid_ranges (SlotsToRanges_loop start prev xs)"
  by (induction start prev xs rule: SlotsToRanges_loop.induct) auto

lemma SlotsToRanges_valid [simp]: "valid_ranges (SlotsToRanges xs)"
  by (auto simp: SlotsToRanges_def SlotsToRanges_loop_valid split: list.split)

lemma SlotsToRanges_set [slot_simps]: "slot_set (SlotsToRanges xs) = set xs"
  by (metis SlotsToRanges_slots set_slots_of set_sort)

lemma SlotsToRanges_CountSlots [slot_simps]: "CountSlots (SlotsToRanges xs) = int (length xs)"
  by (simp add: CountSlots_length SlotsToRanges_slots)

lemma SlotsToRanges_loop_separated:
  "start \<le> prev \<Longrightarrow> sorted (prev # xs) \<Longrightarrow> distinct (prev # xs) \<Longrightarrow>
   separated (SlotsToRanges_loop start prev xs) \<and>
   (\<forall>r \<in> set (SlotsToRanges_loop start prev xs). start \<le> Start r)"
proof (induction start prev xs rule: SlotsToRanges_loop.induct)
  case (2 start prev slot rest)
  then have lt: "prev < slot" by auto
  show ?case
  proof (cases "slot = prev + 1")
    case True
    then show ?thesis using 2 by auto
  next
    case False
    with 2 lt have "separated (SlotsToRanges_loop slot slot rest)"
      and "\<forall>r \<in> set (SlotsToRanges_loop slot slot rest). slot \<le> Start r" by auto
    then show ?thesis using False lt 2(3) by (fastforce simp: separated_def)
  qed
qed (simp add: separated_def)

lemma SlotsToRanges_separated: "distinct xs \<Longrightarrow> separated (SlotsToRanges xs)"
proof (cases "sort xs")
  case (Cons y ys)
  assume "distinct xs"
  then have "distinct (y # ys)" using Cons by (metis distinct_sort)
  moreover have "sorted (y # ys)" using Cons by (metis sorted_sort)
  ultimately show ?thesis using SlotsToRanges_loop_separated [of y y ys] Cons
    by (simp add: SlotsToRanges_def)
qed (simp add: SlotsToRanges_def separated_def)


lemma SlotsToRanges_loop_run:
  "prev \<le> e \<Longrightarrow> SlotsToRanges_loop start prev ([prev + 1..e] @ xs) = SlotsToRanges_loop start e xs"
proof (induction "nat (e - prev)" arbitrary: prev)
  case 0
  then show ?case by simp
next
  case (Suc k)
  then have "[prev + 1..e] = (prev + 1) # [prev + 1 + 1..e]" by (simp add: upto_rec1)
  moreover have "SlotsToRanges_loop start (prev + 1) ([prev + 1 + 1..e] @ xs) =
      SlotsToRanges_loop start e xs"
    using Suc by (intro Suc(1)) auto
  ultimately show ?case by simp
qed

lemma SlotsToRanges_loop_separated_slots:
  "separated (SlotRange start e # rs) \<Longrightarrow>
   SlotsToRanges_loop start e (slots_of rs) = SlotRange start e # rs"
proof (induction rs arbitrary: start e)
  case Nil
  then show ?case by simp
next
  case (Cons r rs)
  then have r: "Start r \<le> End r" "e + 1 < Start r" "separated (SlotRange (Start r) (End r) # rs)"
    by (auto simp: separated_def)
  then have "slots_of (r # rs) = Start r # ([Start r + 1..End r] @ slots_of rs)"
    by (simp add: upto_rec1)
  then show ?case using r Cons.IH [OF r(3)] by (simp add: SlotsToRanges_loop_run)
qed

lemma SlotsToRanges_slots_of: "separated rs \<Longrightarrow> SlotsToRanges (slots_of rs) = rs"
proof (cases rs)
  case (Cons r rs')
  assume sep: "separated rs"
  then have srt: "sort (slots_of rs) = slots_of rs"
    by (simp add: ascendingD separated_ascending sorted_sort_id)
  have "slots_of rs = Start r # ([Start r + 1..End r] @ slots_of rs')" and le: "Start r \<le> End r"
    using Cons sep by (auto simp: upto_rec1 separated_def)
  then show ?thesis
    using srt Cons sep SlotsToRanges_loop_separated_slots [of "Start r" "End r" rs']
    by (simp add: SlotsToRanges_def SlotsToRanges_loop_run)
qed (simp add: SlotsToRanges_def)

lemma separated_unique:
  assumes "separated rs" "separated rs'" "slot_set rs = slot_set rs'"
  shows "rs = rs'"
proof -
  have "slots_of rs = slots_of rs'"
    using assms ascendingD separated_ascending
    by (metis set_slots_of sorted_distinct_set_unique)
  then show ?thesis using assms SlotsToRanges_slots_of by metis
qed

subsection \<open>Normal form\<close>

lemma NormalizeSlotRanges_loop_props:
  "sorted (lst # rs) \<Longrightarrow> valid_ranges (lst # rs) \<Longrightarrow>
   separated (NormalizeSlotRanges_loop lst rs) \<and>
   slot_set (NormalizeSlotRanges_loop lst rs) = slot_set (lst # rs) \<and>
   (\<forall>r \<in> set (NormalizeSlotRanges_loop lst rs). Start lst \<le> Start r)"
proof (induction lst rs rule: NormalizeSlotRanges_loop.induct)
  case (1 lst)
  then show ?case by (simp add: separated_def)
next
  case (2 lst r rs)
  let ?m = "if End lst < End r then SlotRange (Start lst) (End r) else lst"
  from 2(3,4) have le: "Start lst \<le> Start r" "Start lst \<le> End lst" "Start r \<le> End r"
    and later: "\<forall>x \<in> set rs. Start r \<le> Start x" and val: "valid_ranges rs"
    by (auto simp: less_eq_SlotRange_def)
  show ?case
  proof (cases "Start r \<le> End lst + 1")
    case True
    have "sorted rs" using 2(3) by simp
    moreover have "?m \<le> x" if "x \<in> set rs" for x
      using 2(3) that by (auto simp: less_eq_SlotRange_def)
    ultimately have srt: "sorted (?m # rs)" by simp
    have "range_set ?m = range_set lst \<union> range_set r" using True le by auto
    moreover have "valid_ranges (?m # rs)" using le val by auto
    ultimately show ?thesis using 2(1) [OF True srt] True by auto
  next
    case False
    then have "separated (NormalizeSlotRanges_loop r rs)"
      "slot_set (NormalizeSlotRanges_loop r rs) = slot_set (r # rs)"
      "\<forall>x \<in> set (NormalizeSlotRanges_loop r rs). Start r \<le> Start x"
      using 2(2) [OF False] 2(3,4) by auto
    then show ?thesis using False le by (fastforce simp: separated_def)
  qed
qed

lemma NormalizeSlotRanges_props:
  assumes "valid_ranges rs"
  shows "separated (NormalizeSlotRanges rs) \<and> slot_set (NormalizeSlotRanges rs) = slot_set rs"
proof (cases "sort rs")
  case Nil
  then have "rs = []" by (metis mset_sort mset_zero_iff_right)
  then show ?thesis by (simp add: NormalizeSlotRanges_def separated_def)
next
  case (Cons r rs')
  have m: "mset (r # rs') = mset rs" using Cons by (metis mset_sort)
  moreover have "sorted (r # rs')" using Cons by (metis sorted_sort)
  ultimately show ?thesis
    using NormalizeSlotRanges_loop_props [of r rs'] assms Cons
    by (simp add: NormalizeSlotRanges_def valid_ranges_mset [OF m, symmetric]
        slot_set_mset [OF m, symmetric])
qed

lemmas NormalizeSlotRanges_separated = NormalizeSlotRanges_props [THEN conjunct1]
lemmas NormalizeSlotRanges_set = NormalizeSlotRanges_props [THEN conjunct2]

lemma separated_valid: "separated rs \<Longrightarrow> valid_ranges rs"
  by (simp add: separated_def)

lemma NormalizeSlotRanges_id: "separated rs \<Longrightarrow> NormalizeSlotRanges rs = rs"
  by (metis NormalizeSlotRanges_props separated_unique separated_valid)

subsection \<open>Difference\<close>

text \<open>
  The interface of a range subtraction: removing one valid range from another leaves ranges in
  address order that cover the set difference.  What a loop over it computes is proved from
  these laws alone.
\<close>

locale range_subtraction =
  fixes sub :: "SlotRange \<Rightarrow> SlotRange \<Rightarrow> SlotRange list"
  assumes sub_set: "valid_range b \<Longrightarrow> valid_range rm \<Longrightarrow> slot_set (sub b rm) = range_set b - range_set rm"
    and sub_ascending: "valid_range b \<Longrightarrow> valid_range rm \<Longrightarrow> ascending (sub b rm)"
begin

abbreviation carve :: "SlotRange list \<Rightarrow> SlotRange \<Rightarrow> SlotRange list" where
  "carve cur rm \<equiv> concat (map (\<lambda>b. sub b rm) cur)"

lemma carve_set:
  "valid_ranges cur \<Longrightarrow> valid_range rm \<Longrightarrow> slot_set (carve cur rm) = slot_set cur - range_set rm"
  by (induction cur) (auto simp: sub_set valid_range_def)

lemma sub_within:
  assumes "valid_range b" "valid_range rm" "x \<in> set (sub b rm)"
  shows "Start b \<le> Start x \<and> End x \<le> End b"
proof -
  have "Start x \<le> End x"
    using sub_ascending [OF assms(1,2)] assms(3) by (auto simp: ascending_def valid_ranges_mem)
  then have "Start x \<in> slot_set (sub b rm)" "End x \<in> slot_set (sub b rm)"
    using assms(3) by (auto simp: slot_set_def)
  then show ?thesis using sub_set [OF assms(1,2)] by auto
qed

lemma carve_ascending:
  assumes "ascending cur" "valid_range rm" shows "ascending (carve cur rm)"
  using assms(1)
proof (induction cur)
  case Nil
  then show ?case by (simp add: ascending_def)
next
  case (Cons b cur)
  then have IH: "ascending (carve cur rm)" and vb: "valid_range b"
    and vc: "\<forall>c \<in> set cur. valid_range c \<and> End b < Start c"
    by (auto simp: ascending_def valid_range_def valid_ranges_mem)
  have "End x < Start y" if "x \<in> set (sub b rm)" "y \<in> set (sub c rm)" "c \<in> set cur" for x y c
    using sub_within [OF vb assms(2) that(1)] sub_within [OF _ assms(2) that(2)] that(3) vc
    by fastforce
  then show ?case
    using IH sub_ascending [OF vb assms(2)] by (auto simp: ascending_def sorted_wrt_append)
qed

lemma carve_all:
  "ascending cur \<Longrightarrow> valid_ranges rms \<Longrightarrow>
   ascending (foldl carve cur rms) \<and> slot_set (foldl carve cur rms) = slot_set cur - slot_set rms"
proof (induction rms arbitrary: cur)
  case (Cons rm rms)
  then have "valid_range rm" "valid_ranges rms" by (simp_all add: valid_range_def)
  with Cons.IH [OF carve_ascending] Cons.prems(1) show ?case
    by (auto simp: carve_set ascending_def)
qed simp

end

interpretation slot_sub: range_subtraction subtractSlotRange
  by unfold_locales (auto simp: subtractSlotRange_def valid_range_def ascending_def)

lemma carveRange_fun: "carveRange = (\<lambda>cur rm. concat (map (\<lambda>b. subtractSlotRange b rm) cur))"
  by (simp add: carveRange_def fun_eq_iff)

lemma SubtractRanges_props:
  assumes "valid_ranges base" "valid_ranges remove"
  shows "separated (SubtractRanges base remove) \<and>
         slot_set (SubtractRanges base remove) = slot_set base - slot_set remove"
proof -
  have "ascending (foldl carveRange (NormalizeSlotRanges base) (NormalizeSlotRanges remove)) \<and>
        slot_set (foldl carveRange (NormalizeSlotRanges base) (NormalizeSlotRanges remove))
          = slot_set base - slot_set remove"
    using assms slot_sub.carve_all [of "NormalizeSlotRanges base" "NormalizeSlotRanges remove"]
    by (simp add: carveRange_fun NormalizeSlotRanges_props separated_ascending separated_valid)
  then show ?thesis by (auto simp: SubtractRanges_def NormalizeSlotRanges_props ascending_def)
qed


subsection \<open>The even split\<close>

text \<open>Reference: cut a list into consecutive chunks of the given sizes.\<close>

fun chunks :: "nat list \<Rightarrow> 'a list \<Rightarrow> 'a list list" where
  "chunks [] xs = []"
| "chunks (w # ws) xs = take w xs # chunks ws (drop w xs)"

definition share :: "int \<Rightarrow> int \<Rightarrow> nat \<Rightarrow> int" where
  "share base rm i = (if int i < rm then base + 1 else base)"

lemma length_chunks [simp]: "length (chunks ws xs) = length ws"
  by (induction ws arbitrary: xs) auto

lemma concat_chunks: "concat (chunks ws xs) = take (sum_list ws) xs"
  by (induction ws arbitrary: xs) (auto simp: take_add)

lemma length_chunks_nth:
  "sum_list ws \<le> length xs \<Longrightarrow> i < length ws \<Longrightarrow> length (chunks ws xs ! i) = ws ! i"
proof (induction ws arbitrary: xs i)
  case (Cons w ws)
  then show ?case by (cases i) auto
qed simp

lemma sum_share:
  "0 \<le> rm \<Longrightarrow> rm \<le> int n \<Longrightarrow> (\<Sum>i\<leftarrow>[0..<n]. share base rm i) = base * int n + rm"
proof -
  have "(\<Sum>i\<leftarrow>[0..<n]. share base rm i) = base * int n + min rm (int n)" if "0 \<le> rm" for n
    by (induction n) (use that in \<open>auto simp: share_def algebra_simps\<close>)
  then show "0 \<le> rm \<Longrightarrow> rm \<le> int n \<Longrightarrow> (\<Sum>i\<leftarrow>[0..<n]. share base rm i) = base * int n + rm"
    by simp
qed

lemma sum_list_nat_map:
  "(\<And>x. x \<in> set xs \<Longrightarrow> 0 \<le> f x) \<Longrightarrow> int (sum_list (map (\<lambda>x. nat (f x)) xs)) = sum_list (map f xs)"
  by (induction xs) auto

lemma SplitUnassignedEvenly_loop_chunks:
  assumes "0 \<le> base" "ascending un"
  shows "map slots_of (SplitUnassignedEvenly_loop un base rm is) =
           chunks (map (\<lambda>i. nat (share base rm i)) is) (slots_of un)"
  using assms(2)
proof (induction "is" arbitrary: un)
  case (Cons i "is")
  have srt: "sort (take k (slots_of un)) = take k (slots_of un)" for k
    using Cons.prems by (simp add: ascendingD sorted_sort_id sorted_wrt_take)
  show ?case
    using Cons.IH [OF removeLowestSlots_ascending [OF Cons.prems]] Cons.IH [OF Cons.prems] Cons.prems
    by (simp add: Let_def share_def slot_simps srt ascending_def)
qed simp

lemma SplitUnassignedEvenly_loop_separated:
  assumes "ascending un"
  shows "list_all separated (SplitUnassignedEvenly_loop un base rm is)"
  using assms
proof (induction "is" arbitrary: un)
  case (Cons i "is")
  have "separated (SlotsToRanges (take k (slots_of un)))" for k
    using Cons.prems by (simp add: SlotsToRanges_separated ascendingD)
  with Cons.IH [OF removeLowestSlots_ascending [OF Cons.prems]] Cons.IH [OF Cons.prems]
  show ?case by (auto simp: Let_def slot_simps separated_def)
qed simp

lemma sdiv_smod_nonneg:
  fixes a n :: int
  assumes "0 \<le> a" "0 < n"
  shows "a sdiv n = a div n" "a smod n = a mod n"
  using assms by (simp_all add: signed_divide_int_def signed_modulo_int_def sgn_if
      minus_mult_div_eq_mod [symmetric] mult.commute)

lemma SplitUnassignedEvenly_props:
  assumes un: "ascending un" and n: "0 < n"
  defines "tot \<equiv> CountSlots un"
  shows "\<exists>parts. SplitUnassignedEvenly un n = Some parts \<and> length parts = nat n \<and>
           concat (map slots_of parts) = slots_of un \<and> list_all separated parts \<and>
           (\<forall>i < nat n. CountSlots (parts ! i) = share (tot div n) (tot mod n) i)"
proof -
  have t: "0 \<le> tot" "tot = int (length (slots_of un))"
    using un by (auto simp: tot_def CountSlots_nonneg CountSlots_length ascending_def)
  let ?parts = "SplitUnassignedEvenly_loop un (tot div n) (tot mod n) [0..<nat n]"
  let ?ws = "map (\<lambda>i. nat (share (tot div n) (tot mod n) i)) [0..<nat n]"
  have base: "0 \<le> tot div n" using t n by (simp add: pos_imp_zdiv_nonneg_iff)
  have ch: "map slots_of ?parts = chunks ?ws (slots_of un)"
    by (rule SplitUnassignedEvenly_loop_chunks [OF base un])
  have nn: "0 \<le> share (tot div n) (tot mod n) i" for i using base by (simp add: share_def)
  have "int (sum_list ?ws) = tot div n * int (nat n) + tot mod n"
    using n sum_share [of "tot mod n" "nat n" "tot div n"] nn
    by (subst sum_list_nat_map) (auto simp: order_less_imp_le)
  then have sum: "sum_list ?ws = length (slots_of un)" using t n by simp
  have len: "length ?parts = nat n" using arg_cong [OF ch, of length] by simp
  have sep: "list_all separated ?parts" by (rule SplitUnassignedEvenly_loop_separated [OF un])
  have cnt: "CountSlots (?parts ! i) = share (tot div n) (tot mod n) i" if i: "i < nat n" for i
  proof -
    have "valid_ranges (?parts ! i)"
      using sep i len by (auto simp: list_all_length separated_def)
    then have "CountSlots (?parts ! i) = int (length (chunks ?ws (slots_of un) ! i))"
      using i len by (simp add: CountSlots_length flip: ch)
    also have "\<dots> = int (?ws ! i)" using i sum by (subst length_chunks_nth) auto
    finally show ?thesis using i nn by simp
  qed
  have "SplitUnassignedEvenly un n = Some ?parts"
    using n t by (simp add: SplitUnassignedEvenly_def Let_def sdiv_smod_nonneg flip: tot_def)
  with len sep cnt ch sum show ?thesis by (auto simp: concat_chunks)
qed

lemma targetSlotsPerShard_share:
  "0 < n \<Longrightarrow> targetSlotsPerShard n = map (share (TotalSlots div n) (TotalSlots mod n)) [0..<nat n]"
  by (simp add: targetSlotsPerShard_def share_def Let_def)

lemma length_targetSlotsPerShard [simp]: "length (targetSlotsPerShard n) = nat n"
  by (simp add: targetSlotsPerShard_def Let_def)

lemma targetSlotsPerShard_sum: "0 < n \<Longrightarrow> sum_list (targetSlotsPerShard n) = TotalSlots"
  using sum_share [of "TotalSlots mod n" "nat n" "TotalSlots div n"]
  by (simp add: targetSlotsPerShard_share order_less_imp_le)

subsection \<open>Text form\<close>

lemma parseSlotRange_SlotRange_String:
  assumes "0 \<le> Start r" "Start r \<le> End r" "End r < 2 ^ 63"
  shows "parseSlotRange (SlotRange_String r) = Inr r"
proof -
  have "int64 (Start r)" "int64 (End r)" using assms by (auto simp: int64_def)
  then have A: "Atoi (Itoa (Start r)) = (Start r, None)" "Atoi (Itoa (End r)) = (End r, None)"
    by (simp_all add: Atoi_Itoa)
  have nd: "CHR ''-'' \<notin> set (Itoa (Start r))"
    using Itoa_digits [of "Start r" "CHR ''-''"] assms by auto
  show ?thesis
  proof (cases "Start r = End r")
    case True
    then show ?thesis
      using A nd by (cases r) (simp add: SlotRange_String_def parseSlotRange_def Cut_none)
  next
    case False
    then show ?thesis
      using A nd assms by (cases r) (simp add: SlotRange_String_def parseSlotRange_def Cut_sep)
  qed
qed

lemma SlotRange_String_chars:
  assumes "0 \<le> Start r" "Start r \<le> End r" "c \<in> set (SlotRange_String r)"
  shows "is_digit c \<or> c = CHR ''-''"
  using assms Itoa_digits [of "Start r" c] Itoa_digits [of "End r" c]
  by (auto simp: SlotRange_String_def split: if_splits)

lemma SlotRange_String_not_Nil [simp]: "SlotRange_String r \<noteq> []"
  by (simp add: SlotRange_String_def)

definition slots_in_range :: "SlotRange list \<Rightarrow> bool" where
  "slots_in_range rs \<longleftrightarrow> (\<forall>r \<in> set rs. 0 \<le> Start r \<and> Start r \<le> End r \<and> End r \<le> maxSlot)"

lemma parseSlotRanges_map_String:
  assumes "slots_in_range rs" shows "parseSlotRanges (map SlotRange_String rs) = Inr rs"
  using assms
proof (induction rs)
  case (Cons r rs)
  then have r: "0 \<le> Start r" "Start r \<le> End r" "End r < 2 ^ 63"
    by (auto simp: slots_in_range_def maxSlot_def TotalSlots_def)
  obtain c cs where s: "SlotRange_String r = c # cs" by (cases "SlotRange_String r") auto
  then have "c \<noteq> CHR ''[''" using SlotRange_String_chars [OF r(1,2), of c] by auto
  then have "\<not> HasPrefix (SlotRange_String r) ''[''" using s by (simp add: HasPrefix_def)
  moreover have "parseSlotRanges (map SlotRange_String rs) = Inr rs"
    using Cons by (simp add: slots_in_range_def)
  ultimately show ?case using r by (simp add: parseSlotRange_SlotRange_String)
qed simp

lemma Split_FormatSlotRanges:
  assumes "slots_in_range rs" "rs \<noteq> []"
  shows "Split (FormatSlotRanges rs) (CHR '','') = map SlotRange_String rs"
  unfolding FormatSlotRanges_def
  by (rule Split_Join) (use assms SlotRange_String_chars in \<open>fastforce simp: slots_in_range_def\<close>)+

lemma Atoi_nonneg: "Atoi s = (n, None) \<Longrightarrow> CHR ''-'' \<notin> set s \<Longrightarrow> 0 \<le> n"
  by (auto simp: Atoi_def ParseInt_def Let_def split: list.splits sum.splits num_error.splits if_splits)

lemma Cut_before: "c \<notin> set (fst (Cut s c))"
  by (auto simp: Cut_def dest: set_takeWhileD)

lemma parseSlotRange_sound:
  assumes "parseSlotRange s = Inr r" shows "0 \<le> Start r \<and> Start r \<le> End r"
proof -
  obtain a b f where C: "Cut s (CHR ''-'') = (a, b, f)" by (cases "Cut s (CHR ''-'')") auto
  have a: "CHR ''-'' \<notin> set a" using Cut_before [of "CHR ''-''" s] C by simp
  have "CHR ''-'' \<notin> set s" if "\<not> f"
    using that C by (auto simp: Cut_def)
  then show ?thesis
    using assms C a by (auto simp: parseSlotRange_def dest: Atoi_nonneg
        split: if_splits prod.splits option.splits)
qed

lemma parseSlotRanges_sound:
  "parseSlotRanges fs = Inr rs \<Longrightarrow> \<forall>r \<in> set rs. 0 \<le> Start r \<and> Start r \<le> End r"
  by (induction fs arbitrary: rs)
    (auto split: if_splits sum.splits dest: parseSlotRange_sound)

lemma parseSlotRanges_valid: "parseSlotRanges fs = Inr rs \<Longrightarrow> valid_ranges rs"
  using parseSlotRanges_sound by (fastforce simp: valid_ranges_def list_all_iff valid_range_def)


lemma run_start_is_Start: "x \<in> slot_set qs \<Longrightarrow> x - 1 \<notin> slot_set qs \<Longrightarrow> x \<in> Start ` set qs"
  by (fastforce simp: slot_set_def)

lemma separated_apart:
  "separated rs \<Longrightarrow> r \<in> set rs \<Longrightarrow> q \<in> set rs \<Longrightarrow> q \<noteq> r \<Longrightarrow>
   End q + 1 < Start r \<or> End r + 1 < Start q"
  by (induction rs) (auto simp: separated_def)

lemma separated_Start_run:
  assumes "separated rs" "r \<in> set rs" shows "Start r \<in> slot_set rs \<and> Start r - 1 \<notin> slot_set rs"
proof -
  have "Start r - 1 \<notin> range_set q" if "q \<in> set rs" for q
  proof (cases "q = r")
    case False
    with assms that have "End q + 1 < Start r \<or> End r + 1 < Start q"
      by (simp add: separated_apart)
    moreover have "Start r \<le> End r" using assms by (auto simp: separated_def valid_ranges_mem)
    ultimately show ?thesis by auto
  qed auto
  moreover have "Start r \<le> End r" using assms by (auto simp: separated_def valid_ranges_mem)
  ultimately show ?thesis using assms(2) by (auto simp: slot_set_def)
qed

lemma separated_distinct_Start: "separated rs \<Longrightarrow> distinct (map Start rs)"
  by (induction rs) (fastforce simp: separated_def)+

lemma separated_minimal:
  assumes "separated rs" "slot_set qs = slot_set rs" shows "length rs \<le> length qs"
proof -
  have "Start ` set rs \<subseteq> Start ` set qs"
    using separated_Start_run [OF assms(1)] run_start_is_Start [of _ qs] assms(2) by auto
  then have "card (set (map Start rs)) \<le> card (set (map Start qs))"
    by (auto intro!: card_mono)
  then show ?thesis
    using distinct_card [OF separated_distinct_Start [OF assms(1)]] card_length [of "map Start qs"]
    by simp
qed

subsection \<open>Properties\<close>

text \<open>C24: \<^const>\<open>SubtractRanges\<close> computes set difference: for any valid inputs, overlapping
  and unsorted ones included, the result covers exactly the slots of \<open>base\<close> that are not in
  \<open>remove\<close>, its ranges are in address order with a gap between neighbours, and no list of
  ranges with the same slots is shorter.\<close>

theorem SubtractRanges_difference:
  assumes "valid_ranges base" "valid_ranges remove"
  shows "slot_set (SubtractRanges base remove) = slot_set base - slot_set remove \<and>
         separated (SubtractRanges base remove) \<and>
         (\<forall>qs. slot_set qs = slot_set base - slot_set remove \<longrightarrow>
            length (SubtractRanges base remove) \<le> length qs)"
  using SubtractRanges_props [OF assms] separated_minimal by auto

theorem SubtractRanges_difference_witness:
  "valid_ranges [SlotRange 0 5461] \<and> valid_ranges [SlotRange 200 300, SlotRange 0 99] \<and>
   (let rest = slot_set (SubtractRanges [SlotRange 0 5461] [SlotRange 200 300, SlotRange 0 99])
    in 99 \<notin> rest \<and> 100 \<in> rest \<and> 199 \<in> rest \<and> 200 \<notin> rest \<and> 301 \<in> rest)"
proof -
  have v: "valid_ranges [SlotRange 0 5461]" "valid_ranges [SlotRange 200 300, SlotRange 0 99]"
    by simp_all
  show ?thesis unfolding Let_def SubtractRanges_difference [OF v, THEN conjunct1] by simp
qed

text \<open>C25: \<^const>\<open>SplitUnassignedEvenly\<close> partitions the unassigned slots exactly: \<open>n\<close>
  chunks whose slots, read in order, are the input's slots in order, each chunk in normal form, the
  first \<open>total mod n\<close> of them one slot larger than the rest.\<close>

theorem SplitUnassignedEvenly_partition:
  assumes "ascending un" "0 < n"
  shows "\<exists>parts. SplitUnassignedEvenly un n = Some parts \<and> length parts = nat n \<and>
           concat (map slots_of parts) = slots_of un \<and> list_all separated parts \<and>
           (\<forall>i < nat n. CountSlots (parts ! i) =
              CountSlots un div n + (if int i < CountSlots un mod n then 1 else 0))"
  using SplitUnassignedEvenly_props [OF assms] by (fastforce simp: share_def)

theorem SplitUnassignedEvenly_partition_witness:
  "ascending [SlotRange 0 6, SlotRange 10 12] \<and>
   (\<exists>parts. SplitUnassignedEvenly [SlotRange 0 6, SlotRange 10 12] 3 = Some parts \<and>
      length parts = 3 \<and> CountSlots (parts ! 0) = 4 \<and> CountSlots (parts ! 2) = 3)"
proof -
  have a: "ascending [SlotRange 0 6, SlotRange 10 12]" by (simp add: ascending_def)
  from SplitUnassignedEvenly_partition [OF a, of 3]
  obtain parts where "SplitUnassignedEvenly [SlotRange 0 6, SlotRange 10 12] 3 = Some parts"
    "length parts = 3" "\<forall>i < nat 3. CountSlots (parts ! i) = 10 div 3 + (if int i < 10 mod 3 then 1 else 0)"
    by (auto simp: Count_def)
  with a show ?thesis by auto
qed

end
