(* ===== verification/Node_State.thy ===== *)
theory Node_State
  imports Slots "HOL-Library.AList"
begin

text \<open>
  One node as the operator sees it: the record \<open>NodeState\<close>, and the parsers that build it from the
  engine's text replies (\<^verbatim>\<open>src/pkg/valkey/state.go\<close>, \<^verbatim>\<open>info.go\<close>, \<^verbatim>\<open>scrape.go\<close>).

  A Go map that is only looked up is a partial function; the gossip table \<open>peers\<close>, which the code
  iterates over, is an association list with distinct keys, and what iterating it computes is
  shown not to depend on its order (theory \<^verbatim>\<open>Topology\<close>).  The connection \<open>client\<close> of a node is a
  Boolean: whether it is present.
\<close>

subsection \<open>Roles, flags and the node record\<close>

datatype Role = RolePrimary | RoleReplica

definition flagMaster :: string where "flagMaster = ''master''"
definition flagFail :: string where "flagFail = ''fail''"
definition flagPFailSoft :: string where "flagPFailSoft = ''fail?''"
definition flagPFail :: string where "flagPFail = ''pfail''"
definition noPrimary :: string where "noPrimary = ''-''"

record peerView =
  peer_id :: string
  peer_flags :: "string list"
  peer_primaryID :: string

type_synonym peer_table = "(string \<times> peerView) list"

record NodeState =
  ID :: string
  ShardID :: string
  Addr :: string
  BusPort :: int
  Flags :: "string list"
  PrimaryID :: string
  ConfigEpoch :: int
  LinkUp :: bool
  NodeRole :: Role
  Offset :: int
  NodeSlots :: "SlotRange list"
  KnownNodes :: int
  ClusterStateOK :: bool
  ClusterSize :: int
  CurrentEpoch :: int
  peers :: peer_table
  client :: bool

definition IsPrimary :: "NodeState \<Rightarrow> bool" where
  "IsPrimary n \<longleftrightarrow> NodeRole n = RolePrimary"

definition IsReplica :: "NodeState \<Rightarrow> bool" where
  "IsReplica n \<longleftrightarrow> NodeRole n = RoleReplica"

definition NumSlots :: "NodeState \<Rightarrow> int" where
  "NumSlots n = CountSlots (NodeSlots n)"

definition HasFlag :: "NodeState \<Rightarrow> string \<Rightarrow> bool" where
  "HasFlag n flag \<longleftrightarrow> flag \<in> set (Flags n)"

definition IsFailed :: "NodeState \<Rightarrow> bool" where
  "IsFailed n \<longleftrightarrow> HasFlag n flagFail \<or> HasFlag n flagPFailSoft"

definition IsIsolated :: "NodeState \<Rightarrow> bool" where
  "IsIsolated n \<longleftrightarrow> KnownNodes n \<le> 1"

subsection \<open>CLUSTER NODES\<close>

record parsedNodeLine =
  pl_id :: string
  pl_addr :: string
  pl_busPort :: int
  pl_flags :: "string list"
  pl_primaryID :: string
  pl_configEpoch :: int
  pl_slots :: "SlotRange list"

definition addrFromField :: "string \<Rightarrow> string" where
  "addrFromField field =
     (let f = fst (Cut field (CHR '','')) in fst (Cut f (CHR ''@'')))"

definition busPortFromField :: "string \<Rightarrow> int" where
  "busPortFromField field =
     (let f = fst (Cut field (CHR '','')) in
      case Cut f (CHR ''@'') of (_, rest, found) \<Rightarrow>
        if \<not> found then 0
        else (case Atoi rest of (port, Some _) \<Rightarrow> 0 | (port, None) \<Rightarrow> port))"

definition parseNodeLine :: "string \<Rightarrow> parsedNodeLine option" where
  "parseNodeLine line =
     (let fields = Fields (TrimSpace line) in
      if length fields < 8 then None
      else Some \<lparr> pl_id = fields ! 0,
                  pl_addr = addrFromField (fields ! 1),
                  pl_busPort = busPortFromField (fields ! 1),
                  pl_flags = Split (fields ! 2) (CHR '',''),
                  pl_primaryID = fields ! 3,
                  pl_configEpoch = (case ParseInt (fields ! 6) of (epoch, None) \<Rightarrow> epoch | _ \<Rightarrow> 0),
                  pl_slots = (if 8 < length fields
                              then (case parseSlotRanges (drop 8 fields) of Inr ranges \<Rightarrow> ranges | Inl _ \<Rightarrow> [])
                              else []) \<rparr>)"

definition toNodeState :: "parsedNodeLine \<Rightarrow> NodeState" where
  "toNodeState p =
     \<lparr> ID = pl_id p, ShardID = '''', Addr = pl_addr p, BusPort = pl_busPort p, Flags = pl_flags p,
       PrimaryID = (if pl_primaryID p = noPrimary then '''' else pl_primaryID p),
       ConfigEpoch = pl_configEpoch p, LinkUp = False,
       NodeRole = (if flagMaster \<in> set (pl_flags p) then RolePrimary else RoleReplica),
       Offset = -1, NodeSlots = pl_slots p, KnownNodes = 0, ClusterStateOK = False,
       ClusterSize = 0, CurrentEpoch = 0, peers = [], client = False \<rparr>"

definition newline :: char where "newline = CHR 0x0A"
definition cr :: char where "cr = CHR 0x0D"

definition peerTable :: "parsedNodeLine list \<Rightarrow> peer_table" where
  "peerTable parsed =
     foldl (\<lambda>m p. AList.update (pl_id p)
              \<lparr> peer_id = pl_id p, peer_flags = pl_flags p, peer_primaryID = pl_primaryID p \<rparr> m) [] parsed"

definition parsedLines :: "string \<Rightarrow> parsedNodeLine list" where
  "parsedLines raw = List.map_filter parseNodeLine (Split (TrimPrefix raw ''txt:'') newline)"

definition ParseClusterNodes :: "string \<Rightarrow> NodeState list" where
  "ParseClusterNodes raw =
     (let parsed = parsedLines raw; tbl = peerTable parsed
      in map (\<lambda>p. (toNodeState p) \<lparr> peers := tbl \<rparr>) parsed)"

subsection \<open>CLUSTER INFO and INFO replication\<close>

type_synonym info = "string \<rightharpoonup> string"

text \<open>Indexing a Go map gives the zero value, the empty string, for a missing key.\<close>

definition info_get :: "info \<Rightarrow> string \<Rightarrow> string" where
  "info_get m k = (case m k of None \<Rightarrow> '''' | Some v \<Rightarrow> v)"

definition infoToMap_line :: "info \<Rightarrow> string \<Rightarrow> info" where
  "infoToMap_line m line0 =
     (let line = TrimRight line0 cr in
      if line = '''' \<or> HasPrefix line ''#'' then m
      else (case Cut line (CHR '':'') of (key, val, ok) \<Rightarrow>
              if ok then m(TrimSpace key \<mapsto> TrimSpace val) else m))"

definition infoToMap :: "string \<Rightarrow> info" where
  "infoToMap raw = foldl infoToMap_line Map.empty (Split (TrimPrefix raw ''txt:'') newline)"

definition ParseInfoReplication_line :: "info \<Rightarrow> string \<Rightarrow> info" where
  "ParseInfoReplication_line m line0 =
     (let line = TrimSpace (TrimRight line0 cr) in
      if line = '''' \<or> HasPrefix line ''#'' then m
      else (case Cut line (CHR '':'') of (key, val, ok) \<Rightarrow>
              if \<not> ok then m else m(TrimSpace key \<mapsto> TrimSpace val)))"

definition ParseInfoReplication :: "string \<Rightarrow> info" where
  "ParseInfoReplication raw = foldl ParseInfoReplication_line Map.empty (Split raw newline)"

definition atoiOrZero :: "string \<Rightarrow> int" where
  "atoiOrZero s = (case Atoi s of (n, Some _) \<Rightarrow> 0 | (n, None) \<Rightarrow> n)"

definition atoi64OrNeg :: "string \<Rightarrow> int" where
  "atoi64OrNeg s = (case ParseInt s of (n, Some _) \<Rightarrow> -1 | (n, None) \<Rightarrow> n)"

definition ParseClusterInfo :: "string \<Rightarrow> string \<times> int \<times> int" where
  "ParseClusterInfo raw =
     (let m = infoToMap raw
      in (info_get m ''cluster_state'', atoiOrZero (info_get m ''cluster_slots_assigned''),
          atoiOrZero (info_get m ''cluster_known_nodes'')))"

definition parseClusterSizeEpoch :: "string \<Rightarrow> int \<times> int" where
  "parseClusterSizeEpoch clusterInfo =
     (let m = infoToMap clusterInfo;
          size = atoiOrZero (info_get m ''cluster_size'');
          epoch = atoi64OrNeg (info_get m ''cluster_current_epoch'')
      in (size, if epoch < 0 then 0 else epoch))"

definition ParseInfoReplicationTyped :: "string \<Rightarrow> Role \<times> bool \<times> int \<times> int" where
  "ParseInfoReplicationTyped raw =
     (let m = ParseInfoReplication raw;
          master = (info_get m ''role'' = ''master'')
      in (if master then RolePrimary else RoleReplica,
          info_get m ''master_link_status'' = ''up'',
          atoi64OrNeg (info_get m (if master then ''master_repl_offset'' else ''slave_repl_offset'')),
          atoiOrZero (info_get m ''connected_slaves'')))"

subsection \<open>Scraping one node\<close>

text \<open>The loop of \<open>nodeStateFromScrape\<close> over the parsed lines; the last line with the id wins.\<close>

fun overlayMyself :: "string \<Rightarrow> NodeState list \<Rightarrow> NodeState \<Rightarrow> NodeState" where
  "overlayMyself nid [] n = n"
| "overlayMyself nid (p # ps) n =
     (let n1 = (if peers n = [] then n \<lparr> peers := peers p \<rparr> else n)
      in overlayMyself nid ps
           (if ID p = nid
            then n1 \<lparr> BusPort := BusPort p, Flags := Flags p, PrimaryID := PrimaryID p,
                      ConfigEpoch := ConfigEpoch p, NodeSlots := NodeSlots p \<rparr>
            else n1))"

definition nodeStateFromScrape ::
  "string \<Rightarrow> string \<Rightarrow> string \<Rightarrow> string \<Rightarrow> string \<Rightarrow> string \<Rightarrow> NodeState" where
  "nodeStateFromScrape nid shardID addr infoRepl clusterInfo clusterNodes =
     (case ParseClusterInfo clusterInfo of (clusterStateStr, _, knownNodes) \<Rightarrow>
      case parseClusterSizeEpoch clusterInfo of (clusterSize, currentEpoch) \<Rightarrow>
      case ParseInfoReplicationTyped infoRepl of (role, linkUp, offset, _) \<Rightarrow>
        overlayMyself nid (ParseClusterNodes clusterNodes)
          \<lparr> ID = nid, ShardID = shardID, Addr = addr, BusPort = 0, Flags = [], PrimaryID = '''',
            ConfigEpoch = 0, LinkUp = linkUp, NodeRole = role, Offset = offset, NodeSlots = [],
            KnownNodes = knownNodes, ClusterStateOK = (clusterStateStr = ''ok''),
            ClusterSize = clusterSize, CurrentEpoch = currentEpoch, peers = [], client = False \<rparr>)"

text \<open>The reads of the client that a scrape makes; the connection is not part of the sources.\<close>

record 'e scrape_client =
  ClusterMyID :: "('e, string) result"
  ClusterMyShardID :: "('e, string) result"
  InfoReplication :: "('e, string) result"
  ClusterInfo :: "('e, string) result"
  ClusterNodes :: "('e, string) result"

definition ScrapeNode :: "string \<Rightarrow> 'e scrape_client \<Rightarrow> ('e, NodeState) result" where
  "ScrapeNode addr c =
     (case ClusterMyID c of Inl e \<Rightarrow> Inl e | Inr nid \<Rightarrow>
      case ClusterMyShardID c of Inl e \<Rightarrow> Inl e | Inr shardID \<Rightarrow>
      case InfoReplication c of Inl e \<Rightarrow> Inl e | Inr infoRepl \<Rightarrow>
      case ClusterInfo c of Inl e \<Rightarrow> Inl e | Inr clusterInfo \<Rightarrow>
      case ClusterNodes c of Inl e \<Rightarrow> Inl e | Inr clusterNodes \<Rightarrow>
        Inr ((nodeStateFromScrape nid shardID addr infoRepl clusterInfo clusterNodes) \<lparr> client := True \<rparr>))"

subsection \<open>Slot migrations and failover modes\<close>

datatype FailoverMode = FailoverGraceful | FailoverForce | FailoverTakeover

record SlotMigration =
  MigState :: string
  MigSlots :: SlotRange
  MigNodeID :: string

definition IsTerminal :: "SlotMigration \<Rightarrow> bool" where
  "IsTerminal m \<longleftrightarrow> MigState m \<in> {''success'', ''failed'', ''canceled'', ''cancelled''}"

definition AnyMigrationInProgress :: "SlotMigration list \<Rightarrow> bool" where
  "AnyMigrationInProgress migrations \<longleftrightarrow> list_ex (\<lambda>m. \<not> IsTerminal m) migrations"

subsection \<open>Lemmas on node lines\<close>

lemma role_cases [simp]: "IsReplica n \<longleftrightarrow> \<not> IsPrimary n"
  by (cases "NodeRole n") (auto simp: IsReplica_def IsPrimary_def)

lemma overlayMyself_keep [simp]:
  "ID (overlayMyself nid ps n) = ID n"
  "ShardID (overlayMyself nid ps n) = ShardID n"
  "Addr (overlayMyself nid ps n) = Addr n"
  "NodeRole (overlayMyself nid ps n) = NodeRole n"
  "LinkUp (overlayMyself nid ps n) = LinkUp n"
  "Offset (overlayMyself nid ps n) = Offset n"
  "KnownNodes (overlayMyself nid ps n) = KnownNodes n"
  "ClusterStateOK (overlayMyself nid ps n) = ClusterStateOK n"
  "ClusterSize (overlayMyself nid ps n) = ClusterSize n"
  by (induction nid ps n rule: overlayMyself.induct) (simp_all add: Let_def)

definition slot_bounds :: "SlotRange list \<Rightarrow> bool" where
  "slot_bounds rs \<longleftrightarrow> (\<forall>r \<in> set rs. 0 \<le> Start r \<and> Start r \<le> End r)"

lemma slot_bounds_valid: "slot_bounds rs \<Longrightarrow> valid_ranges rs"
  by (simp add: slot_bounds_def valid_ranges_def list_all_iff valid_range_def)

lemma parseNodeLine_slots: "parseNodeLine line = Some p \<Longrightarrow> slot_bounds (pl_slots p)"
  by (auto simp: parseNodeLine_def slot_bounds_def Let_def split: if_splits sum.splits
      dest: parseSlotRanges_sound)

lemma ParseClusterNodes_slots: "n \<in> set (ParseClusterNodes raw) \<Longrightarrow> slot_bounds (NodeSlots n)"
  by (auto simp: ParseClusterNodes_def parsedLines_def map_filter_def Let_def toNodeState_def
      dest: parseNodeLine_slots)

lemma overlayMyself_slots:
  "\<forall>p \<in> set ps. slot_bounds (NodeSlots p) \<Longrightarrow> slot_bounds (NodeSlots n) \<Longrightarrow>
   slot_bounds (NodeSlots (overlayMyself nid ps n))"
  by (induction nid ps n rule: overlayMyself.induct) (auto simp: Let_def)

lemma nodeStateFromScrape_slots:
  "slot_bounds (NodeSlots (nodeStateFromScrape nid shardID addr infoRepl clusterInfo clusterNodes))"
proof -
  have "\<forall>p \<in> set (ParseClusterNodes clusterNodes). slot_bounds (NodeSlots p)"
    by (simp add: ParseClusterNodes_slots)
  moreover have "slot_bounds []" by (simp add: slot_bounds_def)
  ultimately show ?thesis
    unfolding nodeStateFromScrape_def by (simp add: overlayMyself_slots split: prod.split)
qed

lemma nodeStateFromScrape_ids [simp]:
  "ID (nodeStateFromScrape nid shardID addr infoRepl clusterInfo clusterNodes) = nid"
  "ShardID (nodeStateFromScrape nid shardID addr infoRepl clusterInfo clusterNodes) = shardID"
  "Addr (nodeStateFromScrape nid shardID addr infoRepl clusterInfo clusterNodes) = addr"
  by (simp_all add: nodeStateFromScrape_def split: prod.split)

lemma ScrapeNode_slots: "ScrapeNode addr c = Inr n \<Longrightarrow> slot_bounds (NodeSlots n)"
  by (auto simp: ScrapeNode_def nodeStateFromScrape_slots split: sum.splits)

text \<open>The gossip table has one entry per id, the last line of that id.\<close>

lemma distinct_peerTable: "distinct (map fst (peerTable parsed))"
proof -
  have "distinct (map fst (foldl (\<lambda>m p. AList.update (f p) (g p) m) m0 ps))"
    if "distinct (map fst m0)" for f :: "parsedNodeLine \<Rightarrow> string" and g :: "parsedNodeLine \<Rightarrow> peerView" and m0 ps
    using that by (induction ps arbitrary: m0) (auto simp: distinct_update)
  then show ?thesis by (simp add: peerTable_def)
qed

lemma map_of_peerTable:
  "map_of (peerTable parsed) nid =
     map_option (\<lambda>p. \<lparr> peer_id = pl_id p, peer_flags = pl_flags p, peer_primaryID = pl_primaryID p \<rparr>)
       (find (\<lambda>p. pl_id p = nid) (rev parsed))"
  by (induction parsed rule: rev_induct) (auto simp: peerTable_def update_conv')

lemma overlayMyself_peers:
  "\<forall>p \<in> set ps. peers p = tbl \<Longrightarrow> peers n = [] \<or> peers n = tbl \<Longrightarrow>
   peers (overlayMyself nid ps n) = (if ps = [] then peers n else if peers n = [] then tbl else peers n)"
  by (induction nid ps n rule: overlayMyself.induct) (auto simp: Let_def)

lemma nodeStateFromScrape_peers:
  "peers (nodeStateFromScrape nid shardID addr infoRepl clusterInfo clusterNodes)
     = peerTable (parsedLines clusterNodes)"
proof -
  have "peerTable [] = []" by (simp add: peerTable_def)
  then show ?thesis
    unfolding nodeStateFromScrape_def ParseClusterNodes_def Let_def
    by (auto split: prod.split simp: overlayMyself_peers [where tbl = "peerTable (parsedLines clusterNodes)"])
qed


subsection \<open>Round trip of CLUSTER NODES lines\<close>

text \<open>
  A line as the engine documents it: id, address with bus port, flags, primary, two ping fields,
  epoch, link state and the owned ranges.  The ping and link fields are not read.
\<close>

definition renderNodeLine :: "string \<times> string \<times> string \<Rightarrow> parsedNodeLine \<Rightarrow> string" where
  "renderNodeLine x p =
     (case x of (ping, pong, link) \<Rightarrow>
        Join ([pl_id p, pl_addr p @ ''@'' @ Itoa (pl_busPort p), Join (pl_flags p) '','', pl_primaryID p,
               ping, pong, Itoa (pl_configEpoch p), link] @ map SlotRange_String (pl_slots p)) '' '')"

definition wf_line :: "parsedNodeLine \<Rightarrow> bool" where
  "wf_line p \<longleftrightarrow>
     token (pl_id p) \<and> token (pl_primaryID p) \<and> (\<forall>c \<in> set (pl_addr p). \<not> isSpace c) \<and>
     CHR '','' \<notin> set (pl_addr p) \<and> CHR ''@'' \<notin> set (pl_addr p) \<and>
     0 \<le> pl_busPort p \<and> int64 (pl_busPort p) \<and> int64 (pl_configEpoch p) \<and>
     pl_flags p \<noteq> [] \<and> list_all (\<lambda>f. token f \<and> CHR '','' \<notin> set f) (pl_flags p) \<and>
     slots_in_range (pl_slots p)"

lemma token_Join_comma:
  "ws \<noteq> [] \<Longrightarrow> list_all token ws \<Longrightarrow> token (Join ws '','')"
proof (induction ws "'',''" rule: Join.induct)
  case (3 w v ws)
  moreover have "\<not> isSpace (CHR '','')" by (simp add: isSpace_def)
  ultimately show ?case by (auto simp: token_def)
qed simp_all

lemma token_SlotRange_String:
  assumes "0 \<le> Start r" "Start r \<le> End r" shows "token (SlotRange_String r)"
proof -
  have "\<not> isSpace (CHR ''-'')" by (simp add: isSpace_def)
  then show ?thesis
    using SlotRange_String_chars [OF assms] digit_not_space by (auto simp: token_def)
qed

lemma addr_field:
  assumes "CHR '','' \<notin> set a" "CHR ''@'' \<notin> set a" "0 \<le> n" "int64 n"
  shows "addrFromField (a @ CHR ''@'' # Itoa n) = a" "busPortFromField (a @ CHR ''@'' # Itoa n) = n"
proof -
  have "CHR '','' \<notin> set (a @ ''@'' @ Itoa n)"
    using assms Itoa_digits [OF assms(3), of "CHR '',''"] by auto
  then have "fst (Cut (a @ ''@'' @ Itoa n) (CHR '','')) = a @ CHR ''@'' # Itoa n"
    by (simp add: Cut_none)
  then show "addrFromField (a @ CHR ''@'' # Itoa n) = a" "busPortFromField (a @ CHR ''@'' # Itoa n) = n"
    using assms by (simp_all add: addrFromField_def busPortFromField_def Cut_sep Atoi_Itoa)
qed

lemma renderNodeLine_tokens:
  assumes "wf_line p" "token ping" "token pong" "token link"
  shows "list_all token ([pl_id p, pl_addr p @ ''@'' @ Itoa (pl_busPort p), Join (pl_flags p) '','',
           pl_primaryID p, ping, pong, Itoa (pl_configEpoch p), link] @ map SlotRange_String (pl_slots p))"
proof -
  have "\<not> isSpace (CHR ''@'')" by (simp add: isSpace_def)
  then have "token (pl_addr p @ ''@'' @ Itoa (pl_busPort p))"
    using assms(1) token_Itoa [of "pl_busPort p"] by (auto simp: wf_line_def token_def)
  moreover have "token (Join (pl_flags p) '','')"
    using assms(1) by (intro token_Join_comma) (auto simp: wf_line_def list_all_iff)
  ultimately show ?thesis
    using assms by (auto simp: wf_line_def token_Itoa slots_in_range_def list_all_iff
        intro!: token_SlotRange_String)
qed

lemma parse_renderNodeLine:
  assumes "wf_line p" "token ping" "token pong" "token link"
  shows "parseNodeLine (renderNodeLine (ping, pong, link) p) = Some p"
proof -
  let ?fs = "[pl_id p, pl_addr p @ ''@'' @ Itoa (pl_busPort p), Join (pl_flags p) '','', pl_primaryID p,
               ping, pong, Itoa (pl_configEpoch p), link] @ map SlotRange_String (pl_slots p)"
  have F: "Fields (TrimSpace (renderNodeLine (ping, pong, link) p)) = ?fs"
    using Fields_Join [OF _ renderNodeLine_tokens [OF assms]] by (simp add: renderNodeLine_def)
  have fl: "Split (Join (pl_flags p) '','') (CHR '','') = pl_flags p"
    using assms(1) by (intro Split_Join) (auto simp: wf_line_def list_all_iff)
  have ep: "ParseInt (Itoa (pl_configEpoch p)) = (pl_configEpoch p, None)"
    using Atoi_Itoa assms(1) by (simp add: wf_line_def Atoi_def)
  have sl: "parseSlotRanges (map SlotRange_String (pl_slots p)) = Inr (pl_slots p)"
    using assms(1) by (simp add: parseSlotRanges_map_String wf_line_def)
  show ?thesis
    unfolding parseNodeLine_def F Let_def
    using assms(1) fl ep sl by (cases p) (auto simp: wf_line_def addr_field)
qed

lemma parseNodeLine_empty [simp]: "parseNodeLine [] = None"
  by (simp add: parseNodeLine_def TrimSpace_def TrimP_def TrimRightP_def Fields_def)

lemma parsedLines_terminated:
  assumes "\<forall>l \<in> set ls. newline \<notin> set l" "\<not> HasPrefix (concat (map (\<lambda>l. l @ [newline]) ls)) ''txt:''"
  shows "parsedLines (concat (map (\<lambda>l. l @ [newline]) ls)) = List.map_filter parseNodeLine ls"
  using assms by (simp add: parsedLines_def TrimPrefix_def Split_terminated map_filter_def)

text \<open>The verbatim-string prefix that RESP3 puts before the reply is skipped.\<close>

lemma parsedLines_txt:
  assumes "\<forall>l \<in> set ls. newline \<notin> set l"
  shows "parsedLines (''txt:'' @ concat (map (\<lambda>l. l @ [newline]) ls)) = List.map_filter parseNodeLine ls"
  using assms TrimPrefix_append [of "''txt:''"]
  by (simp add: parsedLines_def Split_terminated map_filter_def)

lemma renderNodeLine_no_newline:
  assumes "wf_line p" "token ping" "token pong" "token link"
  shows "newline \<notin> set (renderNodeLine (ping, pong, link) p)"
proof -
  have J: "c \<notin> set (Join ws '' '')" if "list_all token ws" "isSpace c" "c \<noteq> CHR '' ''" for c ws
    using that by (induction ws "'' ''" rule: Join.induct) (auto simp: token_def)
  have "isSpace newline" "newline \<noteq> CHR '' ''" by (simp_all add: newline_def isSpace_def)
  then show ?thesis
    unfolding renderNodeLine_def prod.case by (intro J renderNodeLine_tokens assms)
qed

lemma ParseClusterNodes_rendered:
  assumes "\<forall>((ping, pong, link), p) \<in> set xs. wf_line p \<and> token ping \<and> token pong \<and> token link"
  shows "ParseClusterNodes (''txt:'' @ concat (map (\<lambda>(x, p). renderNodeLine x p @ [newline]) xs))
           = map (\<lambda>p. (toNodeState p) \<lparr> peers := peerTable (map snd xs) \<rparr>) (map snd xs)"
proof -
  let ?ls = "map (\<lambda>(x, p). renderNodeLine x p) xs"
  have "newline \<notin> set (renderNodeLine x p) \<and> parseNodeLine (renderNodeLine x p) = Some p"
    if "(x, p) \<in> set xs" for x p
    using that assms parse_renderNodeLine renderNodeLine_no_newline by (cases x) fastforce
  then have nl: "\<forall>l \<in> set ?ls. newline \<notin> set l"
    and mf: "List.map_filter parseNodeLine ?ls = map snd xs"
    by (auto simp: map_filter_def filter_map comp_def case_prod_beta intro!: map_cong)
  have "map (\<lambda>l. l @ [newline]) ?ls = map (\<lambda>(x, p). renderNodeLine x p @ [newline]) xs" by auto
  then have "parsedLines (''txt:'' @ concat (map (\<lambda>(x, p). renderNodeLine x p @ [newline]) xs)) = map snd xs"
    using parsedLines_txt [OF nl] mf by metis
  then show ?thesis by (simp add: ParseClusterNodes_def)
qed

subsection \<open>Properties\<close>


definition sample_line :: parsedNodeLine where
  "sample_line = \<lparr> pl_id = ''07c3'', pl_addr = ''10.0.0.7:6379'', pl_busPort = 16379,
     pl_flags = [''myself'', ''master''], pl_primaryID = ''-'', pl_configEpoch = 2,
     pl_slots = [SlotRange 0 5460, SlotRange 9000 9000] \<rparr>"


text \<open>A scrape never yields a malformed slot range: whatever text the engine returns, every
  range of a scraped node has a non-negative start that is not after its end, and the node's
  gossip table has distinct keys.\<close>

theorem ScrapeNode_well_formed:
  "ScrapeNode addr c = Inr n \<longrightarrow>
     (\<forall>r \<in> set (NodeSlots n). 0 \<le> Start r \<and> Start r \<le> End r) \<and> distinct (map fst (peers n)) \<and>
     Addr n = addr \<and> client n"
  using ScrapeNode_slots [of addr c n]
  by (auto simp: ScrapeNode_def slot_bounds_def nodeStateFromScrape_peers distinct_peerTable
      split: sum.splits)

definition sample_client :: "string scrape_client" where
  "sample_client = \<lparr> ClusterMyID = Inr ''07c3'', ClusterMyShardID = Inr ''s0'',
     InfoReplication = Inr (''role:master'' @ [cr, newline]), ClusterInfo = Inr ''cluster_state:ok'',
     ClusterNodes = Inr ''07c3 10.0.0.7:6379@16379 myself,master - 0 0 2 connected 0-99 9-3'' \<rparr>"

theorem ScrapeNode_well_formed_witness:
  "\<exists>n. ScrapeNode ''10.0.0.7:6379'' sample_client = Inr n \<and> Addr n = ''10.0.0.7:6379'' \<and> client n"
proof -
  obtain n where n: "ScrapeNode ''10.0.0.7:6379'' sample_client = Inr n"
    by (simp add: ScrapeNode_def sample_client_def)
  with ScrapeNode_well_formed [of "''10.0.0.7:6379''" sample_client n] show ?thesis by blast
qed

end
