(* ===== verification/Topology.thy ===== *)
theory Topology
  imports Node_State
begin

text \<open>
  The cluster as the operator sees it in one pass: scraped nodes grouped into shards
  (\<^verbatim>\<open>src/pkg/valkey/state.go\<close>) and the questions the controller asks of them
  (\<^verbatim>\<open>src/pkg/valkey/topology.go\<close>): slot coverage, replication, failed nodes, failover quorum and
  the node ids to forget.

  \<open>NewClusterState\<close> is shown equal to a grouping by shard id; coverage is shown to be set
  complement, and the forget candidates are given as a set, so that they do not depend on the
  order in which Go iterates over the gossip tables.
\<close>

subsection \<open>Grouping nodes into shards\<close>

record ShardState =
  Shard_ID :: string
  Shard_PrimaryID :: string
  Shard_Slots :: "SlotRange list"
  Shard_Nodes :: "NodeState list"

definition Shard_Primary :: "ShardState \<Rightarrow> NodeState option" where
  "Shard_Primary s = find (\<lambda>n. ID n = Shard_PrimaryID s) (Shard_Nodes s)"

definition Shard_NumSlots :: "ShardState \<Rightarrow> int" where
  "Shard_NumSlots s = CountSlots (Shard_Slots s)"

record ClusterState =
  Nodes :: "NodeState list"
  Shards :: "ShardState list"
  PendingNodes :: "NodeState list"
  byID :: "string \<rightharpoonup> NodeState"
  byAddr :: "string \<rightharpoonup> NodeState"

definition NodeByID :: "ClusterState \<Rightarrow> string \<Rightarrow> NodeState option" where
  "NodeByID s nid = byID s nid"

definition NodeByAddr :: "ClusterState \<Rightarrow> string \<Rightarrow> NodeState option" where
  "NodeByAddr s addr = byAddr s addr"

definition emptyShard :: "string \<Rightarrow> ShardState" where
  "emptyShard nid = \<lparr> Shard_ID = nid, Shard_PrimaryID = '''', Shard_Slots = [], Shard_Nodes = [] \<rparr>"

text \<open>\<open>shardFor\<close> returns a pointer into the list; the model applies the caller's update to that shard.\<close>

fun shardFor :: "string \<Rightarrow> (ShardState \<Rightarrow> ShardState) \<Rightarrow> ShardState list \<Rightarrow> ShardState list" where
  "shardFor nid upd [] = [upd (emptyShard nid)]"
| "shardFor nid upd (sh # shs) =
     (if Shard_ID sh = nid then upd sh # shs else sh # shardFor nid upd shs)"

definition addToShard :: "NodeState \<Rightarrow> ShardState \<Rightarrow> ShardState" where
  "addToShard n sh =
     (let sh1 = sh \<lparr> Shard_Nodes := Shard_Nodes sh @ [n] \<rparr>
      in if IsPrimary n then sh1 \<lparr> Shard_PrimaryID := ID n, Shard_Slots := NodeSlots n \<rparr> else sh1)"

definition groupShards_node :: "ClusterState \<Rightarrow> NodeState \<Rightarrow> ClusterState" where
  "groupShards_node s n =
     (if IsPrimary n \<and> NumSlots n = 0 then s \<lparr> PendingNodes := PendingNodes s @ [n] \<rparr>
      else s \<lparr> Shards := shardFor (ShardID n) (addToShard n) (Shards s) \<rparr>)"

definition groupShards :: "ClusterState \<Rightarrow> ClusterState" where
  "groupShards s = foldl groupShards_node s (Nodes s)"

definition addNode :: "ClusterState \<Rightarrow> NodeState option \<Rightarrow> ClusterState" where
  "addNode s no =
     (case no of
        None \<Rightarrow> s
      | Some n \<Rightarrow> s \<lparr> Nodes := Nodes s @ [n],
                     byID := (if ID n \<noteq> '''' then (byID s)(ID n \<mapsto> n) else byID s),
                     byAddr := (if Addr n \<noteq> '''' then (byAddr s)(Addr n \<mapsto> n) else byAddr s) \<rparr>)"

definition NewClusterState :: "NodeState option list \<Rightarrow> ClusterState" where
  "NewClusterState nodes =
     groupShards (foldl addNode
       \<lparr> Nodes = [], Shards = [], PendingNodes = [], byID = Map.empty, byAddr = Map.empty \<rparr> nodes)"

subsection \<open>Health and coverage\<close>

definition AllReachableClusterStateOK :: "ClusterState \<Rightarrow> bool" where
  "AllReachableClusterStateOK s \<longleftrightarrow> Nodes s \<noteq> [] \<and> list_all ClusterStateOK (Nodes s)"

definition GetUnassignedSlots :: "ClusterState \<Rightarrow> SlotRange list" where
  "GetUnassignedSlots s =
     foldl (\<lambda>remaining shard. foldl carveRange remaining (Shard_Slots shard)) [SlotRange 0 maxSlot] (Shards s)"

definition effectiveShards :: "ClusterState \<Rightarrow> NodeState list" where
  "effectiveShards s =
     sort_key Addr (List.map_filter Shard_Primary (Shards s) @ filter IsPrimary (PendingNodes s))"

definition EffectivePrimaryCount :: "ClusterState \<Rightarrow> int" where
  "EffectivePrimaryCount s = int (length (effectiveShards s))"

definition IsReplicationInSync :: "ClusterState \<Rightarrow> bool" where
  "IsReplicationInSync s \<longleftrightarrow>
     list_all (\<lambda>shard. list_all (\<lambda>n. \<not> (IsReplica n \<and> \<not> LinkUp n)) (Shard_Nodes shard)) (Shards s)"

subsection \<open>Replicas of a primary\<close>

definition GetSyncedReplicas :: "ClusterState \<Rightarrow> string \<Rightarrow> NodeState list" where
  "GetSyncedReplicas s primaryID =
     filter (\<lambda>n. PrimaryID n = primaryID \<and> IsReplica n \<and>
                 \<not> (HasFlag n flagFail \<or> HasFlag n flagPFail \<or> HasFlag n flagPFailSoft) \<and> LinkUp n) (Nodes s)"

fun highestOffset_loop :: "NodeState option \<Rightarrow> NodeState list \<Rightarrow> NodeState option" where
  "highestOffset_loop best [] = best"
| "highestOffset_loop best (r # rs) =
     highestOffset_loop (case best of None \<Rightarrow> Some r | Some b \<Rightarrow> if Offset b < Offset r then Some r else best) rs"

definition highestOffset :: "NodeState list \<Rightarrow> NodeState option" where
  "highestOffset replicas = highestOffset_loop None replicas"

definition HighestOffsetReplica :: "ClusterState \<Rightarrow> string \<Rightarrow> NodeState option" where
  "HighestOffsetReplica s primaryID = highestOffset (GetSyncedReplicas s primaryID)"

definition BestReplicaOf :: "ClusterState \<Rightarrow> string \<Rightarrow> NodeState option" where
  "BestReplicaOf s deadPrimaryID =
     highestOffset (filter (\<lambda>n. PrimaryID n = deadPrimaryID \<and> IsReplica n) (Nodes s))"

subsection \<open>Failure and quorum\<close>

definition failedView :: "peerView \<Rightarrow> bool" where
  "failedView p \<longleftrightarrow> flagFail \<in> set (peer_flags p) \<or> flagPFailSoft \<in> set (peer_flags p)"

definition IsNodeFailed :: "ClusterState \<Rightarrow> string \<Rightarrow> bool" where
  "IsNodeFailed s nodeID \<longleftrightarrow>
     list_ex (\<lambda>n. case map_of (peers n) nodeID of None \<Rightarrow> False | Some peer \<Rightarrow> failedView peer) (Nodes s) \<or>
     (case byID s nodeID of None \<Rightarrow> False | Some self \<Rightarrow> IsFailed self)"

definition FailedPrimaries :: "ClusterState \<Rightarrow> NodeState list" where
  "FailedPrimaries s = filter (\<lambda>p. IsNodeFailed s (ID p)) (List.map_filter Shard_Primary (Shards s))"

definition hasReplicaOf :: "ClusterState \<Rightarrow> string \<Rightarrow> string set option \<Rightarrow> bool" where
  "hasReplicaOf s nodeID backingIDs \<longleftrightarrow>
     list_ex (\<lambda>n. list_ex (\<lambda>(_, peer). peer_primaryID peer = nodeID \<and>
        (case backingIDs of None \<Rightarrow> True | Some b \<Rightarrow> peer_id peer \<in> b)) (peers n)) (Nodes s)"

definition HasReplicaOf :: "ClusterState \<Rightarrow> string \<Rightarrow> bool" where
  "HasReplicaOf s nodeID = hasReplicaOf s nodeID None"

definition livePrimaries :: "ClusterState \<Rightarrow> int" where
  "livePrimaries s =
     int (length (filter (\<lambda>shard. case Shard_Primary shard of None \<Rightarrow> False
       | Some p \<Rightarrow> 0 < Shard_NumSlots shard \<and> \<not> IsNodeFailed s (ID p)) (Shards s)))"

definition maxClusterSize :: "ClusterState \<Rightarrow> int" where
  "maxClusterSize s = foldl (\<lambda>m n. if m < ClusterSize n then ClusterSize n else m) 0 (Nodes s)"

definition HasFailoverQuorum :: "ClusterState \<Rightarrow> bool" where
  "HasFailoverQuorum s \<longleftrightarrow>
     Shards s \<noteq> [] \<and> maxClusterSize s \<noteq> 0 \<and> maxClusterSize s div 2 < livePrimaries s"

definition FailoverDecision :: "bool \<Rightarrow> FailoverMode" where
  "FailoverDecision hasQuorum = (if hasQuorum then FailoverForce else FailoverTakeover)"

subsection \<open>Gossip\<close>

text \<open>The loop of \<open>StaleNodeIDs\<close>; \<open>stale\<close> is also the set \<^verbatim>\<open>seen\<close>.\<close>

fun StaleNodeIDs_loop :: "ClusterState \<Rightarrow> string set \<Rightarrow> string list \<Rightarrow> string list \<Rightarrow> string list" where
  "StaleNodeIDs_loop s backingIDs [] stale = stale"
| "StaleNodeIDs_loop s backingIDs (nid # ids) stale =
     StaleNodeIDs_loop s backingIDs ids
       (if nid = '''' \<or> nid \<in> backingIDs \<or> nid \<in> set stale \<or> hasReplicaOf s nid (Some backingIDs)
        then stale else stale @ [nid])"

definition StaleNodeIDs :: "ClusterState \<Rightarrow> string set \<Rightarrow> string list" where
  "StaleNodeIDs s backingIDs =
     sort (StaleNodeIDs_loop s backingIDs (concat (map (\<lambda>n. map fst (peers n)) (Nodes s))) [])"

definition GossipVisible :: "ClusterState \<Rightarrow> string \<Rightarrow> string \<Rightarrow> bool" where
  "GossipVisible s srcID dstID \<longleftrightarrow>
     (case byID s srcID of None \<Rightarrow> False | Some src \<Rightarrow> map_of (peers src) dstID \<noteq> None)"

definition PrimaryByShardID :: "ClusterState \<Rightarrow> string \<Rightarrow> NodeState option" where
  "PrimaryByShardID s shardID =
     (case find (\<lambda>shard. Shard_ID shard = shardID) (Shards s) of None \<Rightarrow> None | Some shard \<Rightarrow> Shard_Primary shard)"

subsection \<open>The grouping as a reference\<close>

definition mkShard :: "string \<Rightarrow> NodeState list \<Rightarrow> ShardState" where
  "mkShard nid ns = foldl (\<lambda>sh n. addToShard n sh) (emptyShard nid) ns"

definition slotless :: "NodeState \<Rightarrow> bool" where
  "slotless n \<longleftrightarrow> IsPrimary n \<and> NumSlots n = 0"

definition members :: "NodeState list \<Rightarrow> NodeState list" where
  "members ns = filter (\<lambda>n. \<not> slotless n) ns"

definition grouped :: "NodeState list \<Rightarrow> ShardState list \<Rightarrow> bool" where
  "grouped ms shs \<longleftrightarrow>
     distinct (map Shard_ID shs) \<and> Shard_ID ` set shs = ShardID ` set ms \<and>
     (\<forall>sh \<in> set shs. sh = mkShard (Shard_ID sh) (filter (\<lambda>n. ShardID n = Shard_ID sh) ms))"

lemma Shard_ID_addToShard [simp]: "Shard_ID (addToShard n sh) = Shard_ID sh"
  by (simp add: addToShard_def Let_def)

lemma mkShard_snoc: "mkShard nid (ns @ [n]) = addToShard n (mkShard nid ns)"
  by (simp add: mkShard_def)

lemma mkShard_Nil [simp]: "mkShard nid [] = emptyShard nid"
  by (simp add: mkShard_def)

lemma Shard_ID_mkShard [simp]: "Shard_ID (mkShard nid ns) = nid"
  by (induction ns rule: rev_induct) (simp_all add: mkShard_snoc emptyShard_def)

lemma Shard_Nodes_mkShard [simp]: "Shard_Nodes (mkShard nid ns) = ns"
  by (induction ns rule: rev_induct) (simp_all add: mkShard_snoc emptyShard_def addToShard_def Let_def)

lemma Shard_Slots_mkShard:
  "Shard_Slots (mkShard nid ns) =
     (if filter IsPrimary ns = [] then [] else NodeSlots (last (filter IsPrimary ns)))"
  by (induction ns rule: rev_induct) (simp_all add: mkShard_snoc emptyShard_def addToShard_def Let_def)

lemma Shard_PrimaryID_mkShard:
  "Shard_PrimaryID (mkShard nid ns) =
     (if filter IsPrimary ns = [] then '''' else ID (last (filter IsPrimary ns)))"
  by (induction ns rule: rev_induct) (simp_all add: mkShard_snoc emptyShard_def addToShard_def Let_def)

lemma shardFor_IDs:
  "map Shard_ID (shardFor nid (addToShard n) shs) =
     map Shard_ID shs @ (if nid \<in> Shard_ID ` set shs then [] else [nid])"
  by (induction shs) (auto simp: emptyShard_def)

lemma shardFor_set:
  "distinct (map Shard_ID shs) \<Longrightarrow>
   set (shardFor nid upd shs) =
     {sh \<in> set shs. Shard_ID sh \<noteq> nid} \<union>
     {upd sh | sh. sh \<in> set shs \<and> Shard_ID sh = nid} \<union>
     (if nid \<in> Shard_ID ` set shs then {} else {upd (emptyShard nid)})"
  by (induction shs) (auto simp: image_iff)

lemma grouped_step:
  assumes "grouped ms shs"
  shows "grouped (ms @ [n]) (shardFor (ShardID n) (addToShard n) shs)"
proof -
  have d: "distinct (map Shard_ID shs)" and i: "Shard_ID ` set shs = ShardID ` set ms"
    and m: "\<And>sh. sh \<in> set shs \<Longrightarrow> sh = mkShard (Shard_ID sh) (filter (\<lambda>n. ShardID n = Shard_ID sh) ms)"
    using assms by (auto simp: grouped_def)
  have new: "filter (\<lambda>x. ShardID x = ShardID n) ms = []" if "ShardID n \<notin> Shard_ID ` set shs"
    using that i by (metis (mono_tags, lifting) filter_False imageI)
  have "sh = mkShard (Shard_ID sh) (filter (\<lambda>x. ShardID x = Shard_ID sh) (ms @ [n]))"
    if "sh \<in> set (shardFor (ShardID n) (addToShard n) shs)" for sh
  proof -
    from that consider "sh \<in> set shs" "Shard_ID sh \<noteq> ShardID n"
      | sh' where "sh = addToShard n sh'" "sh' \<in> set shs" "Shard_ID sh' = ShardID n"
      | "ShardID n \<notin> Shard_ID ` set shs" "sh = addToShard n (emptyShard (ShardID n))"
      unfolding shardFor_set [OF d] by (auto split: if_splits)
    then show ?thesis
    proof cases
      case 1
      then show ?thesis using m [of sh] by simp
    next
      case 2
      then show ?thesis using m [of sh'] by (simp add: mkShard_snoc)
    next
      case 3
      then show ?thesis using new mkShard_snoc [of "ShardID n" "[]" n]
        by (simp add: emptyShard_def [symmetric] del: mkShard_Nil) (simp add: emptyShard_def)
    qed
  qed
  moreover have "distinct (map Shard_ID (shardFor (ShardID n) (addToShard n) shs))"
    using d by (auto simp: shardFor_IDs)
  moreover have "Shard_ID ` set (shardFor (ShardID n) (addToShard n) shs) = ShardID ` set (ms @ [n])"
    using arg_cong [OF shardFor_IDs [of "ShardID n" n shs], of set] i by (auto split: if_splits)
  ultimately show ?thesis by (simp add: grouped_def)
qed

lemma groupShards_loop:
  assumes "grouped ms (Shards s)"
  shows "grouped (ms @ members ns) (Shards (foldl groupShards_node s ns)) \<and>
         PendingNodes (foldl groupShards_node s ns) = PendingNodes s @ filter slotless ns \<and>
         Nodes (foldl groupShards_node s ns) = Nodes s \<and>
         byID (foldl groupShards_node s ns) = byID s \<and> byAddr (foldl groupShards_node s ns) = byAddr s"
  using assms
proof (induction ns arbitrary: s ms)
  case (Cons n ns)
  show ?case
  proof (cases "slotless n")
    case True
    then have "groupShards_node s n = s \<lparr> PendingNodes := PendingNodes s @ [n] \<rparr>"
      by (simp add: groupShards_node_def slotless_def)
    then show ?thesis
      using Cons.IH [of ms "groupShards_node s n"] Cons.prems True by (simp add: members_def)
  next
    case False
    then have "groupShards_node s n = s \<lparr> Shards := shardFor (ShardID n) (addToShard n) (Shards s) \<rparr>"
      by (auto simp: groupShards_node_def slotless_def)
    then show ?thesis
      using Cons.IH [of "ms @ [n]" "groupShards_node s n"] grouped_step [OF Cons.prems, of n] False
      by (simp add: members_def)
  qed
qed (simp add: members_def)

lemma addNode_loop:
  "Nodes (foldl addNode s nodes) = Nodes s @ List.map_filter (\<lambda>n. n) nodes \<and>
   Shards (foldl addNode s nodes) = Shards s \<and> PendingNodes (foldl addNode s nodes) = PendingNodes s"
  by (induction nodes arbitrary: s) (auto simp: addNode_def map_filter_def split: option.split)

lemma NewClusterState_shape:
  fixes nodes :: "NodeState option list"
  defines "ns \<equiv> List.map_filter (\<lambda>n. n) nodes"
  shows "Nodes (NewClusterState nodes) = ns" (is ?a)
    and "PendingNodes (NewClusterState nodes) = filter slotless ns" (is ?b)
    and "grouped (members ns) (Shards (NewClusterState nodes))" (is ?c)
proof -
  have g: "grouped [] []" by (simp add: grouped_def)
  let ?s = "foldl addNode \<lparr> Nodes = [], Shards = [], PendingNodes = [], byID = Map.empty, byAddr = Map.empty \<rparr> nodes"
  have "grouped [] (Shards ?s)" "Nodes ?s = ns" "PendingNodes ?s = []"
    using g by (simp_all add: addNode_loop ns_def)
  with groupShards_loop [of "[]" ?s ns] show ?a ?b ?c
    by (simp_all add: NewClusterState_def groupShards_def)
qed

lemma foldl_addNode_byID:
  "byID (foldl addNode s nodes) nid =
     (case find (\<lambda>n. ID n = nid \<and> nid \<noteq> '''') (rev (List.map_filter (\<lambda>n. n) nodes)) of
        None \<Rightarrow> byID s nid | Some n \<Rightarrow> Some n)"
proof (induction nodes rule: rev_induct)
  case (snoc no nodes)
  then show ?case by (cases no) (auto simp: addNode_def map_filter_def)
qed (simp add: map_filter_def)

lemma NewClusterState_byID:
  "byID (NewClusterState nodes) nid =
     find (\<lambda>n. ID n = nid \<and> nid \<noteq> '''') (rev (List.map_filter (\<lambda>n. n) nodes))"
proof -
  have "grouped [] []" by (simp add: grouped_def)
  then show ?thesis
    using groupShards_loop [of "[]"] foldl_addNode_byID addNode_loop
    by (simp add: NewClusterState_def groupShards_def split: option.split)
qed

lemma mset_concat_groups:
  assumes "distinct ids" "f ` set ms \<subseteq> set ids"
  shows "mset (concat (map (\<lambda>i. filter (\<lambda>n. f n = i) ms) ids)) = mset ms"
proof (rule multiset_eqI)
  fix x
  have "count (mset (concat (map (\<lambda>i. filter (\<lambda>n. f n = i) ms) ids))) x
      = (\<Sum>i\<leftarrow>ids. if f x = i then count (mset ms) x else 0)"
    by (induction ids) auto
  also have "\<dots> = (if f x \<in> set ids then count (mset ms) x else 0)"
    using assms(1) by (induction ids) auto
  also have "\<dots> = count (mset ms) x"
    using assms(2) by (auto simp: image_subset_iff not_in_iff)
  finally show "count (mset (concat (map (\<lambda>i. filter (\<lambda>n. f n = i) ms) ids))) x = count (mset ms) x" .
qed

lemma grouped_shardD:
  assumes "grouped ms shs" "sh \<in> set shs"
  shows "Shard_Nodes sh = filter (\<lambda>n. ShardID n = Shard_ID sh) ms" "Shard_Nodes sh \<noteq> []"
    "Shard_Slots sh = (if filter IsPrimary (Shard_Nodes sh) = [] then []
                       else NodeSlots (last (filter IsPrimary (Shard_Nodes sh))))"
    "Shard_PrimaryID sh = (if filter IsPrimary (Shard_Nodes sh) = [] then ''''
                           else ID (last (filter IsPrimary (Shard_Nodes sh))))"
proof -
  have sh: "sh = mkShard (Shard_ID sh) (filter (\<lambda>n. ShardID n = Shard_ID sh) ms)"
    and "Shard_ID sh \<in> Shard_ID ` set shs" "Shard_ID ` set shs = ShardID ` set ms"
    using assms by (auto simp: grouped_def)
  then have i: "Shard_ID sh \<in> ShardID ` set ms" by simp
  have *: "Shard_Nodes sh = filter (\<lambda>n. ShardID n = Shard_ID sh) ms"
    using arg_cong [OF sh, of Shard_Nodes] by simp
  show "Shard_Nodes sh = filter (\<lambda>n. ShardID n = Shard_ID sh) ms" by (fact *)
  show "Shard_Nodes sh \<noteq> []" using i by (auto simp: * filter_empty_conv)
  show "Shard_Slots sh = (if filter IsPrimary (Shard_Nodes sh) = [] then []
                       else NodeSlots (last (filter IsPrimary (Shard_Nodes sh))))"
    unfolding * using arg_cong [OF sh, of Shard_Slots] by (simp only: Shard_Slots_mkShard)
  show "Shard_PrimaryID sh = (if filter IsPrimary (Shard_Nodes sh) = [] then ''''
                           else ID (last (filter IsPrimary (Shard_Nodes sh))))"
    unfolding * using arg_cong [OF sh, of Shard_PrimaryID] by (simp only: Shard_PrimaryID_mkShard)
qed

lemma grouped_partition:
  assumes "grouped ms shs"
  shows "mset (concat (map Shard_Nodes shs)) = mset ms"
proof -
  have d: "distinct (map Shard_ID shs)" "ShardID ` set ms \<subseteq> set (map Shard_ID shs)"
    using assms by (auto simp: grouped_def)
  have "map Shard_Nodes shs = map (\<lambda>i. filter (\<lambda>n. ShardID n = i) ms) (map Shard_ID shs)"
    using grouped_shardD(1) [OF assms] by simp
  then show ?thesis using mset_concat_groups [OF d] by metis
qed

lemma grouped_primary:
  assumes "grouped ms shs" "sh \<in> set shs" "distinct (map ID ms)" "\<forall>n \<in> set ms. ID n \<noteq> ''''"
  shows "Shard_Primary sh = (if filter IsPrimary (Shard_Nodes sh) = [] then None
                             else Some (last (filter IsPrimary (Shard_Nodes sh))))"
proof (cases "filter IsPrimary (Shard_Nodes sh) = []")
  case True
  then have "Shard_PrimaryID sh = ''''" by (simp add: grouped_shardD(4) [OF assms(1,2)])
  then show ?thesis
    using True assms(4) by (auto simp: Shard_Primary_def find_None_iff grouped_shardD(1) [OF assms(1,2)])
next
  case False
  let ?p = "last (filter IsPrimary (Shard_Nodes sh))"
  have p: "?p \<in> set (Shard_Nodes sh)" using last_in_set [OF False] by auto
  have "distinct (map ID (Shard_Nodes sh))"
    using assms(3) by (simp add: grouped_shardD(1) [OF assms(1,2)] distinct_map_filter)
  from find_distinct_key [OF this p] show ?thesis
    using False grouped_shardD(4) [OF assms(1,2)] by (simp add: Shard_Primary_def)
qed

text \<open>A scrape list as the controller builds it: one node per id, with well-formed ranges.\<close>

definition wf_nodes :: "NodeState list \<Rightarrow> bool" where
  "wf_nodes ns \<longleftrightarrow> distinct (map ID ns) \<and> (\<forall>n \<in> set ns. ID n \<noteq> '''' \<and> slot_bounds (NodeSlots n))"

lemma wf_nodes_members: "wf_nodes ns \<Longrightarrow> distinct (map ID (members ns)) \<and> (\<forall>n \<in> set (members ns). ID n \<noteq> '''')"
  by (auto simp: wf_nodes_def members_def distinct_map_filter)

lemma primary_of_shard:
  assumes "wf_nodes (List.map_filter (\<lambda>n. n) nodes)" "sh \<in> set (Shards (NewClusterState nodes))"
    "Shard_Primary sh = Some p"
  shows "p \<in> set (Nodes (NewClusterState nodes)) \<and> p \<in> set (Shard_Nodes sh) \<and> IsPrimary p \<and> \<not> slotless p \<and>
         Shard_Slots sh = NodeSlots p \<and> Shard_PrimaryID sh = ID p \<and> ShardID p = Shard_ID sh"
proof -
  let ?ms = "members (List.map_filter (\<lambda>n. n) nodes)"
  note g = NewClusterState_shape(3) [of nodes]
  have ne: "filter IsPrimary (Shard_Nodes sh) \<noteq> []" and p: "p = last (filter IsPrimary (Shard_Nodes sh))"
    using grouped_primary [OF g assms(2)] wf_nodes_members [OF assms(1)] assms(3)
    by (auto split: if_splits)
  have "p \<in> set (filter IsPrimary (Shard_Nodes sh))" using last_in_set [OF ne] p by simp
  then have "p \<in> set ?ms" "p \<in> set (Shard_Nodes sh)" "IsPrimary p" "ShardID p = Shard_ID sh"
    by (auto simp: grouped_shardD(1) [OF g assms(2)])
  then show ?thesis
    using ne p grouped_shardD(3,4) [OF g assms(2)]
    by (simp add: NewClusterState_shape(1)) (auto simp: members_def)
qed

lemma Shard_Slots_bounds:
  assumes "\<forall>n \<in> set (List.map_filter (\<lambda>n. n) nodes). slot_bounds (NodeSlots n)"
    "sh \<in> set (Shards (NewClusterState nodes))"
  shows "slot_bounds (Shard_Slots sh)"
proof (cases "filter IsPrimary (Shard_Nodes sh) = []")
  case True
  then show ?thesis
    by (simp add: grouped_shardD(3) [OF NewClusterState_shape(3) assms(2)] slot_bounds_def)
next
  case False
  note g = NewClusterState_shape(3) [of nodes]
  have "last (filter IsPrimary (Shard_Nodes sh)) \<in> set (List.map_filter (\<lambda>n. n) nodes)"
    using last_in_set [OF False] by (auto simp: grouped_shardD(1) [OF g assms(2)] members_def)
  then show ?thesis
    using False assms(1) by (simp add: grouped_shardD(3) [OF g assms(2)])
qed

subsection \<open>Coverage\<close>

definition owned_slots :: "ClusterState \<Rightarrow> int set" where
  "owned_slots s = (\<Union>sh \<in> set (Shards s). slot_set (Shard_Slots sh))"

lemma GetUnassignedSlots_concat:
  "GetUnassignedSlots s = foldl carveRange [SlotRange 0 maxSlot] (concat (map Shard_Slots (Shards s)))"
proof -
  have "foldl (\<lambda>rs sh. foldl carveRange rs (Shard_Slots sh)) r shs
      = foldl carveRange r (concat (map Shard_Slots shs))" for r shs
    by (induction shs arbitrary: r) auto
  then show ?thesis by (simp add: GetUnassignedSlots_def)
qed

lemma GetUnassignedSlots_props:
  assumes "\<forall>sh \<in> set (Shards s). valid_ranges (Shard_Slots sh)"
  shows "ascending (GetUnassignedSlots s)"
    and "slot_set (GetUnassignedSlots s) = {0..maxSlot} - owned_slots s"
proof -
  have v: "valid_ranges (concat (map Shard_Slots shs))" if "\<forall>sh \<in> set shs. valid_ranges (Shard_Slots sh)" for shs
    using that by (induction shs) auto
  have o: "slot_set (concat (map Shard_Slots shs)) = (\<Union>sh \<in> set shs. slot_set (Shard_Slots sh))" for shs
    by (induction shs) auto
  have a: "ascending [SlotRange 0 maxSlot]" by (simp add: ascending_def maxSlot_def TotalSlots_def)
  from slot_sub.carve_all [OF a v [OF assms]]
  show "ascending (GetUnassignedSlots s)" "slot_set (GetUnassignedSlots s) = {0..maxSlot} - owned_slots s"
    unfolding GetUnassignedSlots_concat carveRange_fun by (simp_all add: o owned_slots_def)
qed

lemma GetUnassignedSlots_Nil_iff:
  assumes "\<forall>sh \<in> set (Shards s). valid_ranges (Shard_Slots sh)"
  shows "GetUnassignedSlots s = [] \<longleftrightarrow> {0..maxSlot} \<subseteq> owned_slots s"
proof -
  have "GetUnassignedSlots s = [] \<longleftrightarrow> slot_set (GetUnassignedSlots s) = {}"
    using GetUnassignedSlots_props(1) [OF assms] by (simp add: slot_set_empty_iff ascending_def)
  then show ?thesis by (simp only: GetUnassignedSlots_props(2) [OF assms] Diff_eq_empty_iff)
qed

subsection \<open>Offsets\<close>

lemma highestOffset_loop_max:
  "highestOffset_loop best rs = Some r \<Longrightarrow>
   (r \<in> set rs \<or> best = Some r) \<and> (\<forall>x \<in> set rs. Offset x \<le> Offset r) \<and> (\<forall>b. best = Some b \<longrightarrow> Offset b \<le> Offset r)"
proof (induction best rs rule: highestOffset_loop.induct)
  case (2 best x rs)
  then show ?case by (cases best) (auto split: if_splits)
qed simp

lemma highestOffset_loop_None: "highestOffset_loop best rs = None \<longleftrightarrow> best = None \<and> rs = []"
  by (induction best rs rule: highestOffset_loop.induct) (auto split: option.split)

lemma highestOffset_max:
  "highestOffset rs = Some r \<Longrightarrow> r \<in> set rs \<and> (\<forall>x \<in> set rs. Offset x \<le> Offset r)"
  unfolding highestOffset_def using highestOffset_loop_max [of None rs r] by auto

lemma highestOffset_None [simp]: "highestOffset rs = None \<longleftrightarrow> rs = []"
  by (simp add: highestOffset_def highestOffset_loop_None)

subsection \<open>Forget candidates\<close>

definition gossip_ids :: "ClusterState \<Rightarrow> string set" where
  "gossip_ids s = (\<Union>n \<in> set (Nodes s). fst ` set (peers n))"

definition forgettable :: "ClusterState \<Rightarrow> string set \<Rightarrow> string \<Rightarrow> bool" where
  "forgettable s backingIDs nid \<longleftrightarrow>
     nid \<noteq> '''' \<and> nid \<notin> backingIDs \<and> \<not> hasReplicaOf s nid (Some backingIDs)"

lemma StaleNodeIDs_loop_props:
  "distinct stale \<Longrightarrow>
   distinct (StaleNodeIDs_loop s b ids stale) \<and>
   set (StaleNodeIDs_loop s b ids stale) = set stale \<union> {nid \<in> set ids. forgettable s b nid}"
  by (induction s b ids stale rule: StaleNodeIDs_loop.induct) (auto simp: forgettable_def)

lemma StaleNodeIDs_eq:
  "StaleNodeIDs s b = sorted_list_of_set {nid \<in> gossip_ids s. forgettable s b nid}"
proof -
  let ?l = "StaleNodeIDs_loop s b (concat (map (\<lambda>n. map fst (peers n)) (Nodes s))) []"
  have "set (concat (map (\<lambda>n. map fst (peers n)) (Nodes s))) = gossip_ids s"
    by (auto simp: gossip_ids_def)
  then have d: "distinct ?l" and l: "set ?l = {nid \<in> gossip_ids s. forgettable s b nid}"
    using StaleNodeIDs_loop_props [of "[]" s b] by simp_all
  have "sorted_list_of_set (set ?l) = sort ?l"
    using d by (simp only: sorted_list_of_set_sort_remdups distinct_remdups_id)
  then show ?thesis by (simp only: l StaleNodeIDs_def)
qed

lemma StaleNodeIDs_set: "set (StaleNodeIDs s b) = {nid \<in> gossip_ids s. forgettable s b nid}"
proof -
  have "finite (gossip_ids s)" by (simp add: gossip_ids_def)
  then show ?thesis by (simp add: StaleNodeIDs_eq)
qed

lemma hasReplicaOf_iff:
  "hasReplicaOf s nid (Some b) \<longleftrightarrow>
   (\<exists>n \<in> set (Nodes s). \<exists>peer \<in> snd ` set (peers n). peer_primaryID peer = nid \<and> peer_id peer \<in> b)"
  by (simp add: hasReplicaOf_def list_ex_iff case_prod_beta)

text \<open>Two states whose gossip tables are iterated in different orders.\<close>

definition same_gossip :: "ClusterState \<Rightarrow> ClusterState \<Rightarrow> bool" where
  "same_gossip s s' \<longleftrightarrow> list_all2 (\<lambda>n n'. mset (peers n) = mset (peers n')) (Nodes s) (Nodes s')"

lemma same_gossip_tables:
  assumes "same_gossip s s'"
  shows "(\<lambda>n. set (peers n)) ` set (Nodes s) = (\<lambda>n. set (peers n)) ` set (Nodes s')"
proof -
  have "map (\<lambda>n. set (peers n)) (Nodes s) = map (\<lambda>n. set (peers n)) (Nodes s')"
    using assms unfolding same_gossip_def
    by (induction rule: list_all2_induct) (auto dest: mset_eq_setD)
  then show ?thesis by (metis image_set)
qed

lemma StaleNodeIDs_order:
  assumes "same_gossip s s'" shows "StaleNodeIDs s b = StaleNodeIDs s' b"
proof -
  have t: "(\<exists>n \<in> set (Nodes s). P (set (peers n))) \<longleftrightarrow> (\<exists>n \<in> set (Nodes s'). P (set (peers n)))" for P
    using same_gossip_tables [OF assms] by (metis (no_types, lifting) image_iff)
  have "nid \<in> gossip_ids s \<longleftrightarrow> nid \<in> gossip_ids s'" for nid
    using t [of "\<lambda>S. nid \<in> fst ` S"] by (simp add: gossip_ids_def)
  then have "gossip_ids s = gossip_ids s'" by blast
  moreover have "hasReplicaOf s nid (Some b) = hasReplicaOf s' nid (Some b)" for nid
    unfolding hasReplicaOf_iff by (rule t)
  ultimately show ?thesis by (simp add: StaleNodeIDs_eq forgettable_def)
qed

lemma map_filter_primaries_submset:
  assumes "\<And>sh p. sh \<in> set shs \<Longrightarrow> Shard_Primary sh = Some p \<Longrightarrow> p \<in> set (Shard_Nodes sh)"
  shows "mset (List.map_filter Shard_Primary shs) \<subseteq># mset (concat (map Shard_Nodes shs))"
  using assms
proof (induction shs)
  case (Cons sh shs)
  then have IH: "mset (List.map_filter Shard_Primary shs) \<subseteq># mset (concat (map Shard_Nodes shs))" by simp
  show ?case
  proof (cases "Shard_Primary sh")
    case None
    then show ?thesis using IH by (simp add: map_filter_simps subset_mset.add_increasing)
  next
    case (Some p)
    then have "{#p#} \<subseteq># mset (Shard_Nodes sh)" using Cons.prems by simp
    from subset_mset.add_mono [OF this IH] show ?thesis using Some by (simp add: map_filter_simps)
  qed
qed (simp add: map_filter_def)

lemma effectiveShards_submset:
  assumes "wf_nodes (List.map_filter (\<lambda>n. n) nodes)"
  shows "mset (effectiveShards (NewClusterState nodes)) \<subseteq># mset (List.map_filter (\<lambda>n. n) nodes)"
proof -
  let ?st = "NewClusterState nodes" and ?ns = "List.map_filter (\<lambda>n. n) nodes"
  note g = NewClusterState_shape [of nodes]
  have "mset (List.map_filter Shard_Primary (Shards ?st)) \<subseteq># mset (members ?ns)"
    using map_filter_primaries_submset [of "Shards ?st"] primary_of_shard [OF assms]
      grouped_partition [OF g(3)] by auto
  moreover have "mset (filter IsPrimary (PendingNodes ?st)) \<subseteq># mset (filter slotless ?ns)"
    unfolding g(2) mset_filter by (rule multiset_filter_subset)
  ultimately have "mset (effectiveShards ?st) \<subseteq># mset (members ?ns) + mset (filter slotless ?ns)"
    by (simp add: effectiveShards_def subset_mset.add_mono)
  also have "mset (members ?ns) + mset (filter slotless ?ns) = mset ?ns"
    by (simp add: members_def add.commute)
  finally show ?thesis .
qed

lemma effectiveShards_wf:
  assumes "wf_nodes (List.map_filter (\<lambda>n. n) nodes)"
  shows "distinct (map ID (effectiveShards (NewClusterState nodes)))"
    and "set (effectiveShards (NewClusterState nodes)) \<subseteq> set (List.map_filter (\<lambda>n. n) nodes)"
    and "p \<in> set (effectiveShards (NewClusterState nodes)) \<Longrightarrow> IsPrimary p \<and> slot_bounds (NodeSlots p)"
proof -
  note sub = effectiveShards_submset [OF assms]
  have "mset (map ID (effectiveShards (NewClusterState nodes))) \<subseteq># mset (map ID (List.map_filter (\<lambda>n. n) nodes))"
    using image_mset_subseteq_mono [OF sub, of ID] by simp
  then show "distinct (map ID (effectiveShards (NewClusterState nodes)))"
    by (rule distinct_submset) (use assms in \<open>simp add: wf_nodes_def\<close>)
  show sub': "set (effectiveShards (NewClusterState nodes)) \<subseteq> set (List.map_filter (\<lambda>n. n) nodes)"
    using set_mset_mono [OF sub] by simp
  assume p: "p \<in> set (effectiveShards (NewClusterState nodes))"
  then have "IsPrimary p"
    using primary_of_shard [OF assms] by (auto simp: effectiveShards_def map_filter_def)
  then show "IsPrimary p \<and> slot_bounds (NodeSlots p)" using p sub' assms by (auto simp: wf_nodes_def)
qed

subsection \<open>Properties\<close>

text \<open>Building a cluster state loses and duplicates no node: the pending nodes and the members of
  the shards are together exactly the scraped nodes, the pending nodes are the primaries without
  slots, shard ids are distinct, and each shard holds exactly the other nodes that report its id.\<close>

theorem NewClusterState_partition:
  "mset (Nodes (NewClusterState nodes)) =
     mset (PendingNodes (NewClusterState nodes)) + mset (concat (map Shard_Nodes (Shards (NewClusterState nodes)))) \<and>
   (\<forall>n \<in> set (Nodes (NewClusterState nodes)).
      n \<in> set (PendingNodes (NewClusterState nodes)) \<longleftrightarrow> IsPrimary n \<and> NumSlots n = 0) \<and>
   distinct (map Shard_ID (Shards (NewClusterState nodes))) \<and>
   (\<forall>sh \<in> set (Shards (NewClusterState nodes)). Shard_Nodes sh \<noteq> [] \<and>
      set (Shard_Nodes sh) = {n \<in> set (Nodes (NewClusterState nodes)).
         ShardID n = Shard_ID sh \<and> \<not> (IsPrimary n \<and> NumSlots n = 0)})"
proof -
  let ?ns = "List.map_filter (\<lambda>n. n) nodes"
  note g = NewClusterState_shape [of nodes]
  have "mset ?ns = mset (filter slotless ?ns) + mset (members ?ns)"
    by (simp add: members_def)
  then show ?thesis
    using g(3) grouped_partition [OF g(3)] grouped_shardD(1,2) [OF g(3)]
    by (auto simp: g(1,2) slotless_def members_def grouped_def)
qed

definition sample_node :: "string \<Rightarrow> string \<Rightarrow> Role \<Rightarrow> string \<Rightarrow> SlotRange list \<Rightarrow> peer_table \<Rightarrow> NodeState" where
  "sample_node nid shard role prim slots tbl =
     \<lparr> ID = nid, ShardID = shard, Addr = nid @ '':6379'', BusPort = 16379, Flags = [], PrimaryID = prim,
       ConfigEpoch = 1, LinkUp = True, NodeRole = role, Offset = 100, NodeSlots = slots, KnownNodes = 3,
       ClusterStateOK = True, ClusterSize = 2, CurrentEpoch = 1, peers = tbl, client = True \<rparr>"

theorem NewClusterState_partition_witness:
  "let st = NewClusterState [Some (sample_node ''a'' ''s0'' RolePrimary '''' [SlotRange 0 9] []), None,
                             Some (sample_node ''b'' ''s0'' RoleReplica ''a'' [] [])]
   in distinct (map Shard_ID (Shards st)) \<and> length (Nodes st) = 2"
proof -
  define ns where "ns = [Some (sample_node ''a'' ''s0'' RolePrimary '''' [SlotRange 0 9] []), None,
                             Some (sample_node ''b'' ''s0'' RoleReplica ''a'' [] [])]"
  have "length (Nodes (NewClusterState ns)) = 2"
    by (simp add: NewClusterState_shape(1) map_filter_def ns_def)
  moreover have "distinct (map Shard_ID (Shards (NewClusterState ns)))"
    using NewClusterState_partition [of ns] by blast
  ultimately show ?thesis by (simp add: Let_def ns_def)
qed

text \<open>C22: The coverage gate is exact: for any scraped nodes, \<^const>\<open>GetUnassignedSlots\<close> returns, in
  address order and without overlap, exactly the slots of 0..16383 that no shard primary owns, and
  it is empty if and only if every slot is owned.\<close>

theorem GetUnassignedSlots_complement:
  assumes "\<forall>n. Some n \<in> set nodes \<longrightarrow> slot_bounds (NodeSlots n)"
  shows "ascending (GetUnassignedSlots (NewClusterState nodes)) \<and>
         slot_set (GetUnassignedSlots (NewClusterState nodes)) =
           {0..16383} - (\<Union>sh \<in> set (Shards (NewClusterState nodes)). slot_set (Shard_Slots sh)) \<and>
         (GetUnassignedSlots (NewClusterState nodes) = [] \<longleftrightarrow>
           {0..16383} \<subseteq> (\<Union>sh \<in> set (Shards (NewClusterState nodes)). slot_set (Shard_Slots sh)))"
proof -
  have "\<forall>n \<in> set (List.map_filter (\<lambda>n. n) nodes). slot_bounds (NodeSlots n)"
    using assms by (auto simp: map_filter_def)
  then have "\<forall>sh \<in> set (Shards (NewClusterState nodes)). valid_ranges (Shard_Slots sh)"
    by (blast intro: slot_bounds_valid Shard_Slots_bounds)
  moreover have "maxSlot = 16383" by (simp add: maxSlot_def TotalSlots_def)
  ultimately show ?thesis
    using GetUnassignedSlots_props GetUnassignedSlots_Nil_iff by (simp add: owned_slots_def)
qed

theorem GetUnassignedSlots_complement_witness:
  "ascending (GetUnassignedSlots (NewClusterState
     [Some (sample_node ''a'' ''s0'' RolePrimary '''' [SlotRange 0 9] []),
      Some (sample_node ''b'' ''s1'' RolePrimary '''' [SlotRange 20 16383] [])]))"
proof -
  let ?nodes = "[Some (sample_node ''a'' ''s0'' RolePrimary '''' [SlotRange 0 9] []),
                 Some (sample_node ''b'' ''s1'' RolePrimary '''' [SlotRange 20 16383] [])]"
  have "\<forall>n. Some n \<in> set ?nodes \<longrightarrow> slot_bounds (NodeSlots n)"
    by (auto simp: sample_node_def slot_bounds_def)
  from GetUnassignedSlots_complement [OF this] show ?thesis by blast
qed

text \<open>C23: The forget candidates are exactly the gossiped, non-empty ids without a backing node that no
  backed replica still follows; the list is sorted and duplicate-free, and it does not depend on the
  order in which the gossip tables are iterated.\<close>

theorem StaleNodeIDs_spec:
  "set (StaleNodeIDs s backing) =
     {nid. (\<exists>n \<in> set (Nodes s). nid \<in> fst ` set (peers n)) \<and> nid \<noteq> '''' \<and> nid \<notin> backing \<and>
           \<not> (\<exists>n \<in> set (Nodes s). \<exists>peer \<in> snd ` set (peers n).
                peer_primaryID peer = nid \<and> peer_id peer \<in> backing)} \<and>
   sorted (StaleNodeIDs s backing) \<and> distinct (StaleNodeIDs s backing) \<and>
   (same_gossip s s' \<longrightarrow> StaleNodeIDs s' backing = StaleNodeIDs s backing)"
proof -
  have "sorted (StaleNodeIDs s backing)" "distinct (StaleNodeIDs s backing)"
    by (simp_all add: StaleNodeIDs_eq)
  moreover have "set (StaleNodeIDs s backing) =
     {nid. (\<exists>n \<in> set (Nodes s). nid \<in> fst ` set (peers n)) \<and> nid \<noteq> '''' \<and> nid \<notin> backing \<and>
           \<not> (\<exists>n \<in> set (Nodes s). \<exists>peer \<in> snd ` set (peers n).
                peer_primaryID peer = nid \<and> peer_id peer \<in> backing)}"
    unfolding StaleNodeIDs_set forgettable_def hasReplicaOf_iff gossip_ids_def by blast
  ultimately show ?thesis using StaleNodeIDs_order by metis
qed

definition peer :: "string \<Rightarrow> string \<Rightarrow> string \<times> peerView" where
  "peer nid prim = (nid, \<lparr> peer_id = nid, peer_flags = [], peer_primaryID = prim \<rparr>)"

theorem StaleNodeIDs_spec_witness:
  "let tbl = [peer ''a'' ''-'', peer ''c'' ''x'', peer ''x'' ''-'', peer ''y'' ''-'', peer ''z'' ''y''];
       s = NewClusterState [Some (sample_node ''a'' ''s0'' RolePrimary '''' [SlotRange 0 9] tbl)];
       s' = NewClusterState [Some (sample_node ''a'' ''s0'' RolePrimary '''' [SlotRange 0 9] (rev tbl))]
   in same_gossip s s' \<and> StaleNodeIDs s' {''a'', ''c''} = StaleNodeIDs s {''a'', ''c''} \<and>
      ''y'' \<in> set (StaleNodeIDs s {''a'', ''c''}) \<and> ''x'' \<notin> set (StaleNodeIDs s {''a'', ''c''})"
proof -
  define tbl where "tbl = [peer ''a'' ''-'', peer ''c'' ''x'', peer ''x'' ''-'', peer ''y'' ''-'', peer ''z'' ''y'']"
  define n where "n t = sample_node ''a'' ''s0'' RolePrimary '''' [SlotRange 0 9] t" for t
  define s where "s = NewClusterState [Some (n tbl)]"
  define s' where "s' = NewClusterState [Some (n (rev tbl))]"
  have p: "peers (n t) = t" for t by (simp add: n_def sample_node_def)
  have N: "Nodes s = [n tbl]" "Nodes s' = [n (rev tbl)]"
    by (simp_all add: s_def s'_def NewClusterState_shape(1) map_filter_def)
  have g: "same_gossip s s'" by (simp add: same_gossip_def N p)
  have "''y'' \<in> set (StaleNodeIDs s {''a'', ''c''})" "''x'' \<notin> set (StaleNodeIDs s {''a'', ''c''})"
    using StaleNodeIDs_spec [of s "{''a'', ''c''}" s'] by (simp_all add: N p tbl_def peer_def)
  moreover have "StaleNodeIDs s' {''a'', ''c''} = StaleNodeIDs s {''a'', ''c''}"
    using StaleNodeIDs_spec [of s "{''a'', ''c''}" s'] g by simp
  ultimately show ?thesis
    using g unfolding Let_def s_def s'_def n_def tbl_def by blast
qed

text \<open>The promotion candidate for a dead primary is a best one: \<^const>\<open>BestReplicaOf\<close> returns a
  scraped replica of that primary whose replication offset no other replica of it exceeds, and
  returns none only when there is no replica.\<close>

theorem BestReplicaOf_best:
  "case BestReplicaOf s dead of
     None \<Rightarrow> \<not> (\<exists>n \<in> set (Nodes s). PrimaryID n = dead \<and> \<not> IsPrimary n)
   | Some r \<Rightarrow> r \<in> set (Nodes s) \<and> PrimaryID r = dead \<and> \<not> IsPrimary r \<and>
       (\<forall>n \<in> set (Nodes s). PrimaryID n = dead \<longrightarrow> \<not> IsPrimary n \<longrightarrow> Offset n \<le> Offset r)"
proof (cases "BestReplicaOf s dead")
  case None
  then have "filter (\<lambda>n. PrimaryID n = dead \<and> IsReplica n) (Nodes s) = []"
    by (simp add: BestReplicaOf_def)
  then show ?thesis by (auto simp: None filter_empty_conv)
next
  case (Some r)
  then have "r \<in> set (filter (\<lambda>n. PrimaryID n = dead \<and> IsReplica n) (Nodes s)) \<and>
    (\<forall>x \<in> set (filter (\<lambda>n. PrimaryID n = dead \<and> IsReplica n) (Nodes s)). Offset x \<le> Offset r)"
    unfolding BestReplicaOf_def by (rule highestOffset_max)
  then show ?thesis by (simp add: Some)
qed

theorem BestReplicaOf_best_witness:
  "let r = sample_node ''b'' ''s0'' RoleReplica ''a'' [] [];
       s = NewClusterState [Some r, Some (r \<lparr> ID := ''c'', Offset := 7 \<rparr>)]
   in BestReplicaOf s ''a'' = Some r"
proof -
  define r where "r = sample_node ''b'' ''s0'' RoleReplica ''a'' [] []"
  define s where "s = NewClusterState [Some r, Some (r \<lparr> ID := ''c'', Offset := 7 \<rparr>)]"
  have N: "Nodes s = [r, r \<lparr> ID := ''c'', Offset := 7 \<rparr>]"
    by (simp add: s_def NewClusterState_shape(1) map_filter_def)
  have r: "PrimaryID r = ''a''" "\<not> IsPrimary r" "Offset r = 100"
    by (simp_all add: r_def sample_node_def IsPrimary_def)
  then have "BestReplicaOf s ''a'' = Some r"
    using BestReplicaOf_best [of s "''a''"] by (auto simp: N IsPrimary_def split: option.splits)
  then show ?thesis by (simp add: Let_def s_def r_def)
qed



end
