(* ===== verification/Planner.thy ===== *)
theory Planner
  imports Topology
begin

text \<open>
  The deterministic slot planners, \<^verbatim>\<open>src/pkg/valkey/plan.go\<close>: the next rebalance move and the next
  drain move.

  Both satisfy one contract, the locale \<open>move_contract\<close>: a planned move takes slots its source owns,
  to another node, in a batch of bounded size; its consequences for slot ownership (nothing is lost,
  nothing is owned twice, the source gets strictly smaller) are proved once there.  For the
  rebalance planner the passes are shown to end, and the distance from the target it may leave is
  bounded.
\<close>

subsection \<open>Moves\<close>

record Move =
  SrcID :: string
  DstID :: string
  Ranges :: "SlotRange list"

definition Move_NumSlots :: "Move \<Rightarrow> int" where
  "Move_NumSlots m = CountSlots (Ranges m)"

definition rebalanceTolerance :: int where "rebalanceTolerance = 1"

record shardSlots =
  ss_node :: NodeState
  ss_ranges :: "SlotRange list"
  ss_numSlots :: int
  ss_target :: int

definition allocOf :: "NodeState \<times> int \<Rightarrow> shardSlots" where
  "allocOf pt = (case pt of (p, t) \<Rightarrow>
     \<lparr> ss_node = p, ss_ranges = NodeSlots p, ss_numSlots = NumSlots p, ss_target = t \<rparr>)"

text \<open>The scan for the first over-target and the first under-target shard.\<close>

fun scanAllocs :: "shardSlots list \<Rightarrow> shardSlots option \<Rightarrow> shardSlots option
    \<Rightarrow> shardSlots option \<times> shardSlots option" where
  "scanAllocs [] src dst = (src, dst)"
| "scanAllocs (a # as) src dst =
     scanAllocs as
       (if src = None \<and> rebalanceTolerance < ss_numSlots a - ss_target a then Some a else src)
       (if dst = None \<and> rebalanceTolerance < ss_target a - ss_numSlots a then Some a else dst)"

definition PlanRebalanceMove :: "ClusterState \<Rightarrow> int \<Rightarrow> Move option" where
  "PlanRebalanceMove s shards =
     (if shards \<le> 0 then None
      else let primaries = effectiveShards s in
           if int (length primaries) \<noteq> shards then None
           else case scanAllocs (map allocOf (zip primaries (targetSlotsPerShard shards))) None None of
                  (Some src, Some dst) \<Rightarrow>
                    let cnt = min (min (ss_numSlots src - ss_target src) (ss_target dst - ss_numSlots dst)) BatchSize
                    in Some \<lparr> SrcID = ID (ss_node src), DstID = ID (ss_node dst),
                              Ranges = SlotsToRanges (takeSlots (ss_ranges src) cnt) \<rparr>
                | _ \<Rightarrow> None)"

text \<open>\<open>remaining\<close> holds no nil pointer, so the \<^verbatim>\<open>c != nil\<close> test of the source is always true.\<close>

definition PlanDrainMove :: "NodeState option \<Rightarrow> NodeState list \<Rightarrow> int \<Rightarrow> Move option" where
  "PlanDrainMove srco remaining batch =
     (case srco of None \<Rightarrow> None
      | Some src \<Rightarrow>
          if batch \<le> 0 then None
          else let srcCount = NumSlots src in
               if srcCount = 0 then None
               else (case find (\<lambda>c. ID c \<noteq> ID src \<and> IsPrimary c) (sort_key Addr remaining) of
                       None \<Rightarrow> None
                     | Some dst \<Rightarrow>
                         Some \<lparr> SrcID = ID src, DstID = ID dst,
                                Ranges = SlotsToRanges (takeSlots (NodeSlots src) (min srcCount batch)) \<rparr>))"

subsection \<open>The move contract\<close>

definition moved :: "Move \<Rightarrow> int set" where "moved m = slot_set (Ranges m)"

text \<open>Slot ownership by node id, and what the atomic migration of a move makes of it.\<close>

type_synonym ownership = "string \<Rightarrow> int set"

definition transfer :: "Move \<Rightarrow> ownership \<Rightarrow> ownership" where
  "transfer m own = own (SrcID m := own (SrcID m) - moved m, DstID m := own (DstID m) \<union> moved m)"

definition disjoint_owners :: "ownership \<Rightarrow> bool" where
  "disjoint_owners own \<longleftrightarrow> (\<forall>x y z. z \<in> own x \<longrightarrow> z \<in> own y \<longrightarrow> x = y)"

locale move_contract =
  fixes plan :: "'s \<Rightarrow> Move option" and owner :: "'s \<Rightarrow> ownership" and ok :: "'s \<Rightarrow> bool"
  assumes from_source: "ok s \<Longrightarrow> plan s = Some m \<Longrightarrow> moved m \<subseteq> owner s (SrcID m)"
    and other_end: "ok s \<Longrightarrow> plan s = Some m \<Longrightarrow> SrcID m \<noteq> DstID m"
    and batch: "ok s \<Longrightarrow> plan s = Some m \<Longrightarrow> moved m \<noteq> {} \<and> int (card (moved m)) \<le> BatchSize"
begin

lemma transfer_keeps_slots:
  assumes "ok s" "plan s = Some m"
  shows "(\<Union>x. transfer m (owner s) x) = (\<Union>x. owner s x)"
  using from_source [OF assms] other_end [OF assms] by (auto simp: transfer_def split: if_splits)

lemma transfer_disjoint:
  assumes "ok s" "plan s = Some m" "disjoint_owners (owner s)"
  shows "disjoint_owners (transfer m (owner s))"
proof -
  have d: "x = y" if "z \<in> owner s x" "z \<in> owner s y" for x y z
    using assms(3) that by (auto simp: disjoint_owners_def)
  have src: "x = SrcID m" if "z \<in> owner s x" "z \<in> moved m" for x z
    using from_source [OF assms(1,2)] that d by blast
  have "z \<in> moved m \<and> x = DstID m \<or> z \<notin> moved m \<and> z \<in> owner s x" if "z \<in> transfer m (owner s) x" for x z
    using that src [of z x] by (auto simp: transfer_def split: if_splits)
  then show ?thesis
    unfolding disjoint_owners_def by (metis d)
qed

lemma transfer_shrinks_source:
  assumes "ok s" "plan s = Some m" "finite (owner s (SrcID m))"
  shows "card (transfer m (owner s) (SrcID m)) < card (owner s (SrcID m))"
proof -
  have "transfer m (owner s) (SrcID m) = owner s (SrcID m) - moved m"
    using other_end [OF assms(1,2)] by (simp add: transfer_def)
  moreover have "moved m \<subseteq> owner s (SrcID m)" "moved m \<noteq> {}"
    using from_source [OF assms(1,2)] batch [OF assms(1,2)] by auto
  ultimately show ?thesis using assms(3) by (auto intro!: psubset_card_mono)
qed

lemmas keeps = transfer_keeps_slots transfer_disjoint transfer_shrinks_source

end

subsection \<open>What the planners choose\<close>

lemma scanAllocs_find:
  "scanAllocs as src dst =
     ((case src of None \<Rightarrow> find (\<lambda>a. rebalanceTolerance < ss_numSlots a - ss_target a) as | Some x \<Rightarrow> src),
      (case dst of None \<Rightarrow> find (\<lambda>a. rebalanceTolerance < ss_target a - ss_numSlots a) as | Some x \<Rightarrow> dst))"
  by (induction as src dst rule: scanAllocs.induct) (auto split: option.splits)

text \<open>Surplus of a primary over its target.\<close>

definition surplus :: "NodeState \<times> int \<Rightarrow> int" where
  "surplus pt = NumSlots (fst pt) - snd pt"

definition allocation :: "ClusterState \<Rightarrow> int \<Rightarrow> (NodeState \<times> int) list" where
  "allocation s shards = zip (effectiveShards s) (targetSlotsPerShard shards)"

lemma scan_allocOf:
  "scanAllocs (map allocOf al) None None =
     (map_option allocOf (find (\<lambda>a. 1 < surplus a) al), map_option allocOf (find (\<lambda>a. surplus a < - 1) al))"
proof -
  have "find P (map f xs) = map_option f (find (P \<circ> f) xs)" for P xs and f :: "NodeState \<times> int \<Rightarrow> shardSlots"
    by (induction xs) auto
  then show ?thesis
    by (auto simp: scanAllocs_find comp_def allocOf_def surplus_def rebalanceTolerance_def case_prod_beta
        intro!: arg_cong [where f = "\<lambda>P. map_option _ (find P al)"])
qed

lemma PlanRebalanceMove_eq:
  "PlanRebalanceMove s shards =
     (if shards \<le> 0 \<or> int (length (effectiveShards s)) \<noteq> shards then None
      else case (find (\<lambda>a. 1 < surplus a) (allocation s shards), find (\<lambda>a. surplus a < - 1) (allocation s shards)) of
             (Some a, Some b) \<Rightarrow>
               Some \<lparr> SrcID = ID (fst a), DstID = ID (fst b),
                      Ranges = SlotsToRanges (take (nat (min (min (surplus a) (- surplus b)) BatchSize))
                                               (slots_of (NodeSlots (fst a)))) \<rparr>
           | _ \<Rightarrow> None)"
  by (auto simp: PlanRebalanceMove_def scan_allocOf allocation_def Let_def slot_simps surplus_def allocOf_def
      split: option.splits prod.splits)

lemma targets_nonneg: "t \<in> set (targetSlotsPerShard n) \<Longrightarrow> 0 \<le> t"
  by (cases "n \<le> 0") (auto simp: targetSlotsPerShard_def Let_def TotalSlots_def pos_imp_zdiv_nonneg_iff
      split: if_splits)

text \<open>Primaries with one entry per id and well-formed ranges.\<close>

definition wf_primaries :: "NodeState list \<Rightarrow> bool" where
  "wf_primaries ps \<longleftrightarrow> distinct (map ID ps) \<and> (\<forall>p \<in> set ps. valid_ranges (NodeSlots p))"

definition owner_in :: "NodeState list \<Rightarrow> ownership" where
  "owner_in ps nid = (case find (\<lambda>n. ID n = nid) ps of None \<Rightarrow> {} | Some n \<Rightarrow> slot_set (NodeSlots n))"

lemma owner_in_mem: "distinct (map ID ps) \<Longrightarrow> p \<in> set ps \<Longrightarrow> owner_in ps (ID p) = slot_set (NodeSlots p)"
  by (simp add: owner_in_def find_distinct_key)

lemma moved_take:
  assumes "valid_ranges rs" "0 < k" "k \<le> CountSlots rs"
  shows "moved \<lparr> SrcID = a, DstID = b, Ranges = SlotsToRanges (take (nat k) (slots_of rs)) \<rparr> \<subseteq> slot_set rs"
    and "moved \<lparr> SrcID = a, DstID = b, Ranges = SlotsToRanges (take (nat k) (slots_of rs)) \<rparr> \<noteq> {}"
    and "int (card (moved \<lparr> SrcID = a, DstID = b, Ranges = SlotsToRanges (take (nat k) (slots_of rs)) \<rparr>)) \<le> k"
proof -
  have m: "moved \<lparr> SrcID = a, DstID = b, Ranges = SlotsToRanges (take (nat k) (slots_of rs)) \<rparr>
      = set (take (nat k) (slots_of rs))"
    by (simp add: moved_def slot_simps)
  show "moved \<lparr> SrcID = a, DstID = b, Ranges = SlotsToRanges (take (nat k) (slots_of rs)) \<rparr> \<subseteq> slot_set rs"
    unfolding m using set_take_subset by fastforce
  have "slots_of rs \<noteq> []" using assms by (auto simp: CountSlots_length)
  then show "moved \<lparr> SrcID = a, DstID = b, Ranges = SlotsToRanges (take (nat k) (slots_of rs)) \<rparr> \<noteq> {}"
    unfolding m using assms(2) by simp
  have "card (set (take (nat k) (slots_of rs))) \<le> length (take (nat k) (slots_of rs))"
    by (rule card_length)
  then show "int (card (moved \<lparr> SrcID = a, DstID = b, Ranges = SlotsToRanges (take (nat k) (slots_of rs)) \<rparr>)) \<le> k"
    unfolding m using assms(2) by auto
qed

lemma PlanRebalanceMove_SomeD:
  assumes "PlanRebalanceMove s shards = Some m"
  shows "\<exists>a b k. a \<in> set (allocation s shards) \<and> b \<in> set (allocation s shards) \<and>
           1 < surplus a \<and> surplus b < - 1 \<and> 0 < shards \<and> int (length (effectiveShards s)) = shards \<and>
           k = min (min (surplus a) (- surplus b)) BatchSize \<and>
           m = \<lparr> SrcID = ID (fst a), DstID = ID (fst b),
                 Ranges = SlotsToRanges (take (nat k) (slots_of (NodeSlots (fst a)))) \<rparr>"
proof -
  obtain a b where "find (\<lambda>a. 1 < surplus a) (allocation s shards) = Some a"
      "find (\<lambda>a. surplus a < - 1) (allocation s shards) = Some b"
      and n: "0 < shards" "int (length (effectiveShards s)) = shards"
      and m: "m = \<lparr> SrcID = ID (fst a), DstID = ID (fst b),
             Ranges = SlotsToRanges (take (nat (min (min (surplus a) (- surplus b)) BatchSize))
                                      (slots_of (NodeSlots (fst a)))) \<rparr>"
    using assms unfolding PlanRebalanceMove_eq by (force split: if_splits option.splits)
  then have "a \<in> set (allocation s shards)" "1 < surplus a" "b \<in> set (allocation s shards)" "surplus b < - 1"
    by (auto dest!: find_SomeD)
  with n m show ?thesis by blast
qed

lemma allocation_mem:
  "a \<in> set (allocation s shards) \<Longrightarrow> fst a \<in> set (effectiveShards s) \<and> 0 \<le> snd a"
  unfolding allocation_def
  by (cases a) (auto dest: set_zip_leftD set_zip_rightD targets_nonneg)

lemma rebalance_contract:
  assumes "wf_primaries (effectiveShards s)" "PlanRebalanceMove s shards = Some m"
  shows "moved m \<subseteq> owner_in (effectiveShards s) (SrcID m)" "SrcID m \<noteq> DstID m"
    "moved m \<noteq> {}" "int (card (moved m)) \<le> BatchSize"
proof -
  obtain a b k where ab: "a \<in> set (allocation s shards)" "b \<in> set (allocation s shards)"
      "1 < surplus a" "surplus b < - 1" and k: "k = min (min (surplus a) (- surplus b)) BatchSize"
      and m: "m = \<lparr> SrcID = ID (fst a), DstID = ID (fst b),
                 Ranges = SlotsToRanges (take (nat k) (slots_of (NodeSlots (fst a)))) \<rparr>"
    using PlanRebalanceMove_SomeD [OF assms(2)] by blast
  have pa: "fst a \<in> set (effectiveShards s)" "0 \<le> snd a" and pb: "fst b \<in> set (effectiveShards s)"
    using allocation_mem ab by auto
  have v: "valid_ranges (NodeSlots (fst a))" and d: "distinct (map ID (effectiveShards s))"
    using assms(1) pa by (auto simp: wf_primaries_def)
  have k0: "0 < k" "k \<le> CountSlots (NodeSlots (fst a))" "k \<le> BatchSize"
    using ab(3,4) k pa(2) by (auto simp: surplus_def NumSlots_def BatchSize_def)
  note t = moved_take [OF v k0(1,2), of "ID (fst a)" "ID (fst b)", folded m]
  show "moved m \<subseteq> owner_in (effectiveShards s) (SrcID m)"
    using t(1) owner_in_mem [OF d pa(1)] by (simp add: m)
  show "moved m \<noteq> {}" "int (card (moved m)) \<le> BatchSize" using t(2,3) k0 by auto
  show "SrcID m \<noteq> DstID m"
  proof
    assume "SrcID m = DstID m"
    then have eq: "fst a = fst b" using d pa(1) pb by (auto simp: m distinct_map inj_on_def)
    have "distinct (map fst (allocation s shards))"
      using d by (simp add: allocation_def distinct_map map_fst_zip_take distinct_take)
    then have "a = b" using ab(1,2) eq by (auto simp: distinct_map inj_on_def)
    then show False using ab(3,4) by simp
  qed
qed

interpretation rebalance_move: move_contract
  "\<lambda>(s, shards). PlanRebalanceMove s shards" "\<lambda>(s, shards). owner_in (effectiveShards s)"
  "\<lambda>(s, shards). wf_primaries (effectiveShards s)"
  by unfold_locales (auto dest: rebalance_contract)

lemma drain_contract:
  assumes "valid_ranges (NodeSlots src)" "PlanDrainMove (Some src) remaining batch = Some m"
  shows "SrcID m = ID src" "moved m \<subseteq> slot_set (NodeSlots src)" "DstID m \<noteq> ID src"
    "moved m \<noteq> {}" "int (card (moved m)) \<le> batch"
    "\<exists>dst \<in> set remaining. ID dst = DstID m \<and> IsPrimary dst"
proof -
  obtain dst where b: "0 < batch" "NumSlots src \<noteq> 0"
      and f: "find (\<lambda>c. ID c \<noteq> ID src \<and> IsPrimary c) (sort_key Addr remaining) = Some dst"
      and m: "m = \<lparr> SrcID = ID src, DstID = ID dst,
              Ranges = SlotsToRanges (take (nat (min (NumSlots src) batch)) (slots_of (NodeSlots src))) \<rparr>"
    using assms(2) by (auto simp: PlanDrainMove_def Let_def slot_simps split: if_splits option.splits)
  have d: "dst \<in> set remaining" "ID dst \<noteq> ID src" "IsPrimary dst" using find_SomeD [OF f] by auto
  have k: "0 < min (NumSlots src) batch" "min (NumSlots src) batch \<le> CountSlots (NodeSlots src)"
    using b CountSlots_nonneg [OF assms(1)] by (auto simp: NumSlots_def)
  note t = moved_take [OF assms(1) k, of "ID src" "ID dst", folded m]
  show "SrcID m = ID src" "DstID m \<noteq> ID src" using d by (auto simp: m)
  show "moved m \<subseteq> slot_set (NodeSlots src)" "moved m \<noteq> {}" "int (card (moved m)) \<le> batch" using t by auto
  show "\<exists>dst \<in> set remaining. ID dst = DstID m \<and> IsPrimary dst" using d by (auto simp: m)
qed

text \<open>A drain: the source, the surviving primaries and the batch size.\<close>

type_synonym drain = "NodeState \<times> NodeState list \<times> int"

definition drain_ok :: "drain \<Rightarrow> bool" where
  "drain_ok d = (case d of (src, remaining, batch) \<Rightarrow>
     distinct (map ID (src # remaining)) \<and> valid_ranges (NodeSlots src) \<and> batch \<le> BatchSize)"

definition drain_owner :: "drain \<Rightarrow> ownership" where
  "drain_owner d = (case d of (src, remaining, batch) \<Rightarrow> owner_in (src # remaining))"

definition drain_plan :: "drain \<Rightarrow> Move option" where
  "drain_plan d = (case d of (src, remaining, batch) \<Rightarrow> PlanDrainMove (Some src) remaining batch)"

interpretation drain_move: move_contract drain_plan drain_owner drain_ok
proof
  fix d m assume ok: "drain_ok d" and p: "drain_plan d = Some m"
  obtain src remaining batch where d: "d = (src, remaining, batch)" by (cases d) auto
  have v: "valid_ranges (NodeSlots src)" "batch \<le> BatchSize" using ok by (auto simp: d drain_ok_def)
  note c = drain_contract [OF v(1) p [unfolded d drain_plan_def prod.case]]
  show "moved m \<subseteq> drain_owner d (SrcID m)" using c(1,2) by (simp add: d drain_owner_def owner_in_def)
  show "SrcID m \<noteq> DstID m" using c(1,3) by simp
  show "moved m \<noteq> {} \<and> int (card (moved m)) \<le> BatchSize" using c(4,5) v(2) by simp
qed

lemma wf_primaries_effectiveShards:
  "wf_nodes (List.map_filter (\<lambda>n. n) nodes) \<Longrightarrow> wf_primaries (effectiveShards (NewClusterState nodes))"
  by (simp add: wf_primaries_def effectiveShards_wf slot_bounds_valid)

subsection \<open>Rebalance passes\<close>

text \<open>
  What the engine documents of one atomic migration, seen from the next scrape: the same primaries
  in the same order, with the ranges of the move taken from the source and given to the destination.
\<close>

definition executed :: "Move \<Rightarrow> NodeState list \<Rightarrow> NodeState list \<Rightarrow> bool" where
  "executed m ps ps' \<longleftrightarrow>
     list_all2 (\<lambda>p p'. ID p' = ID p \<and> ascending (NodeSlots p') \<and>
                        slot_set (NodeSlots p') = transfer m (owner_in ps) (ID p)) ps ps'"

definition sound_primaries :: "NodeState list \<Rightarrow> bool" where
  "sound_primaries ps \<longleftrightarrow>
     distinct (map ID ps) \<and> (\<forall>p \<in> set ps. ascending (NodeSlots p)) \<and> disjoint_owners (owner_in ps)"

lemma sound_wf: "sound_primaries ps \<Longrightarrow> wf_primaries ps"
  by (auto simp: sound_primaries_def wf_primaries_def ascending_def)

lemma executed_IDs: "executed m ps ps' \<Longrightarrow> map ID ps' = map ID ps"
  unfolding executed_def by (induction rule: list_all2_induct) auto

lemma executed_owner:
  assumes "executed m ps ps'" "distinct (map ID ps)" "SrcID m \<in> ID ` set ps" "DstID m \<in> ID ` set ps"
  shows "owner_in ps' = transfer m (owner_in ps)"
proof
  fix x
  have d': "distinct (map ID ps')" using assms executed_IDs by simp
  have ids: "ID ` set ps' = ID ` set ps" using executed_IDs [OF assms(1)] by (metis list.set_map)
  show "owner_in ps' x = transfer m (owner_in ps) x"
  proof (cases "x \<in> ID ` set ps")
    case True
    then obtain p' where p': "p' \<in> set ps'" "x = ID p'" using ids by auto
    then have "slot_set (NodeSlots p') = transfer m (owner_in ps) x"
      using assms(1) unfolding executed_def by (auto simp: list_all2_conv_all_nth in_set_conv_nth)
    then show ?thesis using owner_in_mem [OF d' p'(1)] p'(2) by simp
  next
    case False
    then have "owner_in ps' x = {}" "owner_in ps x = {}" "x \<noteq> SrcID m" "x \<noteq> DstID m"
      using ids assms(3,4) by (auto simp: owner_in_def find_None_iff image_iff split: option.split dest!: find_SomeD)
    then show ?thesis by (simp add: transfer_def)
  qed
qed

lemma PlanRebalanceMove_ends:
  assumes "PlanRebalanceMove s shards = Some m"
  shows "SrcID m \<in> ID ` set (effectiveShards s)" "DstID m \<in> ID ` set (effectiveShards s)"
  using PlanRebalanceMove_SomeD [OF assms] allocation_mem by fastforce+

lemma executed_sound:
  assumes "sound_primaries (effectiveShards s)" "PlanRebalanceMove s n = Some m"
    "executed m (effectiveShards s) ps'"
  shows "sound_primaries ps'" "(\<Union>x. owner_in ps' x) = (\<Union>x. owner_in (effectiveShards s) x)"
proof -
  let ?ps = "effectiveShards s"
  have d: "distinct (map ID ?ps)" "disjoint_owners (owner_in ?ps)"
    using assms(1) by (auto simp: sound_primaries_def)
  note o = executed_owner [OF assms(3) d(1) PlanRebalanceMove_ends [OF assms(2)]]
  note c = rebalance_move.keeps(1,2) [of "(s, n)" m, simplified, OF sound_wf [OF assms(1)] assms(2)]
  have "\<forall>p \<in> set ps'. ascending (NodeSlots p)"
    using assms(3) unfolding executed_def by (auto simp: list_all2_conv_all_nth in_set_conv_nth)
  then show "sound_primaries ps'"
    using d c(2) executed_IDs [OF assms(3)] by (simp add: sound_primaries_def o)
  show "(\<Union>x. owner_in ps' x) = (\<Union>x. owner_in ?ps x)" using c(1) by (simp add: o)
qed

definition imbalance :: "ClusterState \<Rightarrow> int \<Rightarrow> int" where
  "imbalance s n = sum_list (map (\<lambda>a. \<bar>surplus a\<bar>) (allocation s n))"

lemma NumSlots_card: "ascending (NodeSlots p) \<Longrightarrow> NumSlots p = int (card (slot_set (NodeSlots p)))"
  by (simp add: NumSlots_def CountSlots_card)

lemma card_transfer:
  assumes "sound_primaries ps" "p \<in> set ps" "moved m \<subseteq> owner_in ps (SrcID m)" "SrcID m \<noteq> DstID m"
  shows "int (card (transfer m (owner_in ps) (ID p))) =
           NumSlots p + (if ID p = DstID m then int (card (moved m)) else 0)
                      - (if ID p = SrcID m then int (card (moved m)) else 0)"
proof -
  have own: "owner_in ps (ID p) = slot_set (NodeSlots p)" and asc: "ascending (NodeSlots p)"
    using assms(1,2) owner_in_mem by (auto simp: sound_primaries_def)
  have fin: "finite (owner_in ps x)" for x
    by (auto simp: owner_in_def slot_set_def split: option.split)
  have fm: "finite (moved m)" by (simp add: moved_def slot_set_def)
  have dis: "owner_in ps (ID p) \<inter> moved m = {}" if "ID p \<noteq> SrcID m"
    using assms(1,3) that by (fastforce simp: sound_primaries_def disjoint_owners_def)
  note n = NumSlots_card [OF asc, folded own]
  consider "ID p = SrcID m" | "ID p = DstID m" | "ID p \<noteq> SrcID m" "ID p \<noteq> DstID m" by blast
  then show ?thesis
  proof cases
    case 1
    then have "card (transfer m (owner_in ps) (ID p)) = card (owner_in ps (ID p)) - card (moved m)"
      using assms(3,4) fm by (simp add: transfer_def card_Diff_subset)
    moreover have "card (moved m) \<le> card (owner_in ps (ID p))" using assms(3) fin 1 by (simp add: card_mono)
    ultimately show ?thesis using 1 assms(4) n by simp
  next
    case 2
    then have "transfer m (owner_in ps) (ID p) = owner_in ps (ID p) \<union> moved m" by (simp add: transfer_def)
    then show ?thesis using 2 assms(4) n dis fin fm by (simp add: card_Un_disjoint)
  next
    case 3
    then show ?thesis using n by (simp add: transfer_def)
  qed
qed

lemma executed_surplus:
  assumes s: "sound_primaries (effectiveShards s)" and p: "PlanRebalanceMove s n = Some m"
    and e: "executed m (effectiveShards s) (effectiveShards s')" and l: "l < length (allocation s n)"
  shows "length (allocation s' n) = length (allocation s n)"
    and "surplus (allocation s' n ! l) = surplus (allocation s n ! l)
           + (if ID (fst (allocation s n ! l)) = DstID m then int (card (moved m)) else 0)
           - (if ID (fst (allocation s n ! l)) = SrcID m then int (card (moved m)) else 0)"
proof -
  let ?ps = "effectiveShards s" and ?ps' = "effectiveShards s'"
  have len: "length ?ps' = length ?ps" using executed_IDs [OF e] by (metis length_map)
  then show "length (allocation s' n) = length (allocation s n)" by (simp add: allocation_def)
  have l': "l < length ?ps" "l < length (targetSlotsPerShard n)" using l by (auto simp: allocation_def)
  have "ascending (NodeSlots (?ps' ! l))"
      "slot_set (NodeSlots (?ps' ! l)) = transfer m (owner_in ?ps) (ID (?ps ! l))"
    using e l' unfolding executed_def by (auto simp: list_all2_conv_all_nth)
  moreover note c = rebalance_contract [OF sound_wf [OF s] p]
  ultimately have "NumSlots (?ps' ! l) = int (card (transfer m (owner_in ?ps) (ID (?ps ! l))))"
    by (simp add: NumSlots_card)
  then show "surplus (allocation s' n ! l) = surplus (allocation s n ! l)
           + (if ID (fst (allocation s n ! l)) = DstID m then int (card (moved m)) else 0)
           - (if ID (fst (allocation s n ! l)) = SrcID m then int (card (moved m)) else 0)"
    using card_transfer [OF s nth_mem [OF l'(1)] c(1,2)] l' len
    by (simp add: surplus_def allocation_def)
qed

lemma card_moved_take:
  assumes "ascending rs" "0 \<le> k" "k \<le> CountSlots rs"
  shows "int (card (moved \<lparr> SrcID = a, DstID = b, Ranges = SlotsToRanges (take (nat k) (slots_of rs)) \<rparr>)) = k"
proof -
  have "distinct (take (nat k) (slots_of rs))" using ascendingD [OF assms(1)] by simp
  moreover have "nat k \<le> length (slots_of rs)"
    using assms by (simp add: CountSlots_length ascending_def)
  ultimately show ?thesis using assms(2) by (simp add: moved_def slot_simps distinct_card)
qed

lemma imbalance_decreases:
  assumes s: "sound_primaries (effectiveShards s)" and p: "PlanRebalanceMove s n = Some m"
    and e: "executed m (effectiveShards s) (effectiveShards s')"
  shows "imbalance s' n + 4 \<le> imbalance s n"
proof -
  let ?al = "allocation s n"
  obtain a b k where ab: "a \<in> set ?al" "b \<in> set ?al" "1 < surplus a" "surplus b < - 1"
      and k: "k = min (min (surplus a) (- surplus b)) BatchSize"
      and m: "m = \<lparr> SrcID = ID (fst a), DstID = ID (fst b),
                 Ranges = SlotsToRanges (take (nat k) (slots_of (NodeSlots (fst a)))) \<rparr>"
    using PlanRebalanceMove_SomeD [OF p] by blast
  obtain i j where i: "i < length ?al" "?al ! i = a" and j: "j < length ?al" "?al ! j = b"
    using ab(1,2) by (auto simp: in_set_conv_nth)
  have ij: "i \<noteq> j" using i j ab(3,4) by auto
  have pa: "fst a \<in> set (effectiveShards s)" "0 \<le> snd a" using allocation_mem [OF ab(1)] by auto
  have asc: "ascending (NodeSlots (fst a))" using s pa by (simp add: sound_primaries_def)
  have k2: "2 \<le> k" "k \<le> surplus a" "k \<le> - surplus b" "k \<le> CountSlots (NodeSlots (fst a))"
    using ab(3,4) pa(2) by (auto simp: k BatchSize_def surplus_def NumSlots_def)
  have c: "int (card (moved m)) = k" using card_moved_take [OF asc _ k2(4)] k2(1) by (simp add: m)
  have al_ps: "fst (?al ! l) = effectiveShards s ! l" "l < length (effectiveShards s)" if "l < length ?al" for l
    using that by (auto simp: allocation_def)
  have dIDs: "distinct (map ID (effectiveShards s))" using s by (simp add: sound_primaries_def)
  have src: "ID (fst (?al ! l)) = SrcID m \<longleftrightarrow> l = i" and dst: "ID (fst (?al ! l)) = DstID m \<longleftrightarrow> l = j"
    if "l < length ?al" for l
    using al_ps [OF that] al_ps [OF i(1)] al_ps [OF j(1)] i(2) j(2) dIDs
    by (auto simp: m distinct_conv_nth)
  have "map surplus (allocation s' n) = (map surplus ?al)[i := surplus a - k, j := surplus b + k]"
    using executed_surplus [OF s p e] src dst c i j ij
    by (intro nth_equalityI) (auto simp: nth_list_update)
  from arg_cong [OF this, of "map abs"]
  have "map (\<lambda>x. \<bar>surplus x\<bar>) (allocation s' n) = (map (\<lambda>x. \<bar>surplus x\<bar>) ?al)[i := \<bar>surplus a - k\<bar>, j := \<bar>surplus b + k\<bar>]"
    by (simp add: comp_def map_update)
  then have "imbalance s' n = imbalance s n + \<bar>surplus a - k\<bar> - \<bar>surplus a\<bar> + \<bar>surplus b + k\<bar> - \<bar>surplus b\<bar>"
    unfolding imbalance_def using i j ij by (simp add: sum_list_update2)
  then show ?thesis using k2 by linarith
qed

lemma imbalance_nonneg: "0 \<le> imbalance s n"
  unfolding imbalance_def by (intro sum_list_nonneg) auto

lemma sum_NumSlots_card:
  assumes "sound_primaries ps"
  shows "sum_list (map NumSlots ps) = int (card (\<Union>x. owner_in ps x))"
proof -
  have d: "distinct (map ID ps)" using assms by (simp add: sound_primaries_def)
  have inj: "inj_on ID (set ps)" and dps: "distinct ps" using d by (auto simp: distinct_map)
  have "(\<Union>x. owner_in ps x) = (\<Union>p \<in> set ps. slot_set (NodeSlots p))"
    using owner_in_mem [OF d] by (force simp: owner_in_def split: option.splits dest: find_SomeD)
  moreover have "card (\<Union>p \<in> set ps. slot_set (NodeSlots p)) = (\<Sum>p \<in> set ps. card (slot_set (NodeSlots p)))"
  proof (rule card_UN_disjoint)
    show "\<forall>p \<in> set ps. \<forall>q \<in> set ps. p \<noteq> q \<longrightarrow> slot_set (NodeSlots p) \<inter> slot_set (NodeSlots q) = {}"
    proof (intro ballI impI equals0I)
      fix p q z assume pq: "p \<in> set ps" "q \<in> set ps" "p \<noteq> q" and z: "z \<in> slot_set (NodeSlots p) \<inter> slot_set (NodeSlots q)"
      have "ID p = ID q"
        using assms z owner_in_mem [OF d pq(1)] owner_in_mem [OF d pq(2)]
        by (auto simp: sound_primaries_def disjoint_owners_def)
      then show False using inj pq by (auto simp: inj_on_def)
    qed
  qed (auto simp: slot_set_def)
  moreover have "sum_list (map NumSlots ps) = (\<Sum>p \<in> set ps. int (card (slot_set (NodeSlots p))))"
    using assms dps by (simp add: sum_list_distinct_conv_sum_set sound_primaries_def NumSlots_card cong: sum.cong)
  ultimately show ?thesis by simp
qed

lemma sum_surplus:
  assumes "int (length (effectiveShards s)) = n" "0 < n"
  shows "sum_list (map surplus (allocation s n)) = sum_list (map NumSlots (effectiveShards s)) - TotalSlots"
proof -
  have gen: "length ps = length ts \<Longrightarrow> sum_list (map surplus (zip ps ts)) = sum_list (map NumSlots ps) - sum_list ts" for ps ts
    by (induction ps ts rule: list_induct2) (auto simp: surplus_def)
  have "length (effectiveShards s) = length (targetSlotsPerShard n)" using assms by auto
  from gen [OF this] show ?thesis using assms by (simp add: allocation_def targetSlotsPerShard_sum)
qed

lemma imbalance_bound:
  assumes s: "sound_primaries (effectiveShards s)" and n: "int (length (effectiveShards s)) = n" "0 < n"
    and r: "(\<Union>x. owner_in (effectiveShards s) x) \<subseteq> {0..maxSlot}"
  shows "imbalance s n \<le> 2 * TotalSlots"
proof -
  have gen: "\<lbrakk>length ps = length ts; \<forall>p \<in> set ps. 0 \<le> NumSlots p; \<forall>t \<in> set ts. 0 \<le> t\<rbrakk> \<Longrightarrow>
      sum_list (map (\<lambda>a. \<bar>surplus a\<bar>) (zip ps ts)) \<le> sum_list (map NumSlots ps) + sum_list ts" for ps ts
    by (induction ps ts rule: list_induct2) (auto simp: surplus_def)
  have "\<forall>p \<in> set (effectiveShards s). 0 \<le> NumSlots p"
    using s by (auto simp: sound_primaries_def NumSlots_card)
  moreover have "length (effectiveShards s) = length (targetSlotsPerShard n)" using n by auto
  ultimately have "imbalance s n \<le> sum_list (map NumSlots (effectiveShards s)) + TotalSlots"
    using gen [of "effectiveShards s" "targetSlotsPerShard n"] n targets_nonneg
    by (simp add: imbalance_def allocation_def targetSlotsPerShard_sum)
  moreover have "card (\<Union>x. owner_in (effectiveShards s) x) \<le> card {0..maxSlot}"
    by (rule card_mono [OF _ r]) simp
  ultimately show ?thesis using sum_NumSlots_card [OF s] by (simp add: maxSlot_def TotalSlots_def)
qed

text \<open>A run of passes: whenever a pass plans a move, the next scrape sees it executed.\<close>

definition rebalance_run :: "int \<Rightarrow> (nat \<Rightarrow> ClusterState) \<Rightarrow> bool" where
  "rebalance_run n \<sigma> \<longleftrightarrow>
     (\<forall>k m. PlanRebalanceMove (\<sigma> k) n = Some m \<longrightarrow> executed m (effectiveShards (\<sigma> k)) (effectiveShards (\<sigma> (Suc k))))"

lemma rebalance_run_invariant:
  assumes "rebalance_run n \<sigma>" "sound_primaries (effectiveShards (\<sigma> 0))"
    "\<forall>j < k. PlanRebalanceMove (\<sigma> j) n \<noteq> None"
  shows "sound_primaries (effectiveShards (\<sigma> k)) \<and>
         (\<Union>x. owner_in (effectiveShards (\<sigma> k)) x) = (\<Union>x. owner_in (effectiveShards (\<sigma> 0)) x) \<and>
         imbalance (\<sigma> k) n + 4 * int k \<le> imbalance (\<sigma> 0) n"
  using assms(3)
proof (induction k)
  case 0
  then show ?case using assms(2) by simp
next
  case (Suc k)
  then have IH: "sound_primaries (effectiveShards (\<sigma> k))"
    "(\<Union>x. owner_in (effectiveShards (\<sigma> k)) x) = (\<Union>x. owner_in (effectiveShards (\<sigma> 0)) x)"
    "imbalance (\<sigma> k) n + 4 * int k \<le> imbalance (\<sigma> 0) n" by auto
  obtain m where m: "PlanRebalanceMove (\<sigma> k) n = Some m" using Suc.prems by fastforce
  then have e: "executed m (effectiveShards (\<sigma> k)) (effectiveShards (\<sigma> (Suc k)))"
    using assms(1) by (simp add: rebalance_run_def)
  show ?case
    using executed_sound [OF IH(1) m e] imbalance_decreases [OF IH(1) m e] IH(2,3) by simp
qed

lemma rebalance_run_stops:
  assumes "rebalance_run n \<sigma>" "sound_primaries (effectiveShards (\<sigma> 0))"
    "(\<Union>x. owner_in (effectiveShards (\<sigma> 0)) x) \<subseteq> {0..maxSlot}"
  shows "\<exists>k \<le> 8192. PlanRebalanceMove (\<sigma> k) n = None \<and> sound_primaries (effectiveShards (\<sigma> k)) \<and>
           (\<Union>x. owner_in (effectiveShards (\<sigma> k)) x) = (\<Union>x. owner_in (effectiveShards (\<sigma> 0)) x)"
proof (cases "0 < n \<and> int (length (effectiveShards (\<sigma> 0))) = n")
  case False
  then have "PlanRebalanceMove (\<sigma> 0) n = None" by (auto simp: PlanRebalanceMove_eq)
  then show ?thesis using assms(2) by (intro exI [of _ 0]) simp
next
  case True
  have "\<exists>k \<le> 8192. PlanRebalanceMove (\<sigma> k) n = None"
  proof (rule ccontr)
    assume "\<not> ?thesis"
    then have "\<forall>j < 8193. PlanRebalanceMove (\<sigma> j) n \<noteq> None" by auto
    then have "imbalance (\<sigma> 8193) n + 4 * 8193 \<le> imbalance (\<sigma> 0) n"
      using rebalance_run_invariant [OF assms(1,2), of 8193] by simp
    then show False
      using imbalance_nonneg [of "\<sigma> 8193" n] imbalance_bound [OF assms(2) _ _ assms(3)] True
      by (simp add: TotalSlots_def)
  qed
  then obtain k where k: "k \<le> 8192" "PlanRebalanceMove (\<sigma> k) n = None" by blast
  define k0 where "k0 = (LEAST k. PlanRebalanceMove (\<sigma> k) n = None)"
  have "PlanRebalanceMove (\<sigma> k0) n = None" "k0 \<le> k" "\<forall>j < k0. PlanRebalanceMove (\<sigma> j) n \<noteq> None"
    using k(2) by (auto simp: k0_def intro: LeastI Least_le dest: not_less_Least)
  then show ?thesis
    using rebalance_run_invariant [OF assms(1,2), of k0] k(1) by (intro exI [of _ k0]) simp
qed

lemma rebalance_move_indices:
  assumes "wf_primaries (effectiveShards s)" "PlanRebalanceMove s n = Some m"
  shows "\<exists>i j. i < length (effectiveShards s) \<and> j < length (effectiveShards s) \<and>
           SrcID m = ID (effectiveShards s ! i) \<and> DstID m = ID (effectiveShards s ! j) \<and>
           slot_set (Ranges m) \<subseteq> slot_set (NodeSlots (effectiveShards s ! i)) \<and>
           2 \<le> Move_NumSlots m \<and> Move_NumSlots m \<le> BatchSize \<and>
           targetSlotsPerShard n ! i \<le> NumSlots (effectiveShards s ! i) - Move_NumSlots m \<and>
           NumSlots (effectiveShards s ! j) + Move_NumSlots m \<le> targetSlotsPerShard n ! j"
proof -
  obtain a b k where ab: "a \<in> set (allocation s n)" "b \<in> set (allocation s n)" "1 < surplus a" "surplus b < - 1"
      and k: "k = min (min (surplus a) (- surplus b)) BatchSize"
      and m: "m = \<lparr> SrcID = ID (fst a), DstID = ID (fst b),
                 Ranges = SlotsToRanges (take (nat k) (slots_of (NodeSlots (fst a)))) \<rparr>"
    using PlanRebalanceMove_SomeD [OF assms(2)] by blast
  obtain i j where i: "i < length (allocation s n)" "allocation s n ! i = a"
      and j: "j < length (allocation s n)" "allocation s n ! j = b"
    using ab(1,2) by (auto simp: in_set_conv_nth)
  have pa: "fst a \<in> set (effectiveShards s)" "0 \<le> snd a" using allocation_mem [OF ab(1)] by auto
  then have v: "valid_ranges (NodeSlots (fst a))" using assms(1) by (simp add: wf_primaries_def)
  have kb: "2 \<le> k" "k \<le> surplus a" "k \<le> - surplus b" "k \<le> BatchSize" "k \<le> CountSlots (NodeSlots (fst a))"
    using ab(3,4) pa(2) by (auto simp: k BatchSize_def surplus_def NumSlots_def)
  have "nat k \<le> length (slots_of (NodeSlots (fst a)))" using kb(5) v by (simp add: CountSlots_length)
  then have num: "Move_NumSlots m = k" using kb(1) by (simp add: Move_NumSlots_def m slot_simps)
  have fa: "fst a = effectiveShards s ! i" "snd a = targetSlotsPerShard n ! i" "i < length (effectiveShards s)"
    and fb: "fst b = effectiveShards s ! j" "snd b = targetSlotsPerShard n ! j" "j < length (effectiveShards s)"
    using i j by (auto simp: allocation_def)
  have "slot_set (Ranges m) \<subseteq> slot_set (NodeSlots (fst a))"
    using moved_take(1) [OF v _ kb(5)] kb(1) by (simp add: m moved_def)
  then show ?thesis
    using fa fb kb num by (intro exI [of _ i] exI [of _ j]) (auto simp: m surplus_def)
qed

lemma residual_all:
  fixes xs :: "int list"
  assumes "sum_list xs = 0" "x \<in> set xs" "(\<forall>y \<in> set xs. y \<le> 1) \<or> (\<forall>y \<in> set xs. - 1 \<le> y)"
  shows "\<bar>x\<bar> \<le> max 1 (int (length xs) - 1)"
proof -
  have up: "sum_list ys \<le> int (length ys)" if "\<forall>y \<in> set ys. y \<le> 1" for ys :: "int list"
    using that by (induction ys) auto
  have lo: "- int (length ys) \<le> sum_list ys" if "\<forall>y \<in> set ys. - 1 \<le> y" for ys :: "int list"
    using that by (induction ys) auto
  have rest: "sum_list (remove1 x xs) = - x" "int (length (remove1 x xs)) = int (length xs) - 1"
    using assms(1) sum_list_map_remove1 [OF assms(2), of "\<lambda>x. x"] length_pos_if_in_set [OF assms(2)] assms(2)
    by (auto simp: length_remove1 of_nat_diff Suc_le_eq)
  have sub: "set (remove1 x xs) \<subseteq> set xs" by (rule set_remove1_subset)
  from assms(3) show ?thesis
  proof
    assume a: "\<forall>y \<in> set xs. y \<le> 1"
    then have "sum_list (remove1 x xs) \<le> int (length (remove1 x xs))" using sub by (intro up) auto
    then show ?thesis using a assms(2) rest by auto
  next
    assume a: "\<forall>y \<in> set xs. - 1 \<le> y"
    then have "- int (length (remove1 x xs)) \<le> sum_list (remove1 x xs)" using sub by (intro lo) auto
    then show ?thesis using a assms(2) rest by auto
  qed
qed

lemma PlanRebalanceMove_NoneD:
  assumes "PlanRebalanceMove s n = None" "int (length (effectiveShards s)) = n" "0 < n"
    "sum_list (map NumSlots (effectiveShards s)) = TotalSlots" "i < length (effectiveShards s)"
  shows "\<bar>NumSlots (effectiveShards s ! i) - targetSlotsPerShard n ! i\<bar> \<le> max 1 (n - 1)"
proof -
  let ?xs = "map surplus (allocation s n)"
  have "sum_list ?xs = 0" using sum_surplus [OF assms(2,3)] assms(4) by simp
  moreover have "(\<forall>y \<in> set ?xs. y \<le> 1) \<or> (\<forall>y \<in> set ?xs. - 1 \<le> y)"
    using assms(1-3) by (auto simp: PlanRebalanceMove_eq find_None_iff not_less split: option.splits)
  moreover have i: "i < length (allocation s n)" using assms(2,5) by (auto simp: allocation_def)
  then have "?xs ! i \<in> set ?xs" by (metis length_map nth_mem)
  ultimately have "\<bar>?xs ! i\<bar> \<le> max 1 (int (length ?xs) - 1)" using residual_all by blast
  moreover have "int (length ?xs) = n" using assms(2) by (simp add: allocation_def)
  moreover have "?xs ! i = NumSlots (effectiveShards s ! i) - targetSlotsPerShard n ! i"
    using i assms(2,5) by (simp add: surplus_def allocation_def)
  ultimately show ?thesis by simp
qed

lemma PlanDrainMove_None_iff:
  assumes "0 < batch"
  shows "PlanDrainMove (Some src) remaining batch = None \<longleftrightarrow>
           NumSlots src = 0 \<or> \<not> (\<exists>c \<in> set remaining. ID c \<noteq> ID src \<and> IsPrimary c)"
  using assms by (auto simp: PlanDrainMove_def Let_def find_None_iff split: option.splits dest!: find_SomeD)

subsection \<open>Properties\<close>

text \<open>C20: A planned rebalance move is safe: for any scrape with one node per id, the move takes
  between 2 and 400 slots that its source, an effective primary, owns, to a different effective
  primary, and it overshoots neither target: the source keeps at least its target and the
  destination gets at most its own.\<close>

theorem rebalance_move_safe:
  assumes "wf_nodes (List.map_filter (\<lambda>n. n) nodes)"
    "PlanRebalanceMove (NewClusterState nodes) shards = Some m"
  shows "SrcID m \<noteq> DstID m \<and>
         (\<exists>i j. i < length (effectiveShards (NewClusterState nodes)) \<and>
           j < length (effectiveShards (NewClusterState nodes)) \<and>
           SrcID m = ID (effectiveShards (NewClusterState nodes) ! i) \<and>
           DstID m = ID (effectiveShards (NewClusterState nodes) ! j) \<and>
           slot_set (Ranges m) \<subseteq> slot_set (NodeSlots (effectiveShards (NewClusterState nodes) ! i)) \<and>
           2 \<le> Move_NumSlots m \<and> Move_NumSlots m \<le> 400 \<and>
           targetSlotsPerShard shards ! i \<le> NumSlots (effectiveShards (NewClusterState nodes) ! i) - Move_NumSlots m \<and>
           NumSlots (effectiveShards (NewClusterState nodes) ! j) + Move_NumSlots m \<le> targetSlotsPerShard shards ! j)"
  using rebalance_contract(2) [OF wf_primaries_effectiveShards [OF assms(1)] assms(2)]
    rebalance_move_indices [OF wf_primaries_effectiveShards [OF assms(1)] assms(2)]
  by (simp add: BatchSize_def)

text \<open>Two primaries for the witnesses; with the first pair of ranges \<open>a\<close> is two slots above its
  target and \<open>b\<close> two below.\<close>

definition two_primaries :: "SlotRange list \<Rightarrow> SlotRange list \<Rightarrow> NodeState option list" where
  "two_primaries ra rb =
     [Some (sample_node ''b'' ''s1'' RolePrimary '''' rb []), Some (sample_node ''a'' ''s0'' RolePrimary '''' ra [])]"

definition uneven :: "NodeState option list" where
  "uneven = two_primaries [SlotRange 0 8193] [SlotRange 8194 16383]"

definition even :: "NodeState option list" where
  "even = two_primaries [SlotRange 2 8193] [SlotRange 0 1, SlotRange 8194 16383]"

lemma wf_uneven: "wf_nodes (List.map_filter (\<lambda>n. n) uneven)"
  by (simp add: uneven_def two_primaries_def map_filter_def wf_nodes_def sample_node_def slot_bounds_def)

lemma plan_uneven:
  "PlanRebalanceMove (NewClusterState uneven) 2 = Some \<lparr> SrcID = ''a'', DstID = ''b'', Ranges = [SlotRange 0 1] \<rparr>"
  by code_simp

lemma plan_even: "PlanRebalanceMove (NewClusterState even) 2 = None"
  by code_simp

lemma shards_uneven:
  "effectiveShards (NewClusterState uneven) =
     [sample_node ''a'' ''s0'' RolePrimary '''' [SlotRange 0 8193] [],
      sample_node ''b'' ''s1'' RolePrimary '''' [SlotRange 8194 16383] []]"
  by code_simp

lemma shards_even:
  "effectiveShards (NewClusterState even) =
     [sample_node ''a'' ''s0'' RolePrimary '''' [SlotRange 2 8193] [],
      sample_node ''b'' ''s1'' RolePrimary '''' [SlotRange 0 1, SlotRange 8194 16383] []]"
  by code_simp

theorem rebalance_move_safe_witness:
  "\<exists>m. PlanRebalanceMove (NewClusterState uneven) 2 = Some m \<and> SrcID m \<noteq> DstID m"
  using rebalance_move_safe [OF wf_uneven plan_uneven] plan_uneven by blast

text \<open>C21: Rebalancing ends and loses no slot: in any run of passes in which every planned move is
  executed as the engine documents it, from primaries with disjoint ranges, at most 8192 passes plan
  a move; at the end the same slots are owned, still by one primary each.\<close>

theorem rebalance_terminates:
  assumes "rebalance_run n \<sigma>" "sound_primaries (effectiveShards (\<sigma> 0))"
    "\<forall>p \<in> set (effectiveShards (\<sigma> 0)). slot_set (NodeSlots p) \<subseteq> {0..16383}"
  shows "\<exists>k \<le> 8192. PlanRebalanceMove (\<sigma> k) n = None \<and>
           disjoint_owners (owner_in (effectiveShards (\<sigma> k))) \<and>
           (\<Union>x. owner_in (effectiveShards (\<sigma> k)) x) = (\<Union>x. owner_in (effectiveShards (\<sigma> 0)) x)"
proof -
  have "(\<Union>x. owner_in (effectiveShards (\<sigma> 0)) x) \<subseteq> {0..maxSlot}"
    using assms(3) unfolding owner_in_def maxSlot_def TotalSlots_def
    by (fastforce split: option.splits dest!: find_SomeD)
  from rebalance_run_stops [OF assms(1,2) this] show ?thesis by (auto simp: sound_primaries_def)
qed

lemma sound_two:
  assumes "ascending ra" "ascending rb" "slot_set ra \<inter> slot_set rb = {}"
  shows "sound_primaries [sample_node ''a'' ''s0'' RolePrimary '''' ra [], sample_node ''b'' ''s1'' RolePrimary '''' rb []]"
proof -
  have "disjoint_owners (owner_in [sample_node ''a'' ''s0'' RolePrimary '''' ra [], sample_node ''b'' ''s1'' RolePrimary '''' rb []])"
    unfolding disjoint_owners_def owner_in_def using assms(3) by (auto simp: sample_node_def)
  then show ?thesis using assms(1,2) by (simp add: sound_primaries_def sample_node_def)
qed

theorem rebalance_terminates_witness:
  "let \<sigma> = (\<lambda>k. NewClusterState (if k = 0 then uneven else even))
   in rebalance_run 2 \<sigma> \<and> PlanRebalanceMove (\<sigma> 0) 2 \<noteq> None \<and> (\<exists>k \<le> 8192. PlanRebalanceMove (\<sigma> k) 2 = None)"
proof -
  define \<sigma> :: "nat \<Rightarrow> ClusterState" where "\<sigma> k = NewClusterState (if k = 0 then uneven else even)" for k
  have "executed \<lparr> SrcID = ''a'', DstID = ''b'', Ranges = [SlotRange 0 1] \<rparr>
          (effectiveShards (NewClusterState uneven)) (effectiveShards (NewClusterState even))"
    unfolding shards_uneven shards_even executed_def transfer_def owner_in_def moved_def
    by (auto simp: sample_node_def ascending_def)
  then have run: "rebalance_run 2 \<sigma>"
    unfolding rebalance_run_def \<sigma>_def by (auto simp: plan_uneven plan_even)
  have "sound_primaries (effectiveShards (\<sigma> 0))"
    unfolding \<sigma>_def using sound_two [of "[SlotRange 0 8193]" "[SlotRange 8194 16383]"]
    by (simp add: shards_uneven ascending_def)
  moreover have "\<forall>p \<in> set (effectiveShards (\<sigma> 0)). slot_set (NodeSlots p) \<subseteq> {0..16383}"
    unfolding \<sigma>_def by (auto simp: shards_uneven sample_node_def)
  ultimately have "\<exists>k \<le> 8192. PlanRebalanceMove (\<sigma> k) 2 = None"
    using rebalance_terminates [OF run] by blast
  moreover have "PlanRebalanceMove (\<sigma> 0) 2 \<noteq> None" by (simp add: \<sigma>_def plan_uneven)
  ultimately show ?thesis using run unfolding Let_def \<sigma>_def by blast
qed

text \<open>C27: How far from even the planner may stop: with all slots owned and the wanted number of
  primaries, when no move is planned every primary is within \<open>max 1 (n - 1)\<close> slots of its target.\<close>

theorem rebalance_residual:
  assumes "PlanRebalanceMove s n = None" "int (length (effectiveShards s)) = n" "0 < n"
    "sum_list (map NumSlots (effectiveShards s)) = TotalSlots" "i < length (effectiveShards s)"
  shows "\<bar>NumSlots (effectiveShards s ! i) - targetSlotsPerShard n ! i\<bar> \<le> max 1 (n - 1)"
  by (rule PlanRebalanceMove_NoneD [OF assms])

theorem rebalance_residual_witness:
  "\<bar>NumSlots (effectiveShards (NewClusterState even) ! 1) - targetSlotsPerShard 2 ! 1\<bar> \<le> 1"
proof -
  have "PlanRebalanceMove (NewClusterState even) 2 = None" by (rule plan_even)
  moreover have "int (length (effectiveShards (NewClusterState even))) = 2" by (simp add: shards_even)
  moreover have "sum_list (map NumSlots (effectiveShards (NewClusterState even))) = TotalSlots"
    by (simp add: shards_even sample_node_def NumSlots_def Count_def TotalSlots_def)
  moreover have "1 < length (effectiveShards (NewClusterState even))" by (simp add: shards_even)
  ultimately show ?thesis
    using rebalance_residual [of "NewClusterState even" 2 1] by simp
qed

text \<open>The bound is reached: three primaries with all slots, one two slots under its target, for
  which no move is planned.\<close>

lemma rebalance_two_under:
  "let s = NewClusterState
       [Some (sample_node ''a'' ''s0'' RolePrimary '''' [SlotRange 0 5462] []),
        Some (sample_node ''b'' ''s1'' RolePrimary '''' [SlotRange 5463 10924] []),
        Some (sample_node ''c'' ''s2'' RolePrimary '''' [SlotRange 10925 16383] [])]
   in PlanRebalanceMove s 3 = None \<and> GetUnassignedSlots s = [] \<and>
      map NumSlots (effectiveShards s) = [5463, 5462, 5459] \<and> targetSlotsPerShard 3 = [5462, 5461, 5461]"
  by code_simp

text \<open>C26: Draining is safe and makes progress: a drain batch takes at least one and at most \<open>batch\<close>
  slots, all owned by the draining primary, to another primary among the survivors; a batch is
  planned exactly as long as the draining primary owns slots and such a survivor exists.\<close>

theorem drain_move_safe:
  assumes "valid_ranges (NodeSlots src)" "0 < batch"
  shows "(case PlanDrainMove (Some src) remaining batch of
            None \<Rightarrow> NumSlots src = 0 \<or> \<not> (\<exists>c \<in> set remaining. ID c \<noteq> ID src \<and> IsPrimary c)
          | Some m \<Rightarrow> NumSlots src \<noteq> 0 \<and> SrcID m = ID src \<and> DstID m \<noteq> ID src \<and>
              (\<exists>dst \<in> set remaining. ID dst = DstID m \<and> IsPrimary dst) \<and>
              slot_set (Ranges m) \<subseteq> slot_set (NodeSlots src) \<and> slot_set (Ranges m) \<noteq> {} \<and>
              int (card (slot_set (Ranges m))) \<le> batch)"
proof (cases "PlanDrainMove (Some src) remaining batch")
  case None
  then have "NumSlots src = 0 \<or> \<not> (\<exists>c \<in> set remaining. ID c \<noteq> ID src \<and> IsPrimary c)"
    using PlanDrainMove_None_iff [OF assms(2)] by blast
  then show ?thesis by (simp only: None option.case)
next
  case (Some m)
  moreover have "NumSlots src \<noteq> 0" using PlanDrainMove_None_iff [OF assms(2), of src remaining] Some by auto
  ultimately show ?thesis using drain_contract [OF assms(1) Some] by (auto simp: moved_def)
qed

theorem drain_move_safe_witness:
  "let src = sample_node ''a'' ''s0'' RolePrimary '''' [SlotRange 0 900] [];
       dst = sample_node ''b'' ''s1'' RolePrimary '''' [] []
   in valid_ranges (NodeSlots src) \<and>
      (\<exists>m. PlanDrainMove (Some src) [dst] 400 = Some m \<and> DstID m = ''b'' \<and> slot_set (Ranges m) \<noteq> {})"
proof -
  define src where "src = sample_node ''a'' ''s0'' RolePrimary '''' [SlotRange 0 900] []"
  define dst where "dst = sample_node ''b'' ''s1'' RolePrimary '''' [] []"
  have v: "valid_ranges (NodeSlots src)" by (simp add: src_def sample_node_def)
  have "NumSlots src \<noteq> 0" "ID src = ''a''" "ID dst = ''b''" "IsPrimary dst"
    by (simp_all add: src_def dst_def sample_node_def NumSlots_def Count_def IsPrimary_def)
  with drain_move_safe [OF v, of 400 "[dst]"]
  have "\<exists>m. PlanDrainMove (Some src) [dst] 400 = Some m \<and> DstID m = ''b'' \<and> slot_set (Ranges m) \<noteq> {}"
    by (auto split: option.splits)
  with v show ?thesis by (simp add: Let_def src_def dst_def)
qed

end
