(* ===== verification/Version.thy ===== *)
theory Version
  imports Go_Strings
begin

text \<open>
  Operator versions and the compatibility window of \<^verbatim>\<open>spec.crVersion\<close>,
  \<^verbatim>\<open>src/pkg/version/version.go\<close>.  The version text the binary embeds is the parameter \<open>raw\<close>, the
  build-time override the parameter \<open>gitVersion\<close>.

  Components are 64-bit integers; their difference wraps around, so the comparison is shown to be a
  total order for components that are not negative.
\<close>

definition wrap64 :: "int \<Rightarrow> int" where
  "wrap64 x = (x + 2 ^ 63) mod 2 ^ 64 - 2 ^ 63"

definition sign :: "int \<Rightarrow> int" where
  "sign n = (if n < 0 then -1 else if 0 < n then 1 else 0)"

definition majorMinor :: "string \<Rightarrow> int \<times> int" where
  "majorMinor v =
     (let parts = SplitN (TrimSpace v) (CHR ''.'') 3
      in ((if 0 < length parts then fst (Atoi (parts ! 0)) else 0),
          (if 1 < length parts then fst (Atoi (parts ! 1)) else 0)))"

text \<open>\<^verbatim>\<open>gitVersion\<close> and the embedded \<^verbatim>\<open>version.txt\<close>.\<close>

definition Version :: "string \<Rightarrow> string \<Rightarrow> string" where
  "Version gitVersion raw = (if TrimSpace gitVersion \<noteq> '''' then TrimSpace gitVersion else TrimSpace raw)"

definition CompareMajorMinor :: "string \<Rightarrow> string \<Rightarrow> int" where
  "CompareMajorMinor a b =
     (case majorMinor a of (aMaj, aMin) \<Rightarrow> case majorMinor b of (bMaj, bMin) \<Rightarrow>
        if aMaj \<noteq> bMaj then sign (wrap64 (aMaj - bMaj))
        else if aMin \<noteq> bMin then sign (wrap64 (aMin - bMin)) else 0)"

definition CompareVersion :: "string \<Rightarrow> string \<Rightarrow> string \<Rightarrow> int" where
  "CompareVersion gitVersion raw target =
     (case majorMinor (Version gitVersion raw) of (aMaj, aMin) \<Rightarrow> case majorMinor target of (bMaj, bMin) \<Rightarrow>
        if aMaj \<noteq> bMaj then sign (wrap64 (aMaj - bMaj))
        else if aMin \<noteq> bMin then sign (wrap64 (aMin - bMin)) else 0)"

definition showMajorMinor :: "int \<Rightarrow> int \<Rightarrow> string" where
  "showMajorMinor maj mnr = Itoa maj @ ''.'' @ Itoa mnr"

definition MajorMinor :: "string \<Rightarrow> string \<Rightarrow> string" where
  "MajorMinor gitVersion raw =
     (case majorMinor (Version gitVersion raw) of (maj, mnr) \<Rightarrow> showMajorMinor maj mnr)"

definition Major :: "string \<Rightarrow> string \<Rightarrow> int" where
  "Major gitVersion raw = fst (majorMinor (Version gitVersion raw))"

definition Minor :: "string \<Rightarrow> string \<Rightarrow> int" where
  "Minor gitVersion raw = snd (majorMinor (Version gitVersion raw))"

definition Patch :: "string \<Rightarrow> string \<Rightarrow> int" where
  "Patch gitVersion raw =
     (let parts = SplitN (TrimSpace (Version gitVersion raw)) (CHR ''.'') 3
      in if length parts < 3 then 0 else fst (Atoi (parts ! 2)))"

definition lastMinorOfPriorMajor :: int where "lastMinorOfPriorMajor = 2"

definition AcceptedCrVersions :: "string \<Rightarrow> string list" where
  "AcceptedCrVersions opMajorMinor =
     (case majorMinor opMajorMinor of (maj, mnr) \<Rightarrow>
        let own = showMajorMinor maj mnr in
        if 0 < mnr then [showMajorMinor maj (mnr - 1), own]
        else if 1 < maj then [showMajorMinor (maj - 1) lastMinorOfPriorMajor, own]
        else [own])"

subsection \<open>Lemmas\<close>

lemma wrap64_id: "- (2 ^ 63) \<le> x \<Longrightarrow> x < 2 ^ 63 \<Longrightarrow> wrap64 x = x"
  by (simp add: wrap64_def)

lemma sign_diff_nonneg:
  "\<lbrakk>0 \<le> a; a < 2 ^ 63; 0 \<le> b; b < 2 ^ 63\<rbrakk> \<Longrightarrow> sign (wrap64 (a - b)) = (if a < b then -1 else if b < a then 1 else 0)"
  by (simp add: wrap64_id sign_def)

lemma Atoi_range: "- (2 ^ 63) \<le> fst (Atoi s) \<and> fst (Atoi s) < 2 ^ 63"
  by (auto simp: Atoi_def ParseInt_def Let_def split: list.split sum.split num_error.split)

definition plain_version :: "string \<Rightarrow> bool" where
  "plain_version v \<longleftrightarrow> 0 \<le> fst (majorMinor v) \<and> 0 \<le> snd (majorMinor v)"

lemma majorMinor_range: "fst (majorMinor v) < 2 ^ 63 \<and> snd (majorMinor v) < 2 ^ 63"
  using Atoi_range by (simp add: majorMinor_def Let_def)

lemma CompareMajorMinor_lex:
  assumes "plain_version a" "plain_version b"
  shows "CompareMajorMinor a b =
    (if majorMinor a = majorMinor b then 0
     else if fst (majorMinor a) < fst (majorMinor b) \<or>
             fst (majorMinor a) = fst (majorMinor b) \<and> snd (majorMinor a) < snd (majorMinor b) then -1 else 1)"
  using assms majorMinor_range [of a] majorMinor_range [of b]
  by (cases "majorMinor a"; cases "majorMinor b")
    (auto simp: CompareMajorMinor_def plain_version_def sign_diff_nonneg)

lemma CompareMajorMinor_le:
  assumes "plain_version a" "plain_version b"
  shows "CompareMajorMinor a b \<le> 0 \<longleftrightarrow>
    fst (majorMinor a) < fst (majorMinor b) \<or>
    fst (majorMinor a) = fst (majorMinor b) \<and> snd (majorMinor a) \<le> snd (majorMinor b)"
  unfolding CompareMajorMinor_lex [OF assms] by (auto simp: prod_eq_iff)

lemma majorMinor_show:
  assumes "0 \<le> maj" "maj < 2 ^ 63" "0 \<le> mnr" "mnr < 2 ^ 63"
  shows "majorMinor (showMajorMinor maj mnr) = (maj, mnr)"
proof -
  have dig: "c \<in> set (Itoa n) \<Longrightarrow> is_digit c" if "0 \<le> n" for n c using Itoa_digits [OF that] .
  have nd: "CHR ''.'' \<notin> set (Itoa maj)" "CHR ''.'' \<notin> set (Itoa mnr)"
    using dig [of maj "CHR ''.''"] dig [of mnr "CHR ''.''"] assms by auto
  have "\<not> isSpace c" if "c \<in> set (Itoa maj @ CHR ''.'' # Itoa mnr)" for c
    using that dig [of maj c] dig [of mnr c] assms digit_not_space by (auto simp: isSpace_def)
  then have "TrimSpace (Itoa maj @ CHR ''.'' # Itoa mnr) = Itoa maj @ CHR ''.'' # Itoa mnr"
    unfolding TrimSpace_def by (intro TrimP_none) blast
  then show ?thesis
    using nd assms
    by (simp add: majorMinor_def showMajorMinor_def Cut_sep Cut_none Atoi_Itoa int64_def numeral_3_eq_3 Let_def)
qed

subsection \<open>Properties\<close>

text \<open>The comparison of versions is a total order on major.minor: for versions without negative
  components it is antisymmetric and transitive, and it is 0 exactly when major and minor agree
  (the patch is ignored).\<close>

theorem CompareMajorMinor_order:
  assumes "plain_version a" "plain_version b" "plain_version c"
  shows "CompareMajorMinor a b = - CompareMajorMinor b a \<and>
         (CompareMajorMinor a b = 0 \<longleftrightarrow> majorMinor a = majorMinor b) \<and>
         (CompareMajorMinor a b \<le> 0 \<and> CompareMajorMinor b c \<le> 0 \<longrightarrow> CompareMajorMinor a c \<le> 0)"
proof (intro conjI impI)
  show "CompareMajorMinor a b = - CompareMajorMinor b a"
    using assms by (auto simp: CompareMajorMinor_lex prod_eq_iff)
  show "CompareMajorMinor a b = 0 \<longleftrightarrow> majorMinor a = majorMinor b"
    using assms by (simp add: CompareMajorMinor_lex)
  assume "CompareMajorMinor a b \<le> 0 \<and> CompareMajorMinor b c \<le> 0"
  then show "CompareMajorMinor a c \<le> 0"
    unfolding CompareMajorMinor_le [OF assms(1,2)] CompareMajorMinor_le [OF assms(2,3)]
      CompareMajorMinor_le [OF assms(1,3)] by linarith
qed

theorem CompareMajorMinor_order_witness:
  "CompareMajorMinor ''0.9.4'' ''1.0'' \<le> 0 \<and> CompareMajorMinor ''1.0'' ''1.10.1'' \<le> 0 \<and>
   CompareMajorMinor ''0.9.4'' ''1.10.1'' \<le> 0"
proof -
  have "plain_version ''0.9.4''" "plain_version ''1.0''" "plain_version ''1.10.1''"
    by (simp_all add: plain_version_def majorMinor_def go_eval)
  moreover have "CompareMajorMinor ''0.9.4'' ''1.0'' \<le> 0" "CompareMajorMinor ''1.0'' ''1.10.1'' \<le> 0"
    by (simp_all add: CompareMajorMinor_def majorMinor_def go_eval sign_def wrap64_def)
  ultimately show ?thesis using CompareMajorMinor_order [of "''0.9.4''" "''1.0''" "''1.10.1''"] by blast
qed

text \<open>The compatibility window: an operator accepts its own major.minor, never a newer one, and
  at most one older one, in ascending order; its own minor is always in the window.\<close>

theorem AcceptedCrVersions_window:
  assumes "plain_version op"
  shows "showMajorMinor (fst (majorMinor op)) (snd (majorMinor op)) \<in> set (AcceptedCrVersions op) \<and>
         length (AcceptedCrVersions op) \<le> 2 \<and>
         (\<forall>v \<in> set (AcceptedCrVersions op). CompareMajorMinor v op \<le> 0) \<and>
         sorted_wrt (\<lambda>v w. CompareMajorMinor v w = -1) (AcceptedCrVersions op)"
proof -
  obtain maj mnr where v: "majorMinor op = (maj, mnr)" by (cases "majorMinor op")
  have r: "0 \<le> maj" "maj < 2 ^ 63" "0 \<le> mnr" "mnr < 2 ^ 63"
    using assms majorMinor_range [of op] v by (auto simp: plain_version_def)
  have own: "majorMinor (showMajorMinor maj mnr) = (maj, mnr)" using majorMinor_show r by simp
  then have po: "plain_version (showMajorMinor maj mnr)" using r by (simp add: plain_version_def)
  have pre: "majorMinor (showMajorMinor a b) = (a, b) \<and> plain_version (showMajorMinor a b)"
    if "0 \<le> a" "a < 2 ^ 63" "0 \<le> b" "b < 2 ^ 63" for a b
    using majorMinor_show [OF that] that by (simp add: plain_version_def)
  show ?thesis
  proof (cases "0 < mnr")
    case True
    then show ?thesis
      using pre [of maj "mnr - 1"] r own po assms
      by (simp add: AcceptedCrVersions_def v CompareMajorMinor_lex)
  next
    case False
    then show ?thesis
      using pre [of "maj - 1" 2] r own po assms
      by (simp add: AcceptedCrVersions_def v CompareMajorMinor_lex lastMinorOfPriorMajor_def Let_def)
  qed
qed

theorem AcceptedCrVersions_window_witness:
  "plain_version ''2.0'' \<and> AcceptedCrVersions ''2.0'' = [''1.2'', ''2.0''] \<and>
   CompareMajorMinor ''1.2'' ''2.0'' \<le> 0"
proof -
  have p: "plain_version ''2.0''" by (simp add: plain_version_def majorMinor_def go_eval)
  have a: "AcceptedCrVersions ''2.0'' = [''1.2'', ''2.0'']"
    by (simp add: AcceptedCrVersions_def majorMinor_def showMajorMinor_def lastMinorOfPriorMajor_def go_eval)
  have "\<forall>v \<in> set (AcceptedCrVersions ''2.0''). CompareMajorMinor v ''2.0'' \<le> 0"
    using AcceptedCrVersions_window [OF p] by blast
  with a p show ?thesis by simp
qed

end
