(* ===== verification/Object_Keys.thy ===== *)
theory Object_Keys
  imports Go_Strings
begin

text \<open>
  Object keys of a backup set and backend-prefixed destinations, \<^verbatim>\<open>src/pkg/backup/keys.go\<close> and
  \<^verbatim>\<open>src/pkg/backup/destination.go\<close>, with the functions of
  \<^verbatim>\<open>src/pkg/controller/perconavalkeyrestore\<close> that read the identity of a backup back from its
  destination.  \<open>Clean\<close> and \<open>path_Join\<close> are those of Go's \<^verbatim>\<open>path\<close> package.

  What the backup controller records in \<^verbatim>\<open>status.destination\<close> is shown to be read back exactly, down to
  the cluster and backup names a restore derives from it.
\<close>

subsection \<open>Path cleaning\<close>

definition slash :: char where "slash = CHR ''/''"

fun Clean_segs :: "bool \<Rightarrow> string list \<Rightarrow> string list \<Rightarrow> string list" where
  "Clean_segs rooted acc [] = acc"
| "Clean_segs rooted acc (s # ss) =
     (if s = '''' \<or> s = ''.'' then Clean_segs rooted acc ss
      else if s = ''..'' then
        (if acc \<noteq> [] \<and> last acc \<noteq> ''..'' then Clean_segs rooted (butlast acc) ss
         else if rooted then Clean_segs rooted acc ss
         else Clean_segs rooted (acc @ [s]) ss)
      else Clean_segs rooted (acc @ [s]) ss)"

definition Clean :: "string \<Rightarrow> string" where
  "Clean p =
     (if p = '''' then ''.''
      else let rooted = (hd p = slash);
               s = Join (Clean_segs rooted [] (Split p slash)) ''/''
           in if rooted then slash # s else if s = '''' then ''.'' else s)"

definition path_Join :: "string list \<Rightarrow> string" where
  "path_Join elems =
     (let es = filter (\<lambda>e. e \<noteq> '''') elems in if es = [] then '''' else Clean (Join es ''/''))"

subsection \<open>Keys\<close>

definition shardName :: "int \<Rightarrow> string" where
  "shardName shardIndex = ''shard-'' @ Itoa shardIndex"

definition SetPrefix :: "string \<Rightarrow> string \<Rightarrow> string" where
  "SetPrefix cluster backup = path_Join [cluster, backup]"

definition ManifestKey :: "string \<Rightarrow> string \<Rightarrow> string" where
  "ManifestKey cluster backup = path_Join [SetPrefix cluster backup, ''manifest.json'']"

definition ShardPrefix :: "string \<Rightarrow> string \<Rightarrow> int \<Rightarrow> string" where
  "ShardPrefix cluster backup shardIndex = path_Join [SetPrefix cluster backup, shardName shardIndex]"

definition ShardRDBKey :: "string \<Rightarrow> string \<Rightarrow> int \<Rightarrow> string" where
  "ShardRDBKey cluster backup shardIndex = path_Join [ShardPrefix cluster backup shardIndex, ''dump.rdb'']"

definition ShardRDBRelKey :: "int \<Rightarrow> string" where
  "ShardRDBRelKey shardIndex = path_Join [shardName shardIndex, ''dump.rdb'']"

definition joinKey :: "string list \<Rightarrow> string" where
  "joinKey segments = Join (filter (\<lambda>s. s \<noteq> '''') (map (\<lambda>s. Trim s slash) segments)) ''/''"

subsection \<open>Destinations\<close>

record Destination =
  Scheme :: string
  Bucket :: string
  Path :: string

definition SchemeS3 :: string where "SchemeS3 = ''s3://''"
definition SchemeGCS :: string where "SchemeGCS = ''gs://''"
definition SchemeAzure :: string where "SchemeAzure = ''azure://''"
definition SchemePVC :: string where "SchemePVC = ''pvc/''"

definition Destination_String :: "Destination \<Rightarrow> string" where
  "Destination_String d =
     (if Scheme d = SchemePVC then SchemePVC @ Path d
      else if Path d = '''' then Scheme d @ Bucket d
      else Scheme d @ Bucket d @ ''/'' @ Path d)"

datatype dest_error = UnrecognisedDestination string | NoBucket string | EmptyBucket string

definition parseBucketDest :: "string \<Rightarrow> string \<Rightarrow> (dest_error, Destination) result" where
  "parseBucketDest scheme dest =
     (let rest = Trim (TrimPrefix dest scheme) slash in
      if rest = '''' then Inl (NoBucket dest)
      else case Cut rest slash of (bucket, path, _) \<Rightarrow>
             if bucket = '''' then Inl (EmptyBucket dest)
             else Inr \<lparr> Scheme = scheme, Bucket = bucket, Path = Trim path slash \<rparr>)"

definition ParseDestination :: "string \<Rightarrow> (dest_error, Destination) result" where
  "ParseDestination dest =
     (if HasPrefix dest SchemeS3 then parseBucketDest SchemeS3 dest
      else if HasPrefix dest SchemeGCS then parseBucketDest SchemeGCS dest
      else if HasPrefix dest SchemeAzure then parseBucketDest SchemeAzure dest
      else if HasPrefix dest SchemePVC
      then Inr \<lparr> Scheme = SchemePVC, Bucket = '''', Path = Trim (TrimPrefix dest SchemePVC) slash \<rparr>
      else Inl (UnrecognisedDestination dest))"

definition FormatDestination :: "string \<Rightarrow> string \<Rightarrow> string \<Rightarrow> string \<Rightarrow> string \<Rightarrow> string" where
  "FormatDestination scheme bucketOrContainer prefix cluster backup =
     (let setPath = joinKey [prefix, SetPrefix cluster backup]
      in Destination_String
           (if scheme = SchemePVC
            then \<lparr> Scheme = scheme, Bucket = '''', Path = joinKey [bucketOrContainer, setPath] \<rparr>
            else \<lparr> Scheme = scheme, Bucket = bucketOrContainer, Path = setPath \<rparr>))"

subsection \<open>Reading the identity of a backup\<close>

definition lastTwoPathComponents :: "string \<Rightarrow> (string \<times> string) option" where
  "lastTwoPathComponents p =
     (let parts = filter (\<lambda>s. s \<noteq> '''') (map TrimSpace (Split p slash)) in
      if length parts < 2 then None
      else Some (parts ! (length parts - 2), parts ! (length parts - 1)))"

datatype identity_error = BadDestination dest_error | NoSetSuffix string

definition destinationIdentity :: "string \<Rightarrow> (identity_error, string \<times> string) result" where
  "destinationIdentity destination =
     (case ParseDestination destination of
        Inl e \<Rightarrow> Inl (BadDestination e)
      | Inr dest \<Rightarrow>
          (case lastTwoPathComponents (Path dest) of
             None \<Rightarrow> Inl (NoSetSuffix destination)
           | Some cb \<Rightarrow> Inr cb))"

subsection \<open>Lemmas\<close>

text \<open>A name: one path segment, without white space, not a dot segment.\<close>

definition segment :: "string \<Rightarrow> bool" where
  "segment s \<longleftrightarrow> token s \<and> slash \<notin> set s \<and> s \<noteq> ''.'' \<and> s \<noteq> ''..''"

lemma segment_not_Nil: "segment s \<Longrightarrow> s \<noteq> []"
  by (simp add: segment_def token_def)

lemma Clean_segs_id: "list_all segment ss \<Longrightarrow> Clean_segs rooted acc ss = acc @ ss"
proof (induction ss arbitrary: acc)
  case (Cons s ss)
  then have "s \<noteq> ''''" "s \<noteq> ''.''" "s \<noteq> ''..''" by (auto simp: segment_def token_def)
  with Cons show ?case by simp
qed simp

lemma Split_Join_segments:
  "ss \<noteq> [] \<Longrightarrow> list_all segment ss \<Longrightarrow> Split (Join ss ''/'') slash = ss"
  unfolding slash_def by (rule Split_Join) (auto simp: segment_def slash_def list_all_iff)

lemma Join_segments_ends:
  assumes "ss \<noteq> []" "list_all segment ss"
  shows "Join ss ''/'' \<noteq> [] \<and> hd (Join ss ''/'') \<noteq> slash \<and> last (Join ss ''/'') \<noteq> slash"
  using assms
proof (induction ss "''/''" rule: Join.induct)
  case (2 w)
  then show ?case by (auto simp: segment_def token_def dest: hd_in_set last_in_set)
next
  case (3 w v ws)
  then have "w \<noteq> []" "slash \<notin> set w" by (auto simp: segment_def token_def)
  with 3 show ?case by (auto simp: hd_append dest: hd_in_set)
qed simp

lemma Clean_Join: "ss \<noteq> [] \<Longrightarrow> list_all segment ss \<Longrightarrow> Clean (Join ss ''/'') = Join ss ''/''"
  using Join_segments_ends [of ss] by (simp add: Clean_def Split_Join_segments Clean_segs_id Let_def)

lemma Join_Join: "xs \<noteq> [] \<Longrightarrow> Join (Join xs sep # ys) sep = Join (xs @ ys) sep"
proof (induction xs sep rule: Join.induct)
  case (2 w sep)
  then show ?case by simp
next
  case (3 w v ws sep)
  then have "Join (Join (v # ws) sep # ys) sep = Join ((v # ws) @ ys) sep" by simp
  then show ?case by (cases ys) auto
qed simp

lemma path_Join_segments:
  assumes "xs \<noteq> []" "list_all segment (xs @ ys)"
  shows "path_Join (Join xs ''/'' # ys) = Join (xs @ ys) ''/''"
proof -
  have ne: "Join xs ''/'' \<noteq> []" using Join_segments_ends assms by simp
  have "filter (\<lambda>e. e \<noteq> []) ys = ys" using assms(2) by (auto simp: list_all_iff segment_not_Nil intro!: filter_True)
  then have "path_Join (Join xs ''/'' # ys) = Clean (Join (xs @ ys) ''/'')"
    using ne assms(1) by (simp add: path_Join_def Join_Join)
  then show ?thesis using assms Clean_Join [of "xs @ ys"] by simp
qed

lemma SetPrefix_segments: "segment c \<Longrightarrow> segment b \<Longrightarrow> SetPrefix c b = Join [c, b] ''/''"
  using path_Join_segments [of "[c]" "[b]"] by (simp add: SetPrefix_def)

lemma ManifestKey_segments:
  assumes "segment c" "segment b" shows "ManifestKey c b = Join [c, b, ''manifest.json''] ''/''"
proof -
  have "segment ''manifest.json''" by (simp add: segment_def token_def isSpace_def slash_def)
  then show ?thesis using path_Join_segments [of "[c, b]" "[''manifest.json'']"] assms
    by (simp add: ManifestKey_def SetPrefix_segments)
qed

lemma Trim_Join: "ss \<noteq> [] \<Longrightarrow> list_all segment ss \<Longrightarrow> Trim (Join ss ''/'') slash = Join ss ''/''"
  unfolding Trim_def using Join_segments_ends [of ss] by (intro TrimP_id) simp

lemma Trim_empty: "Trim [] c = []"
  by (simp add: Trim_def TrimP_def TrimRightP_def)

text \<open>A configured prefix in canonical form: any number of segments.\<close>

lemma joinKey_segments:
  assumes "list_all segment ps" "xs \<noteq> []" "list_all segment xs"
  shows "joinKey [Join ps ''/'', Join xs ''/''] = Join (ps @ xs) ''/''"
proof (cases "ps = []")
  case True
  then show ?thesis using assms Join_segments_ends [of xs] by (simp add: joinKey_def Trim_Join Trim_empty)
next
  case False
  then have "joinKey [Join ps ''/'', Join xs ''/''] = Join [Join ps ''/'', Join xs ''/''] ''/''"
    using assms Join_segments_ends [of ps] Join_segments_ends [of xs] by (simp add: joinKey_def Trim_Join)
  also have "\<dots> = Join (ps @ [Join xs ''/'']) ''/''" by (rule Join_Join [OF False])
  also have "\<dots> = Join (ps @ xs) ''/''"
  proof -
    have "Join (qs @ [Join xs sep]) sep = Join (qs @ xs) sep" for qs sep
      using assms(2) by (induction qs sep rule: Join.induct) (cases xs; auto)+
    then show ?thesis .
  qed
  finally show ?thesis .
qed

lemma Join_Cons_slash: "xs \<noteq> [] \<Longrightarrow> Join (b # xs) ''/'' = b @ slash # Join xs ''/''"
  by (cases xs) (auto simp: slash_def)

definition bucket_scheme :: "string \<Rightarrow> bool" where
  "bucket_scheme s \<longleftrightarrow> s \<in> {SchemeS3, SchemeGCS, SchemeAzure}"

lemma ParseDestination_bucket:
  assumes "bucket_scheme sc"
  shows "ParseDestination (sc @ rest) = parseBucketDest sc (sc @ rest)"
  using assms unfolding bucket_scheme_def ParseDestination_def
  by (auto simp: HasPrefix_def SchemeS3_def SchemeGCS_def SchemeAzure_def)

lemma parseBucketDest_segments:
  assumes "segment b" "xs \<noteq> []" "list_all segment xs"
  shows "parseBucketDest sc (sc @ Join (b # xs) ''/'') = Inr \<lparr> Scheme = sc, Bucket = b, Path = Join xs ''/'' \<rparr>"
proof -
  have t: "Trim (Join (b # xs) ''/'') slash = Join (b # xs) ''/''" using Trim_Join [of "b # xs"] assms by simp
  have ne: "Join (b # xs) ''/'' \<noteq> []" using Join_segments_ends [of "b # xs"] assms by simp
  have c: "Cut (Join (b # xs) ''/'') slash = (b, Join xs ''/'', True)"
    using assms Cut_sep [of slash b "Join xs ''/''"] by (simp add: Join_Cons_slash segment_def)
  show ?thesis
    using t ne c assms segment_not_Nil [of b] by (simp add: parseBucketDest_def Trim_Join)
qed

lemma FormatDestination_bucket:
  assumes "bucket_scheme sc" "list_all segment (ps @ [c, b])"
  shows "FormatDestination sc bkt (Join ps ''/'') c b = sc @ Join (bkt # ps @ [c, b]) ''/''"
proof -
  have "sc \<noteq> SchemePVC" using assms(1) by (auto simp: bucket_scheme_def SchemeS3_def SchemeGCS_def SchemeAzure_def SchemePVC_def)
  moreover have "joinKey [Join ps ''/'', SetPrefix c b] = Join (ps @ [c, b]) ''/''"
    using joinKey_segments [of ps "[c, b]"] assms(2) by (simp add: SetPrefix_segments)
  moreover have "Join (ps @ [c, b]) ''/'' \<noteq> []" using Join_segments_ends [of "ps @ [c, b]"] assms(2) by simp
  ultimately show ?thesis
    by (simp add: FormatDestination_def Destination_String_def Let_def Join_Cons_slash) (simp add: slash_def)
qed

lemma lastTwo_Join:
  assumes "list_all segment (ps @ [c, b])"
  shows "lastTwoPathComponents (Join (ps @ [c, b]) ''/'') = Some (c, b)"
proof -
  have "TrimSpace s = s" if "segment s" for s
    unfolding TrimSpace_def using that by (intro TrimP_none) (simp add: segment_def token_def)
  then have "map TrimSpace (ps @ [c, b]) = ps @ [c, b]"
    using assms by (intro map_idI) (auto simp: list_all_iff)
  moreover have "filter (\<lambda>s. s \<noteq> []) (ps @ [c, b]) = ps @ [c, b]"
    using assms by (intro filter_True) (auto simp: list_all_iff segment_not_Nil)
  ultimately show ?thesis
    using assms Split_Join_segments [of "ps @ [c, b]"] by (simp add: lastTwoPathComponents_def nth_append)
qed

subsection \<open>Properties\<close>

text \<open>C28: A recorded destination is read back exactly: for every object-store scheme, bucket,
  canonical prefix, cluster and backup name, parsing what \<^const>\<open>FormatDestination\<close> wrote gives the
  scheme, the bucket and the set path, and the identity a restore derives from it is the cluster and
  the backup it was written for.\<close>

theorem destination_round_trip:
  assumes "bucket_scheme sc" "segment bkt" "list_all segment ps" "segment c" "segment b"
  shows "ParseDestination (FormatDestination sc bkt (Join ps ''/'') c b) =
           Inr \<lparr> Scheme = sc, Bucket = bkt, Path = Join (ps @ [c, b]) ''/'' \<rparr> \<and>
         destinationIdentity (FormatDestination sc bkt (Join ps ''/'') c b) = Inr (c, b)"
proof -
  have seg: "list_all segment (ps @ [c, b])" using assms by simp
  have "ParseDestination (FormatDestination sc bkt (Join ps ''/'') c b) =
      Inr \<lparr> Scheme = sc, Bucket = bkt, Path = Join (ps @ [c, b]) ''/'' \<rparr>"
    using parseBucketDest_segments [OF assms(2) _ seg]
    by (simp add: FormatDestination_bucket [OF assms(1) seg] ParseDestination_bucket [OF assms(1)])
  then show ?thesis using lastTwo_Join [OF seg] by (simp add: destinationIdentity_def)
qed

theorem destination_round_trip_witness:
  "FormatDestination ''gs://'' ''bkt'' ''a/b'' ''c1'' ''b1'' = ''gs://bkt/a/b/c1/b1'' \<and>
   destinationIdentity (FormatDestination ''gs://'' ''bkt'' (Join [''a'', ''b''] ''/'') ''c1'' ''b1'') = Inr (''c1'', ''b1'')"
proof -
  have h: "bucket_scheme ''gs://''" "segment ''bkt''" "list_all segment [''a'', ''b'']" "segment ''c1''" "segment ''b1''"
    by (simp_all add: bucket_scheme_def SchemeGCS_def segment_def token_def isSpace_def slash_def)
  have "FormatDestination ''gs://'' ''bkt'' ''a/b'' ''c1'' ''b1'' = ''gs://bkt/a/b/c1/b1''"
    using FormatDestination_bucket [of "''gs://''" "[''a'', ''b'']" "''c1''" "''b1''" "''bkt''"] h by simp
  with destination_round_trip [OF h] show ?thesis by simp
qed

text \<open>The comment of \<open>joinKey\<close> has it keep \<^verbatim>\<open>../\<close> segments out of a key; only edge slashes are removed.\<close>

lemma joinKey_keeps_dotdot: "joinKey [''a'', ''../b''] = ''a/../b''"
  by (simp add: joinKey_def go_eval slash_def)

text \<open>A filesystem destination: the root a restore derives from it already ends in the set path, to
  which the manifest key adds the set path again.\<close>

lemma pvc_root_doubles_set_path:
  "ParseDestination (FormatDestination ''pvc/'' ''/backups'' '''' ''c1'' ''b1'') =
     Inr \<lparr> Scheme = ''pvc/'', Bucket = '''', Path = ''backups/c1/b1'' \<rparr> \<and>
   joinKey [''backups/c1/b1'', ManifestKey ''c1'' ''b1''] = ''backups/c1/b1/c1/b1/manifest.json'' \<and>
   joinKey [''/backups'', ManifestKey ''c1'' ''b1''] = ''backups/c1/b1/manifest.json''"
proof -
  have s: "segment ''c1''" "segment ''b1''" by (simp_all add: segment_def token_def isSpace_def slash_def)
  have k: "ManifestKey ''c1'' ''b1'' = ''c1/b1/manifest.json''" "SetPrefix ''c1'' ''b1'' = ''c1/b1''"
    using ManifestKey_segments [OF s] SetPrefix_segments [OF s] by simp_all
  show ?thesis
    by (simp add: k ParseDestination_def FormatDestination_def Destination_String_def joinKey_def go_eval
        slash_def SchemeS3_def SchemeGCS_def SchemeAzure_def SchemePVC_def)
qed

subsection \<open>The keys of a set do not collide\<close>

lemma Join_segments_inj: "list_all segment xs \<Longrightarrow> list_all segment ys \<Longrightarrow> xs \<noteq> [] \<Longrightarrow> ys \<noteq> [] \<Longrightarrow> Join xs ''/'' = Join ys ''/'' \<Longrightarrow> xs = ys"
  by (metis Split_Join_segments)

lemma segment_shardName: "segment (shardName i)"
proof -
  have "slash \<notin> set (Itoa i)"
    using Itoa_digits [of i slash] by (auto simp: Itoa_def slash_def dest: show_nat_digits split: if_splits)
  then show ?thesis using token_Itoa [of i] by (auto simp: segment_def shardName_def token_def isSpace_def slash_def)
qed

lemma ShardRDBKey_segments:
  assumes "segment c" "segment b"
  shows "ShardRDBKey c b i = Join [c, b, shardName i, ''dump.rdb''] ''/''"
proof -
  have d: "segment ''dump.rdb''" by (simp add: segment_def token_def isSpace_def slash_def)
  have "ShardPrefix c b i = Join [c, b, shardName i] ''/''"
    using path_Join_segments [of "[c, b]" "[shardName i]"] assms segment_shardName by (simp add: ShardPrefix_def SetPrefix_segments)
  then show ?thesis using path_Join_segments [of "[c, b, shardName i]" "[''dump.rdb'']"] assms segment_shardName d
    by (simp add: ShardRDBKey_def)
qed

lemma ShardRDBKey_inj:
  assumes "segment c" "segment b" "int64 i" "int64 j" "ShardRDBKey c b i = ShardRDBKey c b j"
  shows "i = j"
proof -
  have "segment ''dump.rdb''" by (simp add: segment_def token_def isSpace_def slash_def)
  then have "[c, b, shardName i, ''dump.rdb''] = [c, b, shardName j, ''dump.rdb'']"
    using assms segment_shardName by (intro Join_segments_inj) (simp_all add: ShardRDBKey_segments)
  then show ?thesis using Itoa_inj assms by (simp add: shardName_def)
qed

lemma ShardRDBKey_not_manifest:
  assumes "segment c" "segment b" shows "ShardRDBKey c b i \<noteq> ManifestKey c b"
proof
  have "segment ''dump.rdb''" "segment ''manifest.json''" by (simp_all add: segment_def token_def isSpace_def slash_def)
  moreover assume "ShardRDBKey c b i = ManifestKey c b"
  ultimately have "[c, b, shardName i, ''dump.rdb''] = [c, b, ''manifest.json'']"
    using assms segment_shardName by (intro Join_segments_inj) (simp_all add: ShardRDBKey_segments ManifestKey_segments)
  then show False by simp
qed

end
