(* ===== verification/Server_Config.thy ===== *)
theory Server_Config
  imports Go_Strings "HOL-Library.AList"
begin

text \<open>
  Rendering of the server configuration and of the ACL file, \<^verbatim>\<open>src/pkg/valkey/config.go\<close> and
  \<^verbatim>\<open>src/pkg/valkey/acl.go\<close>.

  A Go map is an association list with distinct keys; the renderers sort the keys, so that what
  they write depends on the map and not on its iteration order.  The SHA-256 digest in hexadecimal
  is the parameter \<open>sha256hex\<close>.
\<close>

type_synonym conf = "(string \<times> string) list"

definition eol :: string where "eol = [CHR 0x0A]"

subsection \<open>valkey.conf\<close>

record ConfigInput =
  UserConfig :: conf
  Persistence :: bool
  TLS :: bool
  ACL :: bool
  Requirepass :: string
  DisableCommands :: "string list"
  TLSAuthClients :: string
  TLSCiphers :: string
  TLSCipherSuites :: string
  TLSDHParamsFile :: string

definition liveSettableKeys :: "string list" where
  "liveSettableKeys = [''maxmemory'', ''maxmemory-policy'', ''maxclients'']"

definition tlsAuthClientsValue :: "string \<Rightarrow> string" where
  "tlsAuthClientsValue authClients =
     (if authClients = ''off'' then ''no'' else if authClients = ''require'' then ''yes'' else ''optional'')"

text \<open>\<^verbatim>\<open>cfg[k] = v\<close> for the entries of a list, in order; also \<^verbatim>\<open>maps.Copy\<close>.\<close>

definition copyInto :: "conf \<Rightarrow> conf \<Rightarrow> conf" where
  "copyInto dst src = foldl (\<lambda>m (k, v). AList.update k v m) dst src"

definition fixedBase :: conf where
  "fixedBase =
     [(''cluster-enabled'', ''yes''), (''protected-mode'', ''no''), (''dir'', ''/data''),
      (''cluster-config-file'', ''/data/nodes.conf''), (''cluster-require-full-coverage'', ''yes''),
      (''cluster-allow-replica-migration'', ''no''), (''cluster-replica-validity-factor'', ''0'')]"

definition passBase :: "ConfigInput \<Rightarrow> conf" where
  "passBase inp =
     (if Requirepass inp \<noteq> '''' then [(''requirepass'', Requirepass inp), (''masterauth'', Requirepass inp)] else [])"

definition tlsBase :: "ConfigInput \<Rightarrow> conf" where
  "tlsBase inp =
     (if TLS inp then
        [(''tls-port'', ''6379''), (''port'', ''0''), (''tls-cluster'', ''yes''), (''tls-replication'', ''yes''),
         (''tls-cert-file'', ''/etc/valkey/tls/tls.crt''), (''tls-key-file'', ''/etc/valkey/tls/tls.key''),
         (''tls-ca-cert-file'', ''/etc/valkey/tls/ca.crt''),
         (''tls-auth-clients'', tlsAuthClientsValue (TLSAuthClients inp))]
        @ (if TLSCiphers inp \<noteq> '''' then [(''tls-ciphers'', TLSCiphers inp)] else [])
        @ (if TLSCipherSuites inp \<noteq> '''' then [(''tls-ciphersuites'', TLSCipherSuites inp)] else [])
        @ (if TLSDHParamsFile inp \<noteq> '''' then [(''tls-dh-params-file'', TLSDHParamsFile inp)] else [])
      else [])"

definition baseConfig :: "ConfigInput \<Rightarrow> conf" where
  "baseConfig inp = copyInto []
     (fixedBase @ (if ACL inp then [(''aclfile'', ''/config/users/users.acl'')] else []) @ passBase inp @ tlsBase inp)"

definition mergedConfig :: "ConfigInput \<Rightarrow> conf" where
  "mergedConfig inp = copyInto (copyInto [] (UserConfig inp)) (baseConfig inp)"

definition conf_get :: "conf \<Rightarrow> string \<Rightarrow> string" where
  "conf_get cfg k = (case map_of cfg k of None \<Rightarrow> '''' | Some v \<Rightarrow> v)"

definition renderConfigMap :: "conf \<Rightarrow> string" where
  "renderConfigMap cfg = concat (map (\<lambda>k. k @ '' '' @ conf_get cfg k @ eol) (sort (map fst cfg)))"

definition renderDisableCommands :: "string list \<Rightarrow> string" where
  "renderDisableCommands commands =
     concat (map (\<lambda>c. ''rename-command '' @ c @ '' '' @ [CHR 0x22, CHR 0x22] @ eol)
       (sort (filter (\<lambda>c. TrimSpace c \<noteq> '''') commands)))"

definition RenderServerConfig :: "ConfigInput \<Rightarrow> string" where
  "RenderServerConfig inp = renderConfigMap (mergedConfig inp) @ renderDisableCommands (DisableCommands inp)"

definition rollBody :: "ConfigInput \<Rightarrow> string" where
  "rollBody inp =
     (let merged = foldl (\<lambda>m k. AList.delete k m) (mergedConfig inp) liveSettableKeys;
          merged = AList.delete ''masterauth'' (AList.delete ''requirepass'' merged)
      in renderConfigMap merged @ renderDisableCommands (DisableCommands inp))"

definition ServerConfigRollHash :: "(string \<Rightarrow> string) \<Rightarrow> ConfigInput \<Rightarrow> string" where
  "ServerConfigRollHash sha256hex inp = sha256hex (rollBody inp)"

subsection \<open>users.acl\<close>

record SystemUser =
  SU_Name :: string
  SU_Rules :: string

definition operatorRules :: string where
  "operatorRules = ''resetchannels resetkeys -@all +cluster +config|get +config|set +info '' @
     ''+client|setname +client|setinfo +replicaof +wait +ping +acl|load +acl|list''"

definition backupRules :: string where
  "backupRules = ''resetchannels resetkeys -@all +bgsave +lastsave +save +info +wait +ping '' @
     ''+cluster|nodes +sync +psync +replconf''"

definition SystemUsers :: "bool \<Rightarrow> SystemUser list" where
  "SystemUsers exporterEnabled =
     [\<lparr> SU_Name = ''_operator'', SU_Rules = operatorRules \<rparr>]
     @ (if exporterEnabled
        then [\<lparr> SU_Name = ''_exporter'', SU_Rules = ''resetchannels resetkeys -@all +info +cluster|info +latency +ping'' \<rparr>]
        else [])
     @ [\<lparr> SU_Name = ''_backup'', SU_Rules = backupRules \<rparr>]"

definition HashACLPassword :: "(string \<Rightarrow> string) \<Rightarrow> string \<Rightarrow> string" where
  "HashACLPassword sha256hex password = ''#'' @ sha256hex password"

definition renderSystemUserLine :: "(string \<Rightarrow> string) \<Rightarrow> SystemUser \<Rightarrow> string \<Rightarrow> string" where
  "renderSystemUserLine sha256hex u password =
     ''user '' @ SU_Name u @ '' on '' @ HashACLPassword sha256hex password @ '' '' @ SU_Rules u"

definition defaultUserRules :: string where "defaultUserRules = ''~* &* +@all''"

definition defaultUserLine :: "(string \<Rightarrow> string) \<Rightarrow> string \<Rightarrow> string" where
  "defaultUserLine sha256hex password =
     (if password = '''' then ''user default on nopass '' @ defaultUserRules
      else ''user default on '' @ HashACLPassword sha256hex password @ '' '' @ defaultUserRules)"

definition RenderUsersACL :: "(string \<Rightarrow> string) \<Rightarrow> bool \<Rightarrow> conf \<Rightarrow> string list \<Rightarrow> string \<Rightarrow> string" where
  "RenderUsersACL sha256hex exporterEnabled passwords userLines defaultUserPassword =
     defaultUserLine sha256hex defaultUserPassword @ eol
     @ concat (map (\<lambda>u. renderSystemUserLine sha256hex u (conf_get passwords (SU_Name u)) @ eol) (SystemUsers exporterEnabled))
     @ concat (map (\<lambda>l. l @ eol) (filter (\<lambda>l. TrimSpace l \<noteq> '''') (sort userLines)))"

record UserKeys =
  ReadWrite :: "string list"
  ReadOnly :: "string list"
  WriteOnly :: "string list"

record UserCommands =
  Allow :: "string list"
  Deny :: "string list"

record UserPasswordSecret =
  ps_Name :: string
  ps_Keys :: "string list"

record UserACLSpec =
  UserName :: string
  Enabled :: bool
  PasswordSecret :: UserPasswordSecret
  Nopass :: bool
  Resetpass :: bool
  Commands :: "UserCommands option"
  Keys :: "UserKeys option"
  Channels :: "string list option"
  Permissions :: string

definition prefixed :: "string \<Rightarrow> string list \<Rightarrow> string" where
  "prefixed p xs = concat (map (\<lambda>x. p @ x) xs)"

definition BuildUserACL :: "UserACLSpec \<Rightarrow> string list \<Rightarrow> string" where
  "BuildUserACL u pwHashes =
     ''user '' @ UserName u @ (if Enabled u then '' on'' else '' off'')
     @ (if Resetpass u then '' resetpass'' else if Nopass u then '' nopass'' else prefixed '' '' pwHashes)
     @ (case Keys u of None \<Rightarrow> '''' | Some ks \<Rightarrow>
          prefixed '' ~'' (ReadWrite ks) @ prefixed '' %R~'' (ReadOnly ks) @ prefixed '' %W~'' (WriteOnly ks))
     @ (case Channels u of None \<Rightarrow> '''' | Some ps \<Rightarrow>
          if ps = [] then '''' else '' resetchannels'' @ prefixed '' &'' ps)
     @ (case Commands u of None \<Rightarrow> '''' | Some cs \<Rightarrow> prefixed '' +'' (Allow cs) @ prefixed '' -'' (Deny cs))
     @ (if Permissions u \<noteq> '''' then '' '' @ Permissions u else '''')"

subsection \<open>Lemmas\<close>

lemma map_of_copyInto: "map_of (copyInto dst src) = map_of dst ++ map_of (rev src)"
proof (induction src arbitrary: dst)
  case (Cons kv src)
  then show ?case
    by (cases kv) (simp add: copyInto_def update_conv' map_add_upd_left [symmetric] map_add_assoc [symmetric]
        fun_upd_def map_add_def fun_eq_iff split: option.split)
qed (simp add: copyInto_def)

lemma distinct_copyInto: "distinct (map fst dst) \<Longrightarrow> distinct (map fst (copyInto dst src))"
  by (induction src arbitrary: dst) (auto simp: copyInto_def distinct_update split: prod.split)

lemma map_of_rev: "distinct (map fst xs) \<Longrightarrow> map_of (rev xs) = map_of xs"
  using map_of_inject_set [of "rev xs" xs] by (simp add: rev_map [symmetric])

lemma map_of_copyInto_Nil: "distinct (map fst src) \<Longrightarrow> map_of (copyInto [] src) = map_of src"
  by (simp add: map_of_copyInto map_of_rev)

lemma distinct_baseConfig [simp]: "distinct (map fst (baseConfig inp))"
  by (simp add: baseConfig_def distinct_copyInto)

lemma distinct_mergedConfig [simp]: "distinct (map fst (mergedConfig inp))"
  by (simp add: mergedConfig_def distinct_copyInto)

lemma map_of_mergedConfig:
  "distinct (map fst (UserConfig inp)) \<Longrightarrow>
   map_of (mergedConfig inp) = map_of (UserConfig inp) ++ map_of (baseConfig inp)"
  by (simp add: mergedConfig_def map_of_copyInto map_of_rev)

text \<open>Rendering depends on the map only.\<close>

lemma renderConfigMap_cong:
  assumes "distinct (map fst a)" "distinct (map fst b)" "map_of a = map_of b"
  shows "renderConfigMap a = renderConfigMap b"
proof -
  have "set (map fst a) = set (map fst b)"
    using assms(3) by (metis dom_map_of_conv_image_fst list.set_map)
  then have "sort (map fst a) = sort (map fst b)"
    using assms(1,2) by (metis sorted_list_of_set_sort_remdups distinct_remdups_id)
  then show ?thesis using assms(3) by (simp add: renderConfigMap_def conf_get_def)
qed

lemma map_of_delete: "map_of (AList.delete k m) = (map_of m)(k := None)"
  by (simp add: delete_conv')

definition unrolled :: "string set" where
  "unrolled = {''maxmemory'', ''maxmemory-policy'', ''maxclients'', ''requirepass'', ''masterauth''}"

lemma rollBody_eq:
  assumes "distinct (map fst m)" "map_of m = map_of (mergedConfig inp) |` (- unrolled)"
  shows "rollBody inp = renderConfigMap m @ renderDisableCommands (DisableCommands inp)"
proof -
  let ?d = "AList.delete ''masterauth'' (AList.delete ''requirepass'' (foldl (\<lambda>m k. AList.delete k m) (mergedConfig inp) liveSettableKeys))"
  have "distinct (map fst ?d)" by (simp add: liveSettableKeys_def distinct_delete)
  moreover have "map_of ?d = map_of m"
    unfolding assms(2) by (auto simp: liveSettableKeys_def map_of_delete unrolled_def restrict_map_def fun_eq_iff)
  ultimately have "renderConfigMap ?d = renderConfigMap m"
    using renderConfigMap_cong assms(1) by blast
  then show ?thesis by (simp add: rollBody_def Let_def)
qed

lemma rollBody_cong:
  assumes "map_of (mergedConfig a) |` (- unrolled) = map_of (mergedConfig b) |` (- unrolled)"
    "DisableCommands a = DisableCommands b"
  shows "rollBody a = rollBody b"
proof -
  let ?m = "filter (\<lambda>(k, v). k \<notin> unrolled) (mergedConfig b)"
  have d: "distinct (map fst ?m)" by (simp add: distinct_map_filter)
  have m: "map_of (filter (\<lambda>(k, v). k \<notin> unrolled) c) = map_of c |` (- unrolled)" for c :: conf
    by (induction c) (auto simp: restrict_map_def fun_eq_iff)
  show ?thesis
    using rollBody_eq [OF d, of a] rollBody_eq [OF d m] m assms by simp
qed

lemma map_of_baseConfig:
  "map_of (baseConfig inp) =
     map_of (rev fixedBase) ++ map_of (if ACL inp then [(''aclfile'', ''/config/users/users.acl'')] else [])
     ++ map_of (rev (passBase inp)) ++ map_of (rev (tlsBase inp))"
  by (auto simp: baseConfig_def map_of_copyInto)

lemma tlsBase_keys:
  "map_of (rev (tlsBase inp)) ''requirepass'' = None" "map_of (rev (tlsBase inp)) ''masterauth'' = None"
  by (auto simp: map_of_eq_None_iff tlsBase_def)

lemma baseConfig_passwords:
  "map_of (baseConfig inp) ''requirepass'' = (if Requirepass inp = '''' then None else Some (Requirepass inp))"
  "map_of (baseConfig inp) ''masterauth'' = (if Requirepass inp = '''' then None else Some (Requirepass inp))"
proof -
  have "map_of (rev fixedBase) ''requirepass'' = None" "map_of (rev fixedBase) ''masterauth'' = None"
    by (simp_all add: fixedBase_def)
  then show "map_of (baseConfig inp) ''requirepass'' = (if Requirepass inp = '''' then None else Some (Requirepass inp))"
    "map_of (baseConfig inp) ''masterauth'' = (if Requirepass inp = '''' then None else Some (Requirepass inp))"
    by (simp_all add: map_of_baseConfig map_add_def tlsBase_keys passBase_def)
qed

lemma restrict_map_add: "(f ++ g) |` A = (f |` A) ++ (g |` A)"
  by (auto simp: restrict_map_def map_add_def fun_eq_iff)

lemma passBase_unrolled: "map_of (rev (passBase inp)) |` (- unrolled) = Map.empty"
  by (auto simp: passBase_def restrict_map_def fun_eq_iff unrolled_def)

lemma tlsBase_cong:
  assumes "TLS a = TLS b" "TLSAuthClients a = TLSAuthClients b" "TLSCiphers a = TLSCiphers b"
    "TLSCipherSuites a = TLSCipherSuites b" "TLSDHParamsFile a = TLSDHParamsFile b"
  shows "tlsBase a = tlsBase b"
  by (simp only: tlsBase_def assms)

lemma baseConfig_unrolled:
  assumes "TLS a = TLS b" "ACL a = ACL b" "TLSAuthClients a = TLSAuthClients b" "TLSCiphers a = TLSCiphers b"
    "TLSCipherSuites a = TLSCipherSuites b" "TLSDHParamsFile a = TLSDHParamsFile b"
  shows "map_of (baseConfig a) |` (- unrolled) = map_of (baseConfig b) |` (- unrolled)"
  using tlsBase_cong [OF assms(1,3-6)] assms(2)
  by (simp add: map_of_baseConfig restrict_map_add passBase_unrolled)

subsection \<open>Properties\<close>


definition sample_input :: ConfigInput where
  "sample_input = \<lparr> UserConfig = [(''protected-mode'', ''yes''), (''maxmemory'', ''1gb'')], Persistence = True,
     TLS = False, ACL = True, Requirepass = ''s3cret'', DisableCommands = [''FLUSHALL''], TLSAuthClients = '''',
     TLSCiphers = '''', TLSCipherSuites = '''', TLSDHParamsFile = '''' \<rparr>"


text \<open>Rotating the password or changing a live-settable directive never rolls the pods: the roll
  hash is the same for every password, and for user configurations that differ only in
  \<^verbatim>\<open>maxmemory\<close>, \<^verbatim>\<open>maxmemory-policy\<close> or \<^verbatim>\<open>maxclients\<close>, whatever the digest function.\<close>

theorem roll_hash_stable:
  assumes "distinct (map fst (UserConfig inp))" "distinct (map fst uc)"
    "\<forall>k. k \<notin> {''maxmemory'', ''maxmemory-policy'', ''maxclients''} \<longrightarrow> map_of uc k = map_of (UserConfig inp) k"
  shows "ServerConfigRollHash sha256hex (inp \<lparr> UserConfig := uc, Requirepass := p \<rparr>) = ServerConfigRollHash sha256hex inp"
proof -
  let ?inp = "inp \<lparr> UserConfig := uc, Requirepass := p \<rparr>"
  have b: "map_of (baseConfig ?inp) |` (- unrolled) = map_of (baseConfig inp) |` (- unrolled)"
    by (rule baseConfig_unrolled) simp_all
  have u: "map_of uc |` (- unrolled) = map_of (UserConfig inp) |` (- unrolled)"
    using assms(3) by (auto simp: restrict_map_def fun_eq_iff unrolled_def)
  have "rollBody ?inp = rollBody inp"
    by (rule rollBody_cong) (use assms(1,2) b u in \<open>simp_all add: map_of_mergedConfig restrict_map_add\<close>)
  then show ?thesis by (simp add: ServerConfigRollHash_def)
qed

theorem roll_hash_stable_witness:
  "ServerConfigRollHash (\<lambda>s. s)
     (sample_input \<lparr> UserConfig := [(''protected-mode'', ''yes''), (''maxmemory'', ''9gb'')], Requirepass := ''new'' \<rparr>)
   = ServerConfigRollHash (\<lambda>s. s) sample_input"
  by (rule roll_hash_stable) (simp_all add: sample_input_def)

text \<open>The ACL file and the configuration agree on the default user: the first line of
  \<^verbatim>\<open>users.acl\<close> lets the default user in without a password exactly when \<^verbatim>\<open>valkey.conf\<close> has no
  \<^verbatim>\<open>requirepass\<close>; replicas get the same password as \<^verbatim>\<open>masterauth\<close>; and every system user has its
  own line before any user-defined line.\<close>

theorem acl_agrees_with_config:
  "(map_of (baseConfig inp) ''requirepass'' = None \<longleftrightarrow>
      defaultUserLine sha256hex (Requirepass inp) = ''user default on nopass ~* &* +@all'' \<and> Requirepass inp = '''') \<and>
   map_of (baseConfig inp) ''masterauth'' = map_of (baseConfig inp) ''requirepass'' \<and>
   (\<exists>rest. RenderUsersACL sha256hex exporter pws userLines (Requirepass inp) =
      defaultUserLine sha256hex (Requirepass inp) @ eol @
      concat (map (\<lambda>u. ''user '' @ SU_Name u @ '' on #'' @ sha256hex (conf_get pws (SU_Name u)) @ '' '' @ SU_Rules u @ eol)
        (SystemUsers exporter)) @ rest \<and>
      rest = concat (map (\<lambda>l. l @ eol) (filter (\<lambda>l. TrimSpace l \<noteq> '''') (sort userLines))))"
  by (simp add: baseConfig_passwords RenderUsersACL_def renderSystemUserLine_def HashACLPassword_def
      defaultUserLine_def defaultUserRules_def)

lemma renderConfigMap_last:
  assumes "k \<in> fst ` set m" "\<forall>x \<in> fst ` set m. x \<le> k"
  shows "\<exists>pre. renderConfigMap m = pre @ k @ '' '' @ conf_get m k @ eol"
proof -
  let ?xs = "sort (map fst m)"
  have s: "set ?xs = fst ` set m" by simp
  have ne: "?xs \<noteq> []" using assms(1) s by fastforce
  have "last ?xs \<in> fst ` set m" using last_in_set [OF ne] by simp
  then have le: "last ?xs \<le> k" using assms(2) by (rule bspec [rotated])
  obtain ys where ys: "?xs = ys @ [last ?xs]" using ne by (metis append_butlast_last_id)
  have "sorted (ys @ [last ?xs])" using ys by (metis sorted_sort)
  moreover have "k \<in> set (ys @ [last ?xs])" using assms(1) s ys by metis
  ultimately have "k \<le> last ?xs" by (auto simp: sorted_append)
  with le ys have "?xs = ys @ [k]" by simp
  then have "renderConfigMap m = concat (map (\<lambda>k. k @ '' '' @ conf_get m k @ eol) ys) @ k @ '' '' @ conf_get m k @ eol"
    by (simp add: renderConfigMap_def)
  then show ?thesis by blast
qed

text \<open>A line break in a user value puts a directive after the operator's own line for it, where the
  engine, which takes the last line of a directive, uses it.\<close>

lemma config_value_injection:
  defines "inp \<equiv> sample_input \<lparr> UserConfig := [(''zz'', ''1'' @ eol @ ''protected-mode yes'')], DisableCommands := [] \<rparr>"
  shows "\<exists>pre. RenderServerConfig inp = pre @ ''zz 1'' @ eol @ ''protected-mode yes'' @ eol"
    and "map_of (mergedConfig inp) ''protected-mode'' = Some ''no''"
proof -
  have m: "map_of (mergedConfig inp) = map_of (UserConfig inp) ++ map_of (baseConfig inp)"
    by (rule map_of_mergedConfig) (simp add: inp_def)
  have b: "map_of (baseConfig inp) = map_of (rev fixedBase) ++ map_of [(''aclfile'', ''/config/users/users.acl'')]
      ++ map_of (rev [(''requirepass'', ''s3cret''), (''masterauth'', ''s3cret'')])"
    by (simp add: map_of_baseConfig inp_def sample_input_def passBase_def tlsBase_def)
  have "dom (map_of (mergedConfig inp)) = {''zz''} \<union> fst ` set fixedBase \<union> {''aclfile'', ''requirepass'', ''masterauth''}"
    unfolding m b by (auto simp: dom_map_of_conv_image_fst inp_def fixedBase_def)
  then have k: "fst ` set (mergedConfig inp) = {''zz''} \<union> fst ` set fixedBase \<union> {''aclfile'', ''requirepass'', ''masterauth''}"
    by (simp add: dom_map_of_conv_image_fst)
  have "\<forall>x \<in> fst ` set (mergedConfig inp). x \<le> ''zz''"
    unfolding k by (simp add: fixedBase_def less_eq_char_def less_char_def)
  moreover have "''zz'' \<in> fst ` set (mergedConfig inp)" unfolding k by simp
  ultimately obtain pre where "renderConfigMap (mergedConfig inp) = pre @ ''zz'' @ '' '' @ conf_get (mergedConfig inp) ''zz'' @ eol"
    using renderConfigMap_last by blast
  moreover have "conf_get (mergedConfig inp) ''zz'' = ''1'' @ eol @ ''protected-mode yes''"
    unfolding conf_get_def m b by (simp add: inp_def fixedBase_def)
  moreover have "renderDisableCommands (DisableCommands inp) = []" by (simp add: inp_def renderDisableCommands_def)
  ultimately show "\<exists>pre. RenderServerConfig inp = pre @ ''zz 1'' @ eol @ ''protected-mode yes'' @ eol"
    by (simp add: RenderServerConfig_def)
  show "map_of (mergedConfig inp) ''protected-mode'' = Some ''no''"
    unfolding m b by (simp add: fixedBase_def)
qed

end
