(* ===== verification/Naming.thy ===== *)
theory Naming
  imports Go_Strings
begin

text \<open>
  Names and labels of the objects the operator creates, \<^verbatim>\<open>src/pkg/naming\<close>.  Label maps are partial
  functions.  A node's labels are shown to give back the shard and the node index it was named for.
\<close>

type_synonym labels = "string \<rightharpoonup> string"

definition SystemUserOperator :: string where "SystemUserOperator = ''_operator''"
definition SystemUserExporter :: string where "SystemUserExporter = ''_exporter''"
definition SystemUserBackup :: string where "SystemUserBackup = ''_backup''"

definition labelPrefix :: string where "labelPrefix = ''valkey.percona.com/''"
definition LabelAppName :: string where "LabelAppName = ''app.kubernetes.io/name''"
definition LabelAppInstance :: string where "LabelAppInstance = ''app.kubernetes.io/instance''"
definition LabelAppManagedBy :: string where "LabelAppManagedBy = ''app.kubernetes.io/managed-by''"
definition LabelAppComponent :: string where "LabelAppComponent = ''app.kubernetes.io/component''"
definition LabelCluster :: string where "LabelCluster = ''valkey.percona.com/cluster''"
definition LabelShardIndex :: string where "LabelShardIndex = ''valkey.percona.com/shard-index''"
definition LabelNodeIndex :: string where "LabelNodeIndex = ''valkey.percona.com/node-index''"
definition LabelComponent :: string where "LabelComponent = ''valkey.percona.com/component''"
definition ComponentValkey :: string where "ComponentValkey = ''valkey''"

definition FinalizerDeletePodsInOrder :: string where
  "FinalizerDeletePodsInOrder = labelPrefix @ ''delete-pods-in-order''"
definition FinalizerDeleteSSL :: string where "FinalizerDeleteSSL = labelPrefix @ ''delete-ssl''"
definition FinalizerDeleteBackup :: string where "FinalizerDeleteBackup = labelPrefix @ ''delete-backup''"

definition Labels :: "string \<Rightarrow> string \<Rightarrow> labels" where
  "Labels cluster component =
     (let l = [LabelAppName \<mapsto> ''percona-valkey'', LabelAppInstance \<mapsto> cluster,
               LabelAppManagedBy \<mapsto> ''percona-valkey-operator'', LabelCluster \<mapsto> cluster]
      in if component \<noteq> '''' then l(LabelAppComponent \<mapsto> component, LabelComponent \<mapsto> component) else l)"

definition nonempty_label :: "labels \<Rightarrow> string \<Rightarrow> string option" where
  "nonempty_label m k = (case m k of Some v \<Rightarrow> if v \<noteq> '''' then Some v else None | None \<Rightarrow> None)"

definition copyLabel :: "labels \<Rightarrow> labels \<Rightarrow> string \<Rightarrow> labels" where
  "copyLabel nodeLabels l key =
     (case nonempty_label nodeLabels key of Some v \<Rightarrow> l(key \<mapsto> v) | None \<Rightarrow> l)"

definition NodeCluster :: "string \<Rightarrow> labels \<Rightarrow> string" where
  "NodeCluster nodeName nodeLabels =
     (case nonempty_label nodeLabels LabelCluster of Some v \<Rightarrow> v | None \<Rightarrow> nodeName)"

definition NodeLabels :: "string \<Rightarrow> labels \<Rightarrow> labels" where
  "NodeLabels nodeName nodeLabels =
     (let cluster = (case nonempty_label nodeLabels LabelCluster of Some v \<Rightarrow> v | None \<Rightarrow> nodeName);
          l = (Labels cluster ComponentValkey)(LabelAppInstance \<mapsto> nodeName)
      in foldl (copyLabel nodeLabels) l [LabelCluster, LabelShardIndex, LabelNodeIndex])"

definition ClusterTopologyLabels :: "string \<Rightarrow> int \<Rightarrow> int \<Rightarrow> labels" where
  "ClusterTopologyLabels cluster shard node =
     [LabelCluster \<mapsto> cluster, LabelShardIndex \<mapsto> Itoa shard, LabelNodeIndex \<mapsto> Itoa node]"

definition ClusterSelector :: "string \<Rightarrow> labels" where
  "ClusterSelector cluster = [LabelCluster \<mapsto> cluster]"

definition ShardSelector :: "string \<Rightarrow> int \<Rightarrow> labels" where
  "ShardSelector cluster shard = [LabelCluster \<mapsto> cluster, LabelShardIndex \<mapsto> Itoa shard]"

definition TLSSecretName :: "string \<Rightarrow> string" where
  "TLSSecretName cluster = ''internal-'' @ cluster @ ''-tls''"
definition NodeWorkloadName :: "string \<Rightarrow> string" where
  "NodeWorkloadName node = ''valkey-'' @ node"
definition NodePVCName :: "string \<Rightarrow> string" where
  "NodePVCName node = ''valkey-'' @ node @ ''-data''"
definition NodeStatefulSetPVCName :: "string \<Rightarrow> string" where
  "NodeStatefulSetPVCName node = NodePVCName node @ ''-'' @ NodeWorkloadName node @ ''-0''"
definition NodeConfigMapName :: "string \<Rightarrow> string" where
  "NodeConfigMapName node = ''valkey-'' @ node"
definition ClusterConfigMapName :: "string \<Rightarrow> string" where
  "ClusterConfigMapName cluster = ''valkey-'' @ cluster"
definition HeadlessServiceName :: "string \<Rightarrow> string" where
  "HeadlessServiceName cluster = ''valkey-'' @ cluster"
definition ACLSecretName :: "string \<Rightarrow> string" where
  "ACLSecretName cluster = ''internal-'' @ cluster @ ''-acl''"
definition SystemPasswordsSecretName :: "string \<Rightarrow> string" where
  "SystemPasswordsSecretName cluster = ''internal-'' @ cluster @ ''-system-passwords''"
definition ClusterPDBName :: "string \<Rightarrow> string" where
  "ClusterPDBName cluster = ''valkey-'' @ cluster @ ''-pdb''"
definition NodeName :: "string \<Rightarrow> int \<Rightarrow> int \<Rightarrow> string" where
  "NodeName cluster shard node = cluster @ ''-'' @ Itoa shard @ ''-'' @ Itoa node"

lemmas label_defs = LabelAppName_def LabelAppInstance_def LabelAppManagedBy_def LabelAppComponent_def
  LabelCluster_def LabelShardIndex_def LabelNodeIndex_def LabelComponent_def

lemma NodeLabels_topology:
  "NodeLabels n (ClusterTopologyLabels c s i) LabelShardIndex = Some (Itoa s)"
  "NodeLabels n (ClusterTopologyLabels c s i) LabelNodeIndex = Some (Itoa i)"
  by (simp_all add: NodeLabels_def ClusterTopologyLabels_def copyLabel_def nonempty_label_def Let_def label_defs)

text \<open>Names of one cluster's nodes are distinct.\<close>

lemma append_sep_cancel:
  fixes a b c d :: string
  assumes "a @ x # b = c @ x # d" "x \<notin> set b" "x \<notin> set d"
  shows "a = c \<and> b = d"
proof -
  have "rev b @ x # rev a = rev d @ x # rev c"
    using arg_cong [OF assms(1), of rev] by simp
  then have "Cut (rev b @ x # rev a) x = Cut (rev d @ x # rev c) x" by simp
  then show ?thesis
    using Cut_sep [of x "rev b" "rev a"] Cut_sep [of x "rev d" "rev c"] assms(2,3) by simp
qed

lemma Itoa_no_dash: "0 \<le> n \<Longrightarrow> CHR ''-'' \<notin> set (Itoa n)"
  using Itoa_digits [of n "CHR ''-''"] by auto

lemma NodeName_inj:
  assumes "NodeName c s i = NodeName c' s' i'"
    "0 \<le> s" "0 \<le> i" "0 \<le> s'" "0 \<le> i'" "int64 s" "int64 i" "int64 s'" "int64 i'"
  shows "c = c' \<and> s = s' \<and> i = i'"
proof -
  have "(c @ ''-'' @ Itoa s) @ CHR ''-'' # Itoa i = (c' @ ''-'' @ Itoa s') @ CHR ''-'' # Itoa i'"
    using assms(1) by (simp add: NodeName_def)
  then have 1: "c @ ''-'' @ Itoa s = c' @ ''-'' @ Itoa s'" "Itoa i = Itoa i'"
    using append_sep_cancel [of "c @ ''-'' @ Itoa s" "CHR ''-''" "Itoa i" "c' @ ''-'' @ Itoa s'" "Itoa i'"]
      Itoa_no_dash assms by auto
  then have "c = c'" "Itoa s = Itoa s'"
    using append_sep_cancel [of c "CHR ''-''" "Itoa s" c' "Itoa s'"] Itoa_no_dash assms by auto
  then show ?thesis using 1(2) Itoa_inj assms by blast
qed

end
