(* ===== verification/Kube_Objects.thy ===== *)
theory Kube_Objects
  imports Naming
begin

text \<open>
  The Kubernetes objects the cluster controller writes, with the fields it sets or reads: Services,
  Secrets, NetworkPolicies and cert-manager Certificates.  Their types belong to the Kubernetes API;
  integers are the \<open>int32\<close> values of the API, and optional fields are options.
\<close>

datatype ServiceType = ClusterIP | NodePort | LoadBalancer

record ServicePort =
  sp_Name :: string
  sp_Port :: int
  sp_TargetPort :: int
  sp_NodePort :: int

text \<open>\<open>svc_Ingress\<close> is the load-balancer ingress of the status, IP and hostname.\<close>

record Service =
  svc_Name :: string
  svc_Labels :: labels
  svc_Annotations :: labels
  svc_Type :: ServiceType
  svc_ClusterIP :: string
  svc_PublishNotReady :: bool
  svc_Selector :: labels
  svc_Ports :: "ServicePort list"
  svc_SourceRanges :: "string list"
  svc_Ingress :: "(string \<times> string) list"

record Secret =
  sec_Name :: string
  sec_Labels :: "labels option"
  sec_Type :: string
  sec_Data :: "labels option"

text \<open>Reading a key of a Go map, the empty string where the key or the map is absent.\<close>

definition lookup :: "labels \<Rightarrow> string \<Rightarrow> string" where
  "lookup m k = (case m k of Some v \<Rightarrow> v | None \<Rightarrow> '''')"

definition nil_map :: "labels option \<Rightarrow> labels" where
  "nil_map m = (case m of Some x \<Rightarrow> x | None \<Rightarrow> Map.empty)"

text \<open>
  A label selector: equality-based labels, which are all the controller builds itself, and the set-based
  expressions of selectors taken from the spec.
\<close>

record LabelSelector =
  ls_MatchLabels :: "(string \<times> string) list"
  ls_MatchExpressions :: "string list"

datatype Protocol = TCP | UDP

record NetworkPolicyPort =
  npp_Protocol :: Protocol
  npp_Port :: int

record NetworkPolicyPeer =
  peer_Namespace :: "LabelSelector option"
  peer_Pod :: "LabelSelector option"

record NetworkPolicyRule =
  rule_Peers :: "NetworkPolicyPeer list"
  rule_Ports :: "NetworkPolicyPort list"

datatype PolicyType = PolicyTypeIngress | PolicyTypeEgress

record NetworkPolicy =
  pol_PodSelector :: "(string \<times> string) list"
  pol_Types :: "PolicyType list"
  pol_Ingress :: "NetworkPolicyRule list"
  pol_Egress :: "NetworkPolicyRule list"

record CertificateSpec =
  crt_SecretName :: string
  crt_DNSNames :: "string list"
  crt_IssuerName :: string
  crt_IssuerKind :: string

text \<open>Times are nanoseconds; \<open>lease_Version\<close> is the resource version of the object.\<close>

record Lease =
  lease_Name :: string
  lease_Holder :: "string option"
  lease_Duration :: "int option"
  lease_Acquire :: "int option"
  lease_Renew :: "int option"
  lease_Version :: nat

subsection \<open>Errors of the API server\<close>

datatype api_error = NotFound string | AlreadyExists string | Conflict string | ApiError string

fun api_text :: "api_error \<Rightarrow> string" where
  "api_text (NotFound s) = s"
| "api_text (AlreadyExists s) = s"
| "api_text (Conflict s) = s"
| "api_text (ApiError s) = s"

end
