(* ===== verification/Cluster_CR.thy ===== *)
theory Cluster_CR
  imports Kube_Objects Version Server_Config
begin

text \<open>
  The custom resources of \<^verbatim>\<open>src/pkg/apis/valkey/v1alpha1\<close> as the controllers read them, and the
  defaulting of a cluster (\<^verbatim>\<open>perconavalkeycluster_defaults.go\<close>).

  Pointers are options, maps that are only looked up are partial functions, and the storages map, over
  which the code ranges, is an association list.  \<open>PodTemplate\<close> stands for the fields of the spec the
  controllers copy to each node and never read (scheduling, security contexts, containers).
\<close>

subsection \<open>Resources\<close>

datatype ClusterMode = ModeUnset | ModeCluster | ModeReplication | ModeStandalone

record SecretRef =
  ref_Name :: string
  ref_Key :: string

record IssuerRef =
  iss_Name :: string
  iss_Kind :: string

record TLSConfig =
  tls_SecretName :: string
  tls_CertManager :: "IssuerRef option"
  tls_AuthClients :: string
  tls_Ciphers :: string
  tls_CipherSuites :: string
  tls_DHParamsSecret :: "SecretRef option"

record AuthSpec =
  auth_Enabled :: "bool option"
  auth_PasswordSecret :: UserPasswordSecret

record ExposeSpec =
  exp_Type :: ServiceType
  exp_SourceRanges :: "string list"
  exp_Annotations :: labels
  exp_PerPod :: bool

datatype PDBPolicy = PDBUnset | PDBManaged | PDBDisabled

record ExporterSpec =
  ex_Enabled :: bool
  ex_Image :: string

record NetworkPolicySpec =
  np_Enabled :: "bool option"
  np_ClientNamespaceSelectors :: "LabelSelector list"
  np_ClientPodSelectors :: "LabelSelector list"
  np_MonitoringNamespace :: string

datatype BackupStorageType = BackupStorageS3 | BackupStorageGCS | BackupStorageAzure | BackupStorageFilesystem

record BackupStorageS3Spec =
  s3_Bucket :: string
  s3_Prefix :: string
  s3_Region :: string
  s3_EndpointURL :: string
  s3_CredentialsSecret :: string

record BackupStorageGCSSpec =
  gcs_Bucket :: string
  gcs_Prefix :: string
  gcs_CredentialsSecret :: string

record BackupStorageAzureSpec =
  az_Container :: string
  az_Prefix :: string
  az_CredentialsSecret :: string

record BackupStorageSpec =
  st_Type :: BackupStorageType
  st_S3 :: "BackupStorageS3Spec option"
  st_GCS :: "BackupStorageGCSSpec option"
  st_Azure :: "BackupStorageAzureSpec option"

record BackupScheduleSpec =
  sch_Name :: string
  sch_Schedule :: string
  sch_StorageName :: string
  sch_Keep :: int
  sch_Type :: string

record BackupSpec =
  bk_Image :: string
  bk_ServiceAccountName :: string
  bk_Storages :: "(string \<times> BackupStorageSpec) list"
  bk_Schedule :: "BackupScheduleSpec list"

record UpgradeOptions =
  up_Apply :: string
  up_Schedule :: string
  up_VersionServiceEndpoint :: string

record ClusterSpec =
  CrVersion :: string
  Image :: string
  Mode :: ClusterMode
  Shards_want :: int
  Replicas :: int
  PersistenceSpec :: "string option"
  ConfigSpec :: conf
  Users :: "UserACLSpec list"
  Auth :: "AuthSpec option"
  TLSSpec :: "TLSConfig option"
  DisableCommandsSpec :: "string list option"
  Expose :: "ExposeSpec option"
  Backup :: BackupSpec
  Upgrade :: UpgradeOptions
  Exporter :: ExporterSpec
  PodDisruptionBudget :: PDBPolicy
  NetworkPolicyOf :: "NetworkPolicySpec option"
  PodTemplate :: string

datatype ConditionStatus = ConditionTrue | ConditionFalse

record Condition =
  cond_status :: ConditionStatus
  cond_reason :: string
  cond_message :: string
  cond_generation :: int

datatype State = StateInitializing | StateReconciling | StateReady | StateDegraded | StateFailed

record ClusterStatus =
  Conditions :: "string \<rightharpoonup> Condition"
  State :: State
  Reason :: string
  Message :: string
  StatusShards :: int
  ReadyShards :: int
  ObservedGeneration :: int
  LastObservedCrVersion :: string
  Host :: string

record Cluster =
  Name :: string
  Namespace :: string
  Generation :: int
  Deleting :: bool
  Finalizers :: "string list"
  Annotations :: labels
  Spec :: ClusterSpec
  Status :: ClusterStatus

record RestoreSource =
  rs_Storage :: string
  rs_BackupName :: string
  rs_ShardIndex :: int
  rs_ClusterName :: string
  rs_StorageSpec :: "BackupStorageSpec option"
  rs_CredentialsSecret :: string

record NodeSpec =
  ns_Image :: string
  ns_Persistence :: "string option"
  ns_Config :: conf
  ns_TLS :: "TLSConfig option"
  ns_ServerConfigMapName :: string
  ns_ServerConfigHash :: string
  ns_ACLSecretName :: string
  ns_AnnounceHost :: string
  ns_AnnouncePort :: "int option"
  ns_RestoreFrom :: "RestoreSource option"
  ns_Exporter :: ExporterSpec
  ns_PodTemplate :: string

record ValkeyNode =
  vn_Name :: string
  vn_Labels :: labels
  vn_Annotations :: labels
  vn_Generation :: int
  vn_Deleting :: bool
  vn_Spec :: NodeSpec
  vn_PodIP :: string
  vn_Ready :: bool
  vn_ObservedGeneration :: int

subsection \<open>Defaults\<close>

definition UpgradeApplyDisabled :: string where "UpgradeApplyDisabled = ''Disabled''"

definition defaultUpgradeSchedule :: string where "defaultUpgradeSchedule = ''0 4 * * *''"

definition defaultVersionServiceEndpoint :: string where
  "defaultVersionServiceEndpoint = ''https://check.percona.com''"

definition usersSecretSuffix :: string where "usersSecretSuffix = ''-users''"

definition defaultDisabledCommands :: "string list" where
  "defaultDisabledCommands = [''FLUSHALL'', ''FLUSHDB'']"

definition defaultEngineTag :: string where "defaultEngineTag = ''9.1.0''"

definition DefaultServerImage :: string where
  "DefaultServerImage = ''percona/valkey:'' @ defaultEngineTag"

definition DefaultBackupImage :: string where
  "DefaultBackupImage = ''percona/valkey-backup:'' @ defaultEngineTag"

text \<open>\<open>own\<close> is \<open>MajorMinor\<close> of the running operator, a constant of its build.\<close>

definition stampCrVersion :: "string \<Rightarrow> ClusterSpec \<Rightarrow> ClusterSpec" where
  "stampCrVersion own s = (if CrVersion s = '''' then s \<lparr> CrVersion := own \<rparr> else s)"

definition setTopologyDefaults :: "ClusterSpec \<Rightarrow> ClusterSpec" where
  "setTopologyDefaults s =
     (if Shards_want s = 0 then s \<lparr> Shards_want := (if Mode s = ModeCluster then 3 else 1) \<rparr> else s)"

definition setImageDefaults :: "ClusterSpec \<Rightarrow> ClusterSpec" where
  "setImageDefaults s =
     (let s1 = (if Image s = '''' then s \<lparr> Image := DefaultServerImage \<rparr> else s)
      in if bk_Image (Backup s1) = '''' then s1 \<lparr> Backup := (Backup s1) \<lparr> bk_Image := DefaultBackupImage \<rparr> \<rparr> else s1)"

definition setUpgradeOptionsDefaults :: "ClusterSpec \<Rightarrow> ClusterSpec" where
  "setUpgradeOptionsDefaults s =
     (let u = Upgrade s;
          u1 = (if up_Apply u = '''' then u \<lparr> up_Apply := UpgradeApplyDisabled \<rparr> else u);
          u2 = (if up_Apply u1 \<noteq> UpgradeApplyDisabled
                then let v = (if up_Schedule u1 = '''' then u1 \<lparr> up_Schedule := defaultUpgradeSchedule \<rparr> else u1)
                     in if up_VersionServiceEndpoint v = ''''
                        then v \<lparr> up_VersionServiceEndpoint := defaultVersionServiceEndpoint \<rparr> else v
                else u1)
      in s \<lparr> Upgrade := u2 \<rparr>)"

definition namedSecret :: "string \<Rightarrow> UserPasswordSecret \<Rightarrow> UserPasswordSecret" where
  "namedSecret cluster p = (if ps_Name p = '''' then p \<lparr> ps_Name := cluster @ usersSecretSuffix \<rparr> else p)"

definition deriveUserSecretNames :: "string \<Rightarrow> ClusterSpec \<Rightarrow> ClusterSpec" where
  "deriveUserSecretNames cluster s =
     s \<lparr> Users := map (\<lambda>u. u \<lparr> PasswordSecret := namedSecret cluster (PasswordSecret u) \<rparr>) (Users s) \<rparr>"

definition setAuthDefaults :: "string \<Rightarrow> ClusterSpec \<Rightarrow> ClusterSpec" where
  "setAuthDefaults cluster s =
     (let a = (case Auth s of
                 None \<Rightarrow> \<lparr> auth_Enabled = Some True, auth_PasswordSecret = \<lparr> ps_Name = '''', ps_Keys = [] \<rparr> \<rparr>
               | Some a \<Rightarrow> a);
          a1 = (if auth_Enabled a = None then a \<lparr> auth_Enabled := Some True \<rparr> else a);
          a2 = (if auth_Enabled a1 = Some True
                then a1 \<lparr> auth_PasswordSecret := namedSecret cluster (auth_PasswordSecret a1) \<rparr> else a1)
      in s \<lparr> Auth := Some a2 \<rparr>)"

definition setDisableCommandsDefaults :: "ClusterSpec \<Rightarrow> ClusterSpec" where
  "setDisableCommandsDefaults s =
     (if DisableCommandsSpec s = None then s \<lparr> DisableCommandsSpec := Some defaultDisabledCommands \<rparr> else s)"

definition validateBackupStorages :: "ClusterSpec \<Rightarrow> string option" where
  "validateBackupStorages s =
     (case find (\<lambda>x. map_of (bk_Storages (Backup s)) (sch_StorageName x) = None) (bk_Schedule (Backup s)) of
        None \<Rightarrow> None
      | Some x \<Rightarrow> Some (''backup.schedule['' @ quoted (sch_Name x) @ '']: unknown storageName '' @
                       quoted (sch_StorageName x) @ '' (not in spec.backup.storages)''))"

text \<open>The defaulted cluster and the validation error, if any.\<close>

definition CheckNSetDefaults :: "string \<Rightarrow> Cluster \<Rightarrow> string option \<times> Cluster" where
  "CheckNSetDefaults own c =
     (let s = setDisableCommandsDefaults (setAuthDefaults (Name c) (deriveUserSecretNames (Name c)
                (setUpgradeOptionsDefaults (setImageDefaults (setTopologyDefaults (stampCrVersion own (Spec c)))))))
      in (validateBackupStorages s, c \<lparr> Spec := s \<rparr>))"

subsection \<open>Defaulting is idempotent\<close>

lemmas defaulting = stampCrVersion_def setTopologyDefaults_def setImageDefaults_def setUpgradeOptionsDefaults_def
  deriveUserSecretNames_def setAuthDefaults_def setDisableCommandsDefaults_def Let_def

lemma namedSecret_idem [simp]: "namedSecret c (namedSecret c p) = namedSecret c p"
  by (simp add: namedSecret_def usersSecretSuffix_def)

lemma default_images [simp]: "DefaultServerImage \<noteq> ''''" "DefaultBackupImage \<noteq> ''''"
  by (simp_all add: DefaultServerImage_def DefaultBackupImage_def)

lemma default_upgrade [simp]:
  "UpgradeApplyDisabled \<noteq> ''''" "defaultUpgradeSchedule \<noteq> ''''" "defaultVersionServiceEndpoint \<noteq> ''''"
  by (simp_all add: UpgradeApplyDisabled_def defaultUpgradeSchedule_def defaultVersionServiceEndpoint_def)

text \<open>
  A setter fills one group of fields.  It is idempotent and commutes with every setter of another group,
  which gives idempotence of their composition.
\<close>

lemma setters_idem:
  "setTopologyDefaults (setTopologyDefaults s) = setTopologyDefaults s"
  "setImageDefaults (setImageDefaults s) = setImageDefaults s"
  "setUpgradeOptionsDefaults (setUpgradeOptionsDefaults s) = setUpgradeOptionsDefaults s"
  "deriveUserSecretNames n (deriveUserSecretNames n s) = deriveUserSecretNames n s"
  "setAuthDefaults n (setAuthDefaults n s) = setAuthDefaults n s"
  "setDisableCommandsDefaults (setDisableCommandsDefaults s) = setDisableCommandsDefaults s"
  by (auto simp: defaulting split: option.splits)

lemma stampCrVersion_idem: "stampCrVersion own (stampCrVersion own s) = stampCrVersion own s"
  by (simp add: stampCrVersion_def)

lemma setters_commute:
  "setTopologyDefaults (stampCrVersion own s) = stampCrVersion own (setTopologyDefaults s)"
  "setImageDefaults (stampCrVersion own s) = stampCrVersion own (setImageDefaults s)"
  "setUpgradeOptionsDefaults (stampCrVersion own s) = stampCrVersion own (setUpgradeOptionsDefaults s)"
  "deriveUserSecretNames n (stampCrVersion own s) = stampCrVersion own (deriveUserSecretNames n s)"
  "setAuthDefaults n (stampCrVersion own s) = stampCrVersion own (setAuthDefaults n s)"
  "setDisableCommandsDefaults (stampCrVersion own s) = stampCrVersion own (setDisableCommandsDefaults s)"
  "setImageDefaults (setTopologyDefaults s) = setTopologyDefaults (setImageDefaults s)"
  "setUpgradeOptionsDefaults (setTopologyDefaults s) = setTopologyDefaults (setUpgradeOptionsDefaults s)"
  "deriveUserSecretNames n (setTopologyDefaults s) = setTopologyDefaults (deriveUserSecretNames n s)"
  "setAuthDefaults n (setTopologyDefaults s) = setTopologyDefaults (setAuthDefaults n s)"
  "setDisableCommandsDefaults (setTopologyDefaults s) = setTopologyDefaults (setDisableCommandsDefaults s)"
  "setUpgradeOptionsDefaults (setImageDefaults s) = setImageDefaults (setUpgradeOptionsDefaults s)"
  "deriveUserSecretNames n (setImageDefaults s) = setImageDefaults (deriveUserSecretNames n s)"
  "setAuthDefaults n (setImageDefaults s) = setImageDefaults (setAuthDefaults n s)"
  "setDisableCommandsDefaults (setImageDefaults s) = setImageDefaults (setDisableCommandsDefaults s)"
  by (simp_all add: defaulting)

lemma setters_commute2:
  "deriveUserSecretNames n (setUpgradeOptionsDefaults s) = setUpgradeOptionsDefaults (deriveUserSecretNames n s)"
  "setAuthDefaults n (setUpgradeOptionsDefaults s) = setUpgradeOptionsDefaults (setAuthDefaults n s)"
  "setDisableCommandsDefaults (setUpgradeOptionsDefaults s) = setUpgradeOptionsDefaults (setDisableCommandsDefaults s)"
  "setAuthDefaults n (deriveUserSecretNames n s) = deriveUserSecretNames n (setAuthDefaults n s)"
  "setDisableCommandsDefaults (deriveUserSecretNames n s) = deriveUserSecretNames n (setDisableCommandsDefaults s)"
  "setDisableCommandsDefaults (setAuthDefaults n s) = setAuthDefaults n (setDisableCommandsDefaults s)"
  by (simp_all add: defaulting)

definition defaulted :: "string \<Rightarrow> string \<Rightarrow> ClusterSpec \<Rightarrow> ClusterSpec" where
  "defaulted own n s = setDisableCommandsDefaults (setAuthDefaults n (deriveUserSecretNames n
     (setUpgradeOptionsDefaults (setImageDefaults (setTopologyDefaults (stampCrVersion own s))))))"

lemma CheckNSetDefaults_defaulted:
  "CheckNSetDefaults own c = (validateBackupStorages (defaulted own (Name c) (Spec c)), c \<lparr> Spec := defaulted own (Name c) (Spec c) \<rparr>)"
  by (simp add: CheckNSetDefaults_def defaulted_def Let_def)

lemma defaulted_idem: "defaulted own n (defaulted own n s) = defaulted own n s"
  unfolding defaulted_def by (simp only: setters_commute setters_commute2 setters_idem stampCrVersion_idem)

lemma setter_fields:
  "CrVersion (stampCrVersion own s) = (if CrVersion s = '''' then own else CrVersion s)"
  "Shards_want (setTopologyDefaults s) = (if Shards_want s = 0 then if Mode s = ModeCluster then 3 else 1 else Shards_want s)"
  "Image (setImageDefaults s) = (if Image s = '''' then DefaultServerImage else Image s)"
  by (simp_all add: defaulting)

lemma setter_frames [simp]:
  "CrVersion (setTopologyDefaults s) = CrVersion s" "CrVersion (setImageDefaults s) = CrVersion s"
  "CrVersion (setUpgradeOptionsDefaults s) = CrVersion s" "CrVersion (deriveUserSecretNames n s) = CrVersion s"
  "CrVersion (setAuthDefaults n s) = CrVersion s" "CrVersion (setDisableCommandsDefaults s) = CrVersion s"
  "Shards_want (stampCrVersion own s) = Shards_want s" "Shards_want (setImageDefaults s) = Shards_want s"
  "Shards_want (setUpgradeOptionsDefaults s) = Shards_want s" "Shards_want (deriveUserSecretNames n s) = Shards_want s"
  "Shards_want (setAuthDefaults n s) = Shards_want s" "Shards_want (setDisableCommandsDefaults s) = Shards_want s"
  "Mode (stampCrVersion own s) = Mode s"
  "Image (stampCrVersion own s) = Image s" "Image (setTopologyDefaults s) = Image s"
  "Image (setUpgradeOptionsDefaults s) = Image s" "Image (deriveUserSecretNames n s) = Image s"
  "Image (setAuthDefaults n s) = Image s" "Image (setDisableCommandsDefaults s) = Image s"
  by (simp_all add: defaulting)

lemma setter_frames2 [simp]:
  "bk_Storages (Backup (stampCrVersion own s)) = bk_Storages (Backup s)" "bk_Schedule (Backup (stampCrVersion own s)) = bk_Schedule (Backup s)"
  "bk_Storages (Backup (setTopologyDefaults s)) = bk_Storages (Backup s)" "bk_Schedule (Backup (setTopologyDefaults s)) = bk_Schedule (Backup s)"
  "bk_Storages (Backup (setImageDefaults s)) = bk_Storages (Backup s)" "bk_Schedule (Backup (setImageDefaults s)) = bk_Schedule (Backup s)"
  "bk_Storages (Backup (setUpgradeOptionsDefaults s)) = bk_Storages (Backup s)" "bk_Schedule (Backup (setUpgradeOptionsDefaults s)) = bk_Schedule (Backup s)"
  "bk_Storages (Backup (deriveUserSecretNames n s)) = bk_Storages (Backup s)" "bk_Schedule (Backup (deriveUserSecretNames n s)) = bk_Schedule (Backup s)"
  "bk_Storages (Backup (setAuthDefaults n s)) = bk_Storages (Backup s)" "bk_Schedule (Backup (setAuthDefaults n s)) = bk_Schedule (Backup s)"
  "bk_Storages (Backup (setDisableCommandsDefaults s)) = bk_Storages (Backup s)" "bk_Schedule (Backup (setDisableCommandsDefaults s)) = bk_Schedule (Backup s)"
  by (simp_all add: defaulting)

lemma validateBackupStorages_None:
  "validateBackupStorages s = None \<longleftrightarrow>
     sch_StorageName ` set (bk_Schedule (Backup s)) \<subseteq> fst ` set (bk_Storages (Backup s))"
  by (auto simp: validateBackupStorages_def find_None_iff map_of_eq_None_iff split: option.splits dest!: find_SomeD)

text \<open>Defaulting a cluster is idempotent: a second run changes nothing and reports the same error.  It
  keeps a version, shard count or image the user set and fills in the ones left out, and it succeeds
  exactly when every schedule names a configured storage.\<close>

theorem CheckNSetDefaults_idempotent:
  "CheckNSetDefaults own (snd (CheckNSetDefaults own c)) = CheckNSetDefaults own c \<and>
   CrVersion (Spec (snd (CheckNSetDefaults own c))) = (if CrVersion (Spec c) = '''' then own else CrVersion (Spec c)) \<and>
   Shards_want (Spec (snd (CheckNSetDefaults own c))) =
     (if Shards_want (Spec c) = 0 then if Mode (Spec c) = ModeCluster then 3 else 1 else Shards_want (Spec c)) \<and>
   Image (Spec (snd (CheckNSetDefaults own c))) = (if Image (Spec c) = '''' then DefaultServerImage else Image (Spec c)) \<and>
   (fst (CheckNSetDefaults own c) = None \<longleftrightarrow>
      sch_StorageName ` set (bk_Schedule (Backup (Spec c))) \<subseteq> fst ` set (bk_Storages (Backup (Spec c))))"
proof -
  have "CheckNSetDefaults own (snd (CheckNSetDefaults own c)) = CheckNSetDefaults own c"
    by (simp add: CheckNSetDefaults_defaulted defaulted_idem)
  then show ?thesis
    by (simp add: CheckNSetDefaults_defaulted validateBackupStorages_None defaulted_def setter_fields)
qed

end
