(* ===== verification/Cluster_World.thy ===== *)
theory Cluster_World
  imports Planner Cluster_CR
begin

text \<open>
  The world the cluster controller acts in, and its status conditions and scrape
  (\<^verbatim>\<open>src/pkg/controller/perconavalkeycluster/status.go\<close>, \<^verbatim>\<open>state.go\<close>, \<^verbatim>\<open>src/pkg/k8s/status.go\<close>).

  A step runs in an environment and on a world.  The world is the cluster object in memory and the
  trace of everything the step has done so far: engine commands by address, Kubernetes writes,
  events.  The environment, the parameter \<open>E\<close> of every step, answers the calls to code that is not in
  the repository: an engine or the API server may fail any call, depending on all that happened
  before.  Theorems hold for every environment.

  Status conditions are a list keyed by type in the API; the model keeps them as a map.  Log lines
  and metrics are not modelled.
\<close>

subsection \<open>Effects\<close>

datatype Command =
    ClusterMeet string int int
  | ClusterAddSlotsRange "SlotRange list"
  | ClusterReplicate string
  | ClusterFailover FailoverMode
  | ClusterForget string
  | ClusterMigrateSlots "SlotRange list" string
  | ClusterSetConfigEpoch int
  | ConfigSet string string
  | ACLLoad

datatype EventType = EventNormal | EventWarning

datatype ApiWrite =
    DeleteNode string
  | CreateNode ValkeyNode
  | UpdateNode ValkeyNode
  | WriteStatus ClusterStatus
  | DeleteSecret string
  | WriteFinalizers "string list"
  | ApplyService Service
  | ApplySecret Secret
  | ApplyConfigMap string labels conf
  | ApplyPDB string labels int labels
  | ApplyNetworkPolicy string labels NetworkPolicy
  | ApplyCertificate string labels CertificateSpec
  | DeleteService string
  | DeletePDB string
  | DeleteNetworkPolicy string
  | PatchAnnounce string string "int option"
  | PatchAnnotation string string
  | PatchImages string string string

text \<open>The outcome of the library routine \<^verbatim>\<open>controllerutil.CreateOrUpdate\<close>, which the \<open>Apply\<close> and
  \<open>CreateNode\<close> writes stand for.\<close>

datatype OperationResult = OpCreated | OpUpdated | OpNone

text \<open>Engine commands and API writes are on the trace with their outcome; no error is \<open>None\<close>.\<close>

datatype Action =
    Engine string Command "string option"
  | Write ApiWrite "api_error option"
  | Event EventType string string

record env =
  engine :: "Action list \<Rightarrow> string \<Rightarrow> Command \<Rightarrow> string option"
  slotMigrations :: "Action list \<Rightarrow> string \<Rightarrow> (string, SlotMigration list) result"
  infoReplication :: "Action list \<Rightarrow> nat \<Rightarrow> string \<Rightarrow> string option"
  lag :: "Action list \<Rightarrow> nat \<Rightarrow> nat"
  cancelled :: "Action list \<Rightarrow> nat \<Rightarrow> bool"
  wallNow :: "Action list \<Rightarrow> int"
  api :: "Action list \<Rightarrow> ApiWrite \<Rightarrow> api_error option"
  getCluster :: "Action list \<Rightarrow> api_error option"
  opResult :: "Action list \<Rightarrow> ApiWrite \<Rightarrow> OperationResult"
  getSecret :: "Action list \<Rightarrow> string \<Rightarrow> (api_error, Secret) result"
  getService :: "Action list \<Rightarrow> string \<Rightarrow> (api_error, Service) result"
  listServices :: "Action list \<Rightarrow> labels \<Rightarrow> (api_error, Service list) result"
  listHostIPs :: "Action list \<Rightarrow> labels \<Rightarrow> (string, string list) result"
  aclList :: "Action list \<Rightarrow> string \<Rightarrow> (string, string list) result"
  randomIndex :: "Action list \<Rightarrow> nat \<Rightarrow> (string, nat) result"
  sha256 :: "string \<Rightarrow> string"
  listNodes :: "Action list \<Rightarrow> (string, ValkeyNode list) result"
  dial :: "Action list \<Rightarrow> ValkeyNode \<Rightarrow> (string \<times> string scrape_client) option"
  getLease :: "Action list \<Rightarrow> string \<Rightarrow> (api_error, Lease) result"

record world =
  cluster :: Cluster
  trace :: "Action list"

text \<open>A Go error is its text; \<open>Panic\<close> is a run-time panic.\<close>

datatype go_error = Err string | Panic

fun error_text :: "go_error \<Rightarrow> string" where
  "error_text (Err s) = s"
| "error_text Panic = ''panic''"

definition act :: "Action \<Rightarrow> world \<Rightarrow> world" where
  "act a w = w \<lparr> trace := trace w @ [a] \<rparr>"

text \<open>An engine command: the error text, if any, and the world with the command on the trace.\<close>

definition command :: "env \<Rightarrow> string \<Rightarrow> Command \<Rightarrow> world \<Rightarrow> string option \<times> world" where
  "command E addr c w = (let r = engine E (trace w) addr c in (r, act (Engine addr c r) w))"

definition apiWrite :: "env \<Rightarrow> ApiWrite \<Rightarrow> world \<Rightarrow> api_error option \<times> world" where
  "apiWrite E x w = (let r = api E (trace w) x in (r, act (Write x r) w))"

definition event :: "EventType \<Rightarrow> string \<Rightarrow> string \<Rightarrow> world \<Rightarrow> world" where
  "event t reason msg w = act (Event t reason msg) w"

definition apierrorsIsNotFound :: "api_error option \<Rightarrow> bool" where
  "apierrorsIsNotFound e \<longleftrightarrow> (case e of Some (NotFound _) \<Rightarrow> True | _ \<Rightarrow> False)"

text \<open>A loop over a slice whose body may return early with an error.\<close>

fun for_loop :: "('x \<Rightarrow> 's \<Rightarrow> world \<Rightarrow> (go_error, 's) result \<times> world) \<Rightarrow> 'x list \<Rightarrow> 's \<Rightarrow> world
    \<Rightarrow> (go_error, 's) result \<times> world" where
  "for_loop body [] s w = (Inr s, w)"
| "for_loop body (x # xs) s w =
     (case body x s w of
        (Inl e, w1) \<Rightarrow> (Inl e, w1)
      | (Inr s1, w1) \<Rightarrow> for_loop body xs s1 w1)"

subsection \<open>Scraping\<close>

definition ClientPort :: int where "ClientPort = 6379"

definition getValkeyClusterState :: "env \<Rightarrow> ValkeyNode list \<Rightarrow> world \<Rightarrow> ClusterState option" where
  "getValkeyClusterState E nodes w =
     (let scraped = List.map_filter
            (\<lambda>node. if vn_PodIP node = '''' then None
                    else case dial E (trace w) node of
                           None \<Rightarrow> None
                         | Some (addr, c) \<Rightarrow> (case ScrapeNode addr c of Inl _ \<Rightarrow> None | Inr ns \<Rightarrow> Some (Some ns))) nodes
      in if scraped = [] then None else Some (NewClusterState scraped))"

subsection \<open>Conditions\<close>

definition CondReady :: string where "CondReady = ''Ready''"
definition CondProgressing :: string where "CondProgressing = ''Progressing''"
definition CondDegraded :: string where "CondDegraded = ''Degraded''"
definition CondClusterFormed :: string where "CondClusterFormed = ''ClusterFormed''"
definition CondSlotsAssigned :: string where "CondSlotsAssigned = ''SlotsAssigned''"

lemmas cond_defs = CondReady_def CondProgressing_def CondDegraded_def CondClusterFormed_def CondSlotsAssigned_def

definition setConditionC :: "string \<Rightarrow> ConditionStatus \<Rightarrow> string \<Rightarrow> string \<Rightarrow> Cluster \<Rightarrow> Cluster" where
  "setConditionC t st reason msg c =
     c \<lparr> Status := (Status c) \<lparr> Conditions := (Conditions (Status c))
           (t \<mapsto> \<lparr> cond_status = st, cond_reason = reason, cond_message = msg, cond_generation = Generation c \<rparr>) \<rparr> \<rparr>"

definition setCondition :: "string \<Rightarrow> ConditionStatus \<Rightarrow> string \<Rightarrow> string \<Rightarrow> world \<Rightarrow> world" where
  "setCondition t st reason msg w = w \<lparr> cluster := setConditionC t st reason msg (cluster w) \<rparr>"

definition conditionTrue :: "Cluster \<Rightarrow> string \<Rightarrow> bool" where
  "conditionTrue c t \<longleftrightarrow>
     (case Conditions (Status c) t of None \<Rightarrow> False | Some cnd \<Rightarrow> cond_status cnd = ConditionTrue)"

definition deriveState :: "Cluster \<Rightarrow> State" where
  "deriveState c =
     (if Deleting c then StateReconciling
      else if conditionTrue c CondDegraded then StateDegraded
      else if conditionTrue c CondReady then StateReady
      else if conditionTrue c CondProgressing then
        (if \<not> conditionTrue c CondClusterFormed then StateInitializing else StateReconciling)
      else StateFailed)"

definition applyDerivedState :: "Cluster \<Rightarrow> Cluster" where
  "applyDerivedState c =
     (let c1 = c \<lparr> Status := (Status c) \<lparr> State := deriveState c \<rparr> \<rparr>
      in case Conditions (Status c1) CondReady of
           None \<Rightarrow> c1
         | Some r \<Rightarrow> c1 \<lparr> Status := (Status c1) \<lparr> Reason := cond_reason r, Message := cond_message r \<rparr> \<rparr>)"

text \<open>
  The status of the cluster in memory replaces the status of a freshly read copy; the copy is then
  patched.
\<close>

definition k8s_WriteStatus :: "env \<Rightarrow> world \<Rightarrow> string option \<times> world" where
  "k8s_WriteStatus E w =
     (let key = Namespace (cluster w) @ ''/'' @ Name (cluster w) in
      case getCluster E (trace w) of
        Some e \<Rightarrow> (Some (''status writeback re-fetch '' @ key @ '': '' @ api_text e), w)
      | None \<Rightarrow>
          (case apiWrite E (WriteStatus (Status (cluster w))) w of
             (None, w1) \<Rightarrow> (None, w1)
           | (Some e, w1) \<Rightarrow> (Some (''status patch '' @ key @ '': '' @ api_text e), w1)))"

definition writeStatus :: "env \<Rightarrow> world \<Rightarrow> string option \<times> world" where
  "writeStatus E w = k8s_WriteStatus E (w \<lparr> cluster := applyDerivedState (cluster w) \<rparr>)"

definition progressingReason :: "Cluster \<Rightarrow> string" where
  "progressingReason c = (if conditionTrue c CondClusterFormed then ''Reconciling'' else ''Initializing'')"

subsection \<open>Lemmas\<close>

named_theorems world_simps

lemma act_simps [simp]:
  "trace (act a w) = trace w @ [a]" "cluster (act a w) = cluster w"
  by (simp_all add: act_def)

lemma act_neq [simp]: "act a w \<noteq> w" "w \<noteq> act a w"
  by (auto simp: act_def dest: arg_cong [of _ _ trace])

lemma command_simps [simp]:
  "fst (command E addr c w) = engine E (trace w) addr c"
  "snd (command E addr c w) = act (Engine addr c (engine E (trace w) addr c)) w"
  by (simp_all add: command_def Let_def)

lemma apiWrite_simps [simp]:
  "fst (apiWrite E x w) = api E (trace w) x"
  "snd (apiWrite E x w) = act (Write x (api E (trace w) x)) w"
  by (simp_all add: apiWrite_def Let_def)

lemma event_simps [simp]:
  "trace (event t r m w) = trace w @ [Event t r m]" "cluster (event t r m w) = cluster w"
  by (simp_all add: event_def)

lemma setCondition_simps [simp]:
  "trace (setCondition t st r m w) = trace w"
  "cluster (setCondition t st r m w) = setConditionC t st r m (cluster w)"
  by (simp_all add: setCondition_def)

lemma setConditionC_spec [simp]:
  "Spec (setConditionC t st r m c) = Spec c" "Deleting (setConditionC t st r m c) = Deleting c"
  "Generation (setConditionC t st r m c) = Generation c" "Annotations (setConditionC t st r m c) = Annotations c"
  "Name (setConditionC t st r m c) = Name c"
  by (simp_all add: setConditionC_def)

lemma conditionTrue_set [simp]:
  "conditionTrue (setConditionC t st r m c) t' \<longleftrightarrow>
     (if t' = t then st = ConditionTrue else conditionTrue c t')"
  by (simp add: conditionTrue_def setConditionC_def)

lemma applyDerivedState_simps [simp]:
  "Conditions (Status (applyDerivedState c)) = Conditions (Status c)"
  "State (Status (applyDerivedState c)) = deriveState c"
  "Spec (applyDerivedState c) = Spec c" "Deleting (applyDerivedState c) = Deleting c"
  "ReadyShards (Status (applyDerivedState c)) = ReadyShards (Status c)"
  "StatusShards (Status (applyDerivedState c)) = StatusShards (Status c)"
  "LastObservedCrVersion (Status (applyDerivedState c)) = LastObservedCrVersion (Status c)"
  by (simp_all add: applyDerivedState_def Let_def split: option.split)

lemma conditionTrue_applyDerivedState [simp]: "conditionTrue (applyDerivedState c) t = conditionTrue c t"
  by (simp add: conditionTrue_def)

lemma deriveState_applyDerivedState [simp]: "deriveState (applyDerivedState c) = deriveState c"
  by (simp add: deriveState_def)

lemma writeStatus_cluster [simp]:
  "cluster (snd (writeStatus E w)) = applyDerivedState (cluster w)"
  by (simp add: writeStatus_def k8s_WriteStatus_def Let_def apiWrite_def split: option.splits)

subsection \<open>What a step may do\<close>

text \<open>
  A step only appends to the trace.  \<open>adds P w w'\<close> says so, and that every action appended satisfies
  \<open>P\<close>; the rules below build it up along a step.
\<close>

definition adds :: "(Action \<Rightarrow> bool) \<Rightarrow> world \<Rightarrow> world \<Rightarrow> bool" where
  "adds P w w' \<longleftrightarrow> (\<exists>as. trace w' = trace w @ as \<and> list_all P as)"

definition added :: "world \<Rightarrow> world \<Rightarrow> Action list" where
  "added w w' = drop (length (trace w)) (trace w')"

lemma adds_refl [simp, intro]: "adds P w w"
  by (simp add: adds_def)

lemma adds_trans: "adds P w w' \<Longrightarrow> adds P w' w'' \<Longrightarrow> adds P w w''"
  by (fastforce simp: adds_def)

lemma adds_mono: "adds P w w' \<Longrightarrow> (\<And>a. P a \<Longrightarrow> Q a) \<Longrightarrow> adds Q w w'"
  by (auto simp: adds_def list_all_iff)

lemma adds_any: "adds P w w' \<Longrightarrow> adds (\<lambda>_. True) w w'"
  by (erule adds_mono) simp

lemma adds_same: "trace w' = trace w \<Longrightarrow> adds P w w'"
  by (simp add: adds_def)

lemma adds_act [simp]: "P a \<Longrightarrow> adds P w (act a w)"
  by (simp add: adds_def)

lemma adds_act_right: "adds P w w' \<Longrightarrow> P a \<Longrightarrow> adds P w (act a w')"
  by (rule adds_trans) auto

lemma adds_left_trace [simp]: "adds P (w \<lparr> cluster := c \<rparr>) w' = adds P w w'"
  by (simp add: adds_def)

lemma adds_right_trace [simp]: "adds P w (w' \<lparr> cluster := c \<rparr>) = adds P w w'"
  by (simp add: adds_def)

lemma adds_setCondition [simp]:
  "adds P w (setCondition t st r m w') = adds P w w'" "adds P (setCondition t st r m w) w' = adds P w w'"
  by (simp_all add: setCondition_def)

lemma adds_event: "adds P w w' \<Longrightarrow> P (Event t r m) \<Longrightarrow> adds P w (event t r m w')"
  by (simp add: event_def adds_act_right)

lemma adds_command:
  "adds P w w' \<Longrightarrow> command E addr c w' = (r, w'') \<Longrightarrow> P (Engine addr c r) \<Longrightarrow> adds P w w''"
  by (auto simp: command_def Let_def intro: adds_act_right)

lemma adds_apiWrite:
  "adds P w w' \<Longrightarrow> apiWrite E x w' = (r, w'') \<Longrightarrow> P (Write x r) \<Longrightarrow> adds P w w''"
  by (auto simp: apiWrite_def Let_def intro: adds_act_right)

lemma adds_writeStatus:
  assumes "adds P w w'" "writeStatus E w' = (r, w'')" "\<And>s r. P (Write (WriteStatus s) r)"
  shows "adds P w w''"
  using assms by (auto simp: writeStatus_def k8s_WriteStatus_def Let_def apiWrite_def intro: adds_act_right
      split: option.splits)

lemma adds_added: "adds P w w' \<Longrightarrow> trace w' = trace w @ added w w' \<and> list_all P (added w w')"
  by (auto simp: adds_def added_def)

lemma adds_iff: "adds P w w' \<longleftrightarrow> trace w' = trace w @ added w w' \<and> list_all P (added w w')"
  using adds_added by (auto simp: adds_def)

lemma added_refl [simp]: "added w w = []"
  by (simp add: added_def)

lemma added_trans: "adds P w w' \<Longrightarrow> adds Q w' w'' \<Longrightarrow> added w w'' = added w w' @ added w' w''"
  by (auto simp: adds_def added_def)

lemma added_act [simp]: "adds P w w' \<Longrightarrow> added w (act a w') = added w w' @ [a]"
  by (auto simp: adds_def added_def)

text \<open>The invariant rule for loops that may return early.\<close>

lemma for_loop_rule:
  assumes "I s w"
    and "\<And>x s w e w'. x \<in> set xs \<Longrightarrow> I s w \<Longrightarrow> body x s w = (Inl e, w') \<Longrightarrow> Q e w'"
    and "\<And>x s w s' w'. x \<in> set xs \<Longrightarrow> I s w \<Longrightarrow> body x s w = (Inr s', w') \<Longrightarrow> I s' w'"
  shows "(\<forall>e w'. for_loop body xs s w = (Inl e, w') \<longrightarrow> Q e w') \<and>
         (\<forall>s' w'. for_loop body xs s w = (Inr s', w') \<longrightarrow> I s' w')"
  using assms
proof (induction xs arbitrary: s w)
  case Nil
  then show ?case by simp
next
  case (Cons x xs)
  obtain r w1 where step: "body x s w = (r, w1)" by (cases "body x s w")
  show ?case
  proof (cases r)
    case (Inl e)
    have "Q e w1" using Cons.prems(2) [of x s w e w1] Cons.prems(1) step Inl by simp
    then show ?thesis using step Inl by simp
  next
    case (Inr s1)
    have "I s1 w1" using Cons.prems(3) [of x s w s1 w1] Cons.prems(1) step Inr by simp
    then have "(\<forall>e w'. for_loop body xs s1 w1 = (Inl e, w') \<longrightarrow> Q e w') \<and>
         (\<forall>s' w'. for_loop body xs s1 w1 = (Inr s', w') \<longrightarrow> I s' w')"
      by (rule Cons.IH) (erule (2) Cons.prems(2) [OF list.set_intros(2)] Cons.prems(3) [OF list.set_intros(2)])+
    then show ?thesis using step Inr by simp
  qed
qed

lemma for_loop_no_panic:
  assumes "\<And>x s w w'. body x s w \<noteq> (Inl Panic, w')"
  shows "for_loop body xs s w \<noteq> (Inl Panic, w')"
  using assms by (induction xs arbitrary: s w) (auto split: prod.split sum.split)

lemma for_loop_adds:
  assumes "\<And>x s w r w'. x \<in> set xs \<Longrightarrow> body x s w = (r, w') \<Longrightarrow> adds P w w'"
  shows "adds P w (snd (for_loop body xs s w))"
  using assms
proof (induction xs arbitrary: s w)
  case (Cons x xs)
  obtain r w1 where step: "body x s w = (r, w1)" by (cases "body x s w")
  have "adds P w w1" using Cons.prems [of x] step by simp
  moreover have "adds P w1 (snd (for_loop body xs s1 w1))" for s1
    by (rule Cons.IH) (erule (1) Cons.prems [OF list.set_intros(2)])
  ultimately show ?case using step by (auto split: sum.split intro: adds_trans)
qed simp

text \<open>What every successful round of a loop does is on the trace of a loop that ends without an error.\<close>

lemma for_loop_each:
  assumes run: "for_loop body xs s w = (Inr s', w')" and J: "J w"
    and ext: "\<And>x s w r w'. x \<in> set xs \<Longrightarrow> J w \<Longrightarrow> body x s w = (r, w') \<Longrightarrow> adds (\<lambda>_. True) w w' \<and> J w'"
    and each: "\<And>x s w s' w'. x \<in> set xs \<Longrightarrow> J w \<Longrightarrow> body x s w = (Inr s', w') \<Longrightarrow> A x \<subseteq> set (added w w')"
    and x: "x \<in> set xs"
  shows "A x \<subseteq> set (added w w') \<and> adds (\<lambda>_. True) w w'"
proof -
  have "(\<forall>x \<in> set xs. A x \<subseteq> set (added w w')) \<and> adds (\<lambda>_. True) w w'"
    using run J ext each
  proof (induction xs arbitrary: s w)
    case (Cons y ys)
    from Cons.prems(1) obtain s1 w1 where step: "body y s w = (Inr s1, w1)"
      and rest: "for_loop body ys s1 w1 = (Inr s', w')"
      by (auto split: prod.splits sum.splits)
    have 1: "adds (\<lambda>_. True) w w1" "J w1" "A y \<subseteq> set (added w w1)"
      using Cons.prems(3) [OF list.set_intros(1) Cons.prems(2) step] Cons.prems(4) [OF list.set_intros(1) Cons.prems(2) step]
      by auto
    have 2: "(\<forall>x \<in> set ys. A x \<subseteq> set (added w1 w')) \<and> adds (\<lambda>_. True) w1 w'"
      by (rule Cons.IH [OF rest 1(2)]) (erule (2) Cons.prems(3,4) [OF list.set_intros(2)])+
    have "added w w' = added w w1 @ added w1 w'" using 1(1) 2 by (auto intro: added_trans)
    then show ?case using 1 2 by (auto intro: adds_trans)
  qed simp
  then show ?thesis using x by simp
qed

subsection \<open>Topology changes\<close>

text \<open>
  The kind of topology change an action makes.  Refused commands, introductions (\<open>CLUSTER MEET\<close>), config
  epochs, events and status writes make none.
\<close>

datatype kind = Promotion | Forgetting | Assigning | Attaching | Moving | Removing | Creating | Rolling

fun change :: "Action \<Rightarrow> kind option" where
  "change (Engine _ (ClusterFailover _) None) = Some Promotion"
| "change (Engine _ (ClusterForget _) None) = Some Forgetting"
| "change (Engine _ (ClusterAddSlotsRange _) None) = Some Assigning"
| "change (Engine _ (ClusterReplicate _) None) = Some Attaching"
| "change (Engine _ (ClusterMigrateSlots _ _) None) = Some Moving"
| "change (Write (DeleteNode _) None) = Some Removing"
| "change (Write (CreateNode _) None) = Some Creating"
| "change (Write (UpdateNode _) None) = Some Rolling"
| "change _ = None"

abbreviation quiet :: "Action \<Rightarrow> bool" where
  "quiet a \<equiv> change a = None"

definition only :: "kind set \<Rightarrow> Action \<Rightarrow> bool" where
  "only K a \<longleftrightarrow> set_option (change a) \<subseteq> K"

lemma change_None [simp]:
  "change (Event t r m) = None" "change (Write (WriteStatus s) r') = None"
  "change (Engine addr (ClusterMeet h p b) e) = None" "change (Engine addr (ClusterSetConfigEpoch i) e) = None"
  "change (Engine addr c (Some e')) = None" "change (Write x (Some e'')) = None"
  "change (Write (DeleteSecret n) r') = None" "change (Write (WriteFinalizers fs) r') = None"
  "change (Engine addr (ConfigSet k v) e) = None" "change (Engine addr ACLLoad e) = None"
  "change (Write (ApplyService svc) r') = None" "change (Write (ApplySecret sec) r') = None"
  "change (Write (ApplyConfigMap n l d) r') = None" "change (Write (ApplyPDB n l i l') r') = None"
  "change (Write (ApplyNetworkPolicy n l np) r') = None" "change (Write (ApplyCertificate n l crt) r') = None"
  "change (Write (DeleteService n) r') = None" "change (Write (DeletePDB n) r') = None"
  "change (Write (DeleteNetworkPolicy n) r') = None" "change (Write (PatchAnnounce n h pt) r') = None"
  "change (Write (PatchAnnotation k v) r') = None" "change (Write (PatchImages i1 i2 i3) r') = None"
  by simp_all

lemma only_quiet: "quiet a \<Longrightarrow> only K a"
  by (simp add: only_def)

lemma only_simps [simp]:
  "only K (Event t r m)" "only K (Write (WriteStatus s) r')" "only K (Engine addr (ClusterMeet h p b) e)"
  "only K (Engine addr (ClusterSetConfigEpoch i) e)" "only K (Engine addr c (Some e'))" "only K (Write x (Some e''))"
  "only K (Write (DeleteSecret n) r')" "only K (Write (WriteFinalizers fs) r')"
  by (simp_all add: only_def)

lemma only_kinds:
  "Promotion \<in> K \<Longrightarrow> only K (Engine addr (ClusterFailover m) e)"
  "Forgetting \<in> K \<Longrightarrow> only K (Engine addr (ClusterForget nid) e)"
  "Assigning \<in> K \<Longrightarrow> only K (Engine addr (ClusterAddSlotsRange rs) e)"
  "Attaching \<in> K \<Longrightarrow> only K (Engine addr (ClusterReplicate nid) e)"
  "Moving \<in> K \<Longrightarrow> only K (Engine addr (ClusterMigrateSlots rs nid) e)"
  "Removing \<in> K \<Longrightarrow> only K (Write (DeleteNode n) r)"
  "Creating \<in> K \<Longrightarrow> only K (Write (CreateNode v) r)"
  "Rolling \<in> K \<Longrightarrow> only K (Write (UpdateNode v) r)"
  by (cases e; cases r; simp add: only_def)+

lemma adds_only_mono: "adds (only K) w w' \<Longrightarrow> K \<subseteq> L \<Longrightarrow> adds (only L) w w'"
  by (erule adds_mono) (auto simp: only_def)

lemma adds_quiet_only: "adds quiet w w' \<Longrightarrow> adds (only K) w w'"
  by (erule adds_mono) (simp add: only_quiet)

text \<open>
  The loops of the phases count what they did from \<open>z = 0\<close>, or set a flag that is initially \<open>z = False\<close>;
  both are orders.  Where a loop ends with \<open>z\<close>, it changed nothing.
\<close>

definition tallied :: "kind set \<Rightarrow> 's::order \<Rightarrow> 's \<Rightarrow> world \<Rightarrow> (go_error, 's) result \<times> world \<Rightarrow> bool" where
  "tallied K z s w res \<longleftrightarrow> adds (only K) w (snd res) \<and>
     (z \<le> s \<longrightarrow> (case fst res of Inl _ \<Rightarrow> True | Inr s' \<Rightarrow> z \<le> s' \<and> (s' = z \<longrightarrow> s = z \<and> adds quiet w (snd res))))"

lemma tallied_for_loop:
  assumes "\<And>x s w. x \<in> set xs \<Longrightarrow> tallied K z s w (body x s w)"
  shows "tallied K z z w (for_loop body xs z w)"
proof -
  let ?I = "\<lambda>s' w'. adds (only K) w w' \<and> z \<le> s' \<and> (s' = z \<longrightarrow> adds quiet w w')"
  have "(\<forall>e w'. for_loop body xs z w = (Inl e, w') \<longrightarrow> adds (only K) w w') \<and>
        (\<forall>s' w'. for_loop body xs z w = (Inr s', w') \<longrightarrow> ?I s' w')"
  proof (rule for_loop_rule)
    show "?I z w" by simp
  next
    fix x s1 w1 e w'
    assume "x \<in> set xs" "?I s1 w1" "body x s1 w1 = (Inl e, w')"
    with assms [of x s1 w1] show "adds (only K) w w'" by (auto simp: tallied_def intro: adds_trans)
  next
    fix x s1 w1 s2 w'
    assume a: "x \<in> set xs" "?I s1 w1" "body x s1 w1 = (Inr s2, w')"
    with assms [of x s1 w1] have b: "adds (only K) w1 w'" "z \<le> s2" "s2 = z \<longrightarrow> s1 = z \<and> adds quiet w1 w'"
      by (auto simp: tallied_def)
    with a show "?I s2 w'" by (blast intro: adds_trans)
  qed
  then show ?thesis by (cases "for_loop body xs z w"; cases "fst (for_loop body xs z w)") (auto simp: tallied_def)
qed

lemma tallied_report:
  assumes "tallied K z s w res"
  shows "tallied K z s w (case res of
           (Inl e, w1) \<Rightarrow> (Inl e, w1)
         | (Inr n, w1) \<Rightarrow> (Inr n, if P n then event t r (m n) w1 else w1))"
  using assms by (cases res; cases "fst res") (auto simp: tallied_def adds_event)

lemma tallied_done [simp]: "tallied K z s w (Inr s, w)" "tallied K z s w (Inl e, w)"
  by (simp_all add: tallied_def)

lemma tallied_confined: "tallied K z s w res \<Longrightarrow> adds (only K) w (snd res)"
  by (simp add: tallied_def)

lemma tallied_idle: "tallied K z z w res \<Longrightarrow> fst res = Inr z \<Longrightarrow> adds quiet w (snd res)"
  by (simp add: tallied_def)

text \<open>
  A phase of a pass: what it changes is of the kinds \<open>K\<close> and, if it reports that it did nothing, it
  changed nothing.  A phase that reports nothing hands over to the next one, so two phases in sequence
  change kinds of the first or kinds of the second, never both.
\<close>

locale phase =
  fixes run :: "world \<Rightarrow> 'r \<times> world" and nothing :: "'r \<Rightarrow> bool" and K :: "kind set"
  assumes confined: "adds (only K) w (snd (run w))"
    and idle: "nothing (fst (run w)) \<Longrightarrow> adds quiet w (snd (run w))"
begin

lemma then_exclusive:
  assumes "run w = (r, w1)" "nothing r" "adds (only L) w1 w2"
  shows "adds (only L) w w2"
proof -
  have "adds quiet w w1" using idle [of w] assms(1,2) by simp
  then show ?thesis using assms(3) adds_trans adds_quiet_only by blast
qed

lemma then_quiet:
  assumes "run w = (r, w1)" "nothing r" "adds quiet w1 w2"
  shows "adds quiet w w2"
  using idle [of w] assms adds_trans by auto

lemma confined_eq: "run w = (r, w1) \<Longrightarrow> adds (only K) w w1"
  using confined [of w] by simp

end

subsection \<open>Sample worlds\<close>

definition calm :: env where
  "calm = \<lparr> engine = (\<lambda>_ _ _. None), slotMigrations = (\<lambda>_ _. Inr []), infoReplication = (\<lambda>_ _ _. Some ''role:master''),
     lag = (\<lambda>_ _. 0), cancelled = (\<lambda>_ _. False), wallNow = (\<lambda>_. 0), api = (\<lambda>_ _. None), getCluster = (\<lambda>_. None),
     opResult = (\<lambda>_ _. OpCreated), getSecret = (\<lambda>_ n. Inl (NotFound n)), getService = (\<lambda>_ n. Inl (NotFound n)),
     listServices = (\<lambda>_ _. Inr []), listHostIPs = (\<lambda>_ _. Inr []), aclList = (\<lambda>_ _. Inr []),
     randomIndex = (\<lambda>_ _. Inr 0), sha256 = (\<lambda>s. s), listNodes = (\<lambda>_. Inr []), dial = (\<lambda>_ _. None), getLease = (\<lambda>_ n. Inl (NotFound n)) \<rparr>"

definition sample_spec :: ClusterSpec where
  "sample_spec = \<lparr> CrVersion = ''0.1'', Image = ''percona/valkey:9.1.0'', Mode = ModeCluster, Shards_want = 2, Replicas = 1,
     PersistenceSpec = None, ConfigSpec = [], Users = [], Auth = None, TLSSpec = None, DisableCommandsSpec = None,
     Expose = None, Backup = \<lparr> bk_Image = '''', bk_ServiceAccountName = '''', bk_Storages = [], bk_Schedule = [] \<rparr>,
     Upgrade = \<lparr> up_Apply = '''', up_Schedule = '''', up_VersionServiceEndpoint = '''' \<rparr>,
     Exporter = \<lparr> ex_Enabled = True, ex_Image = '''' \<rparr>, PodDisruptionBudget = PDBManaged, NetworkPolicyOf = None, PodTemplate = '''' \<rparr>"

definition sample_cluster :: Cluster where
  "sample_cluster = \<lparr> Name = ''c'', Namespace = ''ns'', Generation = 1, Deleting = False, Finalizers = [],
     Annotations = Map.empty, Spec = sample_spec,
     Status = \<lparr> Conditions = Map.empty, State = StateInitializing, Reason = '''', Message = '''', StatusShards = 0,
       ReadyShards = 0, ObservedGeneration = 0, LastObservedCrVersion = '''', Host = '''' \<rparr> \<rparr>"

definition sample_world :: world where
  "sample_world = \<lparr> cluster = sample_cluster, trace = [] \<rparr>"

definition sample_vnode :: "string \<Rightarrow> int \<Rightarrow> int \<Rightarrow> string \<Rightarrow> ValkeyNode" where
  "sample_vnode name shard idx ip =
     \<lparr> vn_Name = name, vn_Labels = ClusterTopologyLabels ''c'' shard idx, vn_Annotations = Map.empty, vn_Generation = 1,
       vn_Deleting = False,
       vn_Spec = \<lparr> ns_Image = ''percona/valkey:9.1.0'', ns_Persistence = None, ns_Config = [], ns_TLS = None,
         ns_ServerConfigMapName = '''', ns_ServerConfigHash = ''h'', ns_ACLSecretName = '''', ns_AnnounceHost = '''',
         ns_AnnouncePort = None, ns_RestoreFrom = None, ns_Exporter = \<lparr> ex_Enabled = True, ex_Image = '''' \<rparr>,
         ns_PodTemplate = '''' \<rparr>,
       vn_PodIP = ip, vn_Ready = True, vn_ObservedGeneration = 1 \<rparr>"

end
