(* ===== verification/Bootstrap.thy ===== *)
theory Bootstrap
  imports Cluster_World "HOL-Library.Sublist"
begin

text \<open>
  Forming a cluster (\<^verbatim>\<open>src/pkg/controller/perconavalkeycluster/bootstrap.go\<close>): introducing isolated
  nodes, giving the unassigned slots to the pending primaries, attaching the pending replicas, and
  re-introducing every reachable node after its address changed.

  Slots are assigned with one command per primary.  The theorems show that the commands a pass issues
  are disjoint, that all they assign was unassigned, and that a pass that does not fail assigns every
  unassigned slot, to pending primaries only.
\<close>

subsection \<open>Positions\<close>

record nodePosition =
  np_shard :: int
  np_node :: int

definition np_isPrimary :: "nodePosition \<Rightarrow> bool" where
  "np_isPrimary p \<longleftrightarrow> np_node p = 0"

type_synonym positions = "string \<rightharpoonup> nodePosition"

definition nodePosition_of :: "ValkeyNode \<Rightarrow> nodePosition option" where
  "nodePosition_of node =
     (case (Atoi (lookup (vn_Labels node) LabelShardIndex), Atoi (lookup (vn_Labels node) LabelNodeIndex)) of
        ((shard, None), (idx, None)) \<Rightarrow> Some \<lparr> np_shard = shard, np_node = idx \<rparr>
      | _ \<Rightarrow> None)"

definition positionsByIP_add :: "positions \<Rightarrow> ValkeyNode \<Rightarrow> positions" where
  "positionsByIP_add out node =
     (if vn_PodIP node = '''' then out
      else case nodePosition_of node of
             None \<Rightarrow> out
           | Some p \<Rightarrow> out(vn_PodIP node \<mapsto> p))"

definition positionsByIP :: "ValkeyNode list \<Rightarrow> positions" where
  "positionsByIP nodes = foldl positionsByIP_add Map.empty nodes"

definition positionFor :: "positions \<Rightarrow> NodeState \<Rightarrow> nodePosition option" where
  "positionFor pos n = pos (TrimSuffix (Addr n) ('':'' @ Itoa ClientPort))"

definition hostFromAddr :: "string \<Rightarrow> string" where
  "hostFromAddr addr = (case before_last (CHR '':'') addr of Some h \<Rightarrow> h | None \<Rightarrow> addr)"

definition BusPortNumber :: int where "BusPortNumber = 16379"

subsection \<open>Introducing nodes\<close>

definition isolatedPendingNodes :: "ClusterState \<Rightarrow> NodeState list" where
  "isolatedPendingNodes st = sort_key Addr (filter IsIsolated (PendingNodes st))"

definition meetTarget :: "ClusterState \<Rightarrow> NodeState list \<Rightarrow> NodeState option" where
  "meetTarget st isolated =
     (case List.map_filter Shard_Primary (Shards st) of
        p # _ \<Rightarrow> Some p
      | [] \<Rightarrow> (case find (\<lambda>n. \<not> IsIsolated n) (PendingNodes st) of
                 Some n \<Rightarrow> Some n
               | None \<Rightarrow> (case isolated of [] \<Rightarrow> None | n # _ \<Rightarrow> Some n)))"

definition setEpoch_body :: "env \<Rightarrow> int \<Rightarrow> int \<times> NodeState \<Rightarrow> unit \<Rightarrow> world \<Rightarrow> (go_error, unit) result \<times> world" where
  "setEpoch_body E currentEpoch x u w =
     (case x of (i, n) \<Rightarrow>
        if \<not> client n then (Inr (), w)
        else case command E (Addr n) (ClusterSetConfigEpoch (currentEpoch + i + 1)) w of (_, w1) \<Rightarrow> (Inr (), w1))"

definition meet_body :: "env \<Rightarrow> NodeState \<Rightarrow> NodeState \<Rightarrow> int \<Rightarrow> world \<Rightarrow> (go_error, int) result \<times> world" where
  "meet_body E target n met w =
     (if \<not> client n then (Inr met, w)
      else case command E (Addr n) (ClusterMeet (hostFromAddr (Addr target)) ClientPort BusPortNumber) w of
             (Some e, w1) \<Rightarrow> (Inl (Err (''CLUSTER MEET '' @ Addr n @ '' -> '' @ Addr target @ '': '' @ e)), w1)
           | (None, w1) \<Rightarrow>
               (case command E (Addr target) (ClusterMeet (hostFromAddr (Addr n)) ClientPort BusPortNumber) w1 of
                  (Some e, w2) \<Rightarrow> (Inl (Err (''CLUSTER MEET '' @ Addr target @ '' -> '' @ Addr n @ '': '' @ e)), w2)
                | (None, w2) \<Rightarrow> (Inr (met + 1), w2)))"

text \<open>
  The code compares the target with the first isolated node by pointer.  The two kinds of target other
  than that node differ from it in value as well, so comparing the records is the same test.
\<close>

definition meetIsolatedNodes :: "env \<Rightarrow> ClusterState \<Rightarrow> world \<Rightarrow> (go_error, int) result \<times> world" where
  "meetIsolatedNodes E st w =
     (let isolated = isolatedPendingNodes st in
      if isolated = [] then (Inr 0, w)
      else case meetTarget st isolated of
        None \<Rightarrow> (Inr 0, w)
      | Some target \<Rightarrow>
          if \<not> client target then (Inr 0, w)
          else case for_loop (setEpoch_body E (CurrentEpoch target)) (zip [0..int (length isolated) - 1] isolated) () w of
            (_, w1) \<Rightarrow>
              (case for_loop (meet_body E target) (if target = hd isolated then tl isolated else isolated) 0 w1 of
                 (Inl e, w2) \<Rightarrow> (Inl e, w2)
               | (Inr met, w2) \<Rightarrow>
                   (Inr met, if met > 0
                             then event EventNormal ''ClusterMeetBatch'' (''MEET introduced '' @ Itoa met @ '' node(s)'') w2
                             else w2)))"

definition meetAll_body :: "env \<Rightarrow> NodeState \<Rightarrow> NodeState \<Rightarrow> int \<Rightarrow> world \<Rightarrow> (go_error, int) result \<times> world" where
  "meetAll_body E target n met w =
     (case command E (Addr target) (ClusterMeet (hostFromAddr (Addr n)) ClientPort BusPortNumber) w of
        (Some _, w1) \<Rightarrow> (Inr met, w1)
      | (None, w1) \<Rightarrow>
          (case command E (Addr n) (ClusterMeet (hostFromAddr (Addr target)) ClientPort BusPortNumber) w1 of
             (Some _, w2) \<Rightarrow> (Inr met, w2)
           | (None, w2) \<Rightarrow> (Inr (met + 1), w2)))"

definition meetAllReachable :: "env \<Rightarrow> ClusterState \<Rightarrow> bool \<Rightarrow> (int \<Rightarrow> string) \<Rightarrow> world \<Rightarrow> int \<times> world" where
  "meetAllReachable E st skipKnownNodesGuard progressMsg w =
     (let reachable = sort_key Addr (filter client (Nodes st)) in
      if length reachable < 2 then (0, w)
      else if \<not> skipKnownNodesGuard \<and> list_all (\<lambda>n. \<not> KnownNodes n < int (length reachable)) reachable then (0, w)
      else case for_loop (meetAll_body E (hd reachable)) (tl reachable) 0 w of
             (Inl _, w1) \<Rightarrow> (0, w1)
           | (Inr met, w1) \<Rightarrow>
               (met, if met > 0 then event EventNormal ''ClusterMeetBatch'' (progressMsg met) w1 else w1))"

definition repairStaleGossip :: "env \<Rightarrow> ClusterState \<Rightarrow> world \<Rightarrow> int \<times> world" where
  "repairStaleGossip E st w =
     meetAllReachable E st True (\<lambda>n. ''gossip repair: re-MEET '' @ Itoa n @ '' node(s) at current addresses'') w"

subsection \<open>Assigning slots\<close>

definition pendingPrimaries :: "ClusterState \<Rightarrow> positions \<Rightarrow> bool \<Rightarrow> NodeState list" where
  "pendingPrimaries st pos allowIsolated =
     sort_key Addr (filter (\<lambda>n. \<not> (IsIsolated n \<and> \<not> allowIsolated) \<and>
       (case positionFor pos n of None \<Rightarrow> False | Some p \<Rightarrow> np_isPrimary p)) (PendingNodes st))"

definition assign_body :: "env \<Rightarrow> SlotRange list \<times> NodeState \<Rightarrow> int \<Rightarrow> world \<Rightarrow> (go_error, int) result \<times> world" where
  "assign_body E x assigned w =
     (case x of (ranges, p) \<Rightarrow>
        if ranges = [] \<or> \<not> client p then (Inr assigned, w)
        else case command E (Addr p) (ClusterAddSlotsRange ranges) w of
               (Some e, w1) \<Rightarrow>
                 (Inl (Err (''CLUSTER ADDSLOTSRANGE '' @ FormatSlotRanges ranges @ '' -> '' @ Addr p @ '': '' @ e)), w1)
             | (None, w1) \<Rightarrow> (Inr (assigned + 1), w1))"

definition assignSlotsToPendingPrimaries ::
  "env \<Rightarrow> ClusterState \<Rightarrow> ValkeyNode list \<Rightarrow> world \<Rightarrow> (go_error, int) result \<times> world" where
  "assignSlotsToPendingPrimaries E st nodes w =
     (let spec = Spec (cluster w);
          primaries = pendingPrimaries st (positionsByIP nodes) (Shards_want spec = 1 \<and> Replicas spec = 0);
          unassigned = GetUnassignedSlots st in
      if primaries = [] \<or> unassigned = [] then (Inr 0, w)
      else case SplitUnassignedEvenly unassigned (int (length primaries)) of
        None \<Rightarrow> (Inl Panic, w)
      | Some plans \<Rightarrow>
          (case for_loop (assign_body E) (zip plans primaries) 0 w of
             (Inl e, w1) \<Rightarrow> (Inl e, w1)
           | (Inr assigned, w1) \<Rightarrow>
               (Inr assigned, if assigned > 0
                  then event EventNormal ''PrimariesCreated'' (''Assigned slots to '' @ Itoa assigned @ '' primary(ies)'') w1
                  else w1)))"

subsection \<open>Attaching replicas\<close>

definition addPendingPrimaryID :: "positions \<Rightarrow> (int \<rightharpoonup> string) \<Rightarrow> NodeState \<Rightarrow> (int \<rightharpoonup> string)" where
  "addPendingPrimaryID pos out p =
     (if \<not> IsPrimary p then out
      else case pos (hostFromAddr (Addr p)) of
             None \<Rightarrow> out
           | Some q \<Rightarrow> if np_isPrimary q then out(np_shard q \<mapsto> ID p) else out)"

definition addShardPrimaryID :: "positions \<Rightarrow> (int \<rightharpoonup> string) \<Rightarrow> ShardState \<Rightarrow> (int \<rightharpoonup> string)" where
  "addShardPrimaryID pos out shard =
     (case Shard_Primary shard of
        None \<Rightarrow> out
      | Some p \<Rightarrow> (case pos (hostFromAddr (Addr p)) of None \<Rightarrow> out | Some q \<Rightarrow> out(np_shard q \<mapsto> ID p)))"

definition shardPrimaryIDs :: "ClusterState \<Rightarrow> positions \<Rightarrow> (int \<rightharpoonup> string)" where
  "shardPrimaryIDs st pos =
     foldl (addShardPrimaryID pos) (foldl (addPendingPrimaryID pos) Map.empty (PendingNodes st)) (Shards st)"

definition replicate_body ::
  "env \<Rightarrow> positions \<Rightarrow> (int \<rightharpoonup> string) \<Rightarrow> NodeState \<Rightarrow> int \<Rightarrow> world \<Rightarrow> (go_error, int) result \<times> world" where
  "replicate_body E pos primaryIDByShard n replicated w =
     (if IsIsolated n \<or> \<not> client n then (Inr replicated, w)
      else case positionFor pos n of
        None \<Rightarrow> (Inr replicated, w)
      | Some p \<Rightarrow>
          if np_isPrimary p then (Inr replicated, w)
          else case primaryIDByShard (np_shard p) of
            None \<Rightarrow> (Inr replicated, w)
          | Some primaryID \<Rightarrow>
              if primaryID = '''' then (Inr replicated, w)
              else case command E (Addr n) (ClusterReplicate primaryID) w of
                     (None, w1) \<Rightarrow> (Inr (replicated + 1), w1)
                   | (Some e, w1) \<Rightarrow>
                       if Contains (ToLower e) ''unknown node'' then (Inr replicated, w1)
                       else (Inl (Err (''CLUSTER REPLICATE '' @ Addr n @ '' -> '' @ primaryID @ '': '' @ e)), w1))"

definition replicatePendingReplicas ::
  "env \<Rightarrow> ClusterState \<Rightarrow> ValkeyNode list \<Rightarrow> world \<Rightarrow> (go_error, int) result \<times> world" where
  "replicatePendingReplicas E st nodes w =
     (let pos = positionsByIP nodes in
      case for_loop (replicate_body E pos (shardPrimaryIDs st pos)) (PendingNodes st) 0 w of
        (Inl e, w1) \<Rightarrow> (Inl e, w1)
      | (Inr replicated, w1) \<Rightarrow>
          (Inr replicated, if replicated > 0
             then event EventNormal ''ReplicasAttached'' (''Attached '' @ Itoa replicated @ '' replica(s)'') w1
             else w1))"

subsection \<open>The phases of forming a cluster\<close>

lemma setEpoch_tallied: "tallied {} () u w (setEpoch_body E ep x u w)"
  by (cases x) (auto simp: setEpoch_body_def tallied_def command_def Let_def)

lemma meet_tallied: "tallied {} 0 met w (meet_body E target n met w)"
  by (auto simp: meet_body_def tallied_def command_def Let_def adds_act_right split: option.split)

lemma meetAll_tallied: "tallied {} 0 met w (meetAll_body E target n met w)"
  by (auto simp: meetAll_body_def tallied_def command_def Let_def adds_act_right split: option.split)

lemma assign_tallied: "tallied {Assigning} 0 assigned w (assign_body E x assigned w)"
  by (cases x) (auto simp: assign_body_def tallied_def command_def Let_def only_kinds split: option.split)

lemma replicate_tallied: "tallied {Attaching} 0 n w (replicate_body E pos ids x n w)"
  by (auto simp: replicate_body_def tallied_def command_def Let_def only_kinds split: option.split)

lemma only_empty: "adds (only {}) w w' \<longleftrightarrow> adds quiet w w'"
  by (simp add: adds_def only_def[abs_def])

lemma adds_event_after: "adds (only K) w w' \<Longrightarrow> adds (only K) w (event t r m w')"
  by (simp add: adds_event)

lemma loop_quiet:
  assumes "\<And>x s w. tallied {} z s w (body x s w)" "for_loop body xs s w = (r, w')"
  shows "adds quiet w w'"
proof -
  have "adds quiet w1 w2" if "body x s1 w1 = (r1, w2)" for x s1 w1 r1 w2
    using tallied_confined [OF assms(1) [of s1 w1 x]] that by (simp add: only_empty)
  then have "adds quiet w (snd (for_loop body xs s w))" by (rule for_loop_adds)
  with assms(2) show ?thesis by simp
qed

lemmas setEpoch_loop_quiet = loop_quiet [OF setEpoch_tallied]
lemmas meet_loop_quiet = loop_quiet [OF meet_tallied]
lemmas meetAll_loop_quiet = loop_quiet [OF meetAll_tallied]

lemma meetIsolatedNodes_quiet: "adds quiet w (snd (meetIsolatedNodes E st w))"
  by (auto simp: meetIsolatedNodes_def Let_def intro!: adds_event dest!: setEpoch_loop_quiet meet_loop_quiet
      intro: adds_trans split: option.split prod.split sum.split)

lemma meetAllReachable_quiet: "adds quiet w (snd (meetAllReachable E st g msg w))"
  by (auto simp: meetAllReachable_def Let_def intro!: adds_event dest!: meetAll_loop_quiet split: prod.split sum.split)

lemma assign_tallied_all: "tallied {Assigning} 0 0 w (assignSlotsToPendingPrimaries E st nodes w)"
proof -
  have "tallied {Assigning} 0 0 w (for_loop (assign_body E) xs 0 w)" for xs
    by (rule tallied_for_loop) (rule assign_tallied)
  then show ?thesis
    by (simp add: assignSlotsToPendingPrimaries_def Let_def tallied_report split: option.split)
qed

lemma replicate_tallied_all: "tallied {Attaching} 0 0 w (replicatePendingReplicas E st nodes w)"
proof -
  have "tallied {Attaching} 0 0 w (for_loop (replicate_body E pos ids) xs 0 w)" for pos ids xs
    by (rule tallied_for_loop) (rule replicate_tallied)
  then show ?thesis
    by (simp add: replicatePendingReplicas_def Let_def tallied_report)
qed

interpretation meeting: phase "meetIsolatedNodes E st" "\<lambda>_. True" "{}"
  by unfold_locales (simp_all add: meetIsolatedNodes_quiet only_empty)

interpretation gossip_repair: phase "repairStaleGossip E st" "\<lambda>_. True" "{}"
  by unfold_locales (simp_all add: repairStaleGossip_def meetAllReachable_quiet only_empty)

interpretation assigning: phase "assignSlotsToPendingPrimaries E st nodes" "\<lambda>r. r = Inr 0" "{Assigning}"
  by unfold_locales (rule tallied_confined tallied_idle, rule assign_tallied_all, assumption?)+

interpretation attaching: phase "replicatePendingReplicas E st nodes" "\<lambda>r. r = Inr 0" "{Attaching}"
  by unfold_locales (rule tallied_confined tallied_idle, rule replicate_tallied_all, assumption?)+

subsection \<open>Slots are assigned exactly\<close>

definition addslots :: "Action list \<Rightarrow> (string \<times> SlotRange list) list" where
  "addslots as = List.map_filter
     (\<lambda>a. case a of Engine addr (ClusterAddSlotsRange rs) _ \<Rightarrow> Some (addr, rs) | _ \<Rightarrow> None) as"

lemma addslots_simps [simp]:
  "addslots [] = []" "addslots (as @ bs) = addslots as @ addslots bs"
  "addslots [Engine addr (ClusterAddSlotsRange rs) r] = [(addr, rs)]" "addslots [Event t m x] = []"
  by (simp_all add: addslots_def map_filter_def)

definition planned :: "(SlotRange list \<times> NodeState) list \<Rightarrow> (string \<times> SlotRange list) list" where
  "planned xs = map (\<lambda>(rs, p). (Addr p, rs)) (filter (\<lambda>(rs, p). rs \<noteq> []) xs)"

lemma assign_body_cases:
  assumes "client p"
  shows "assign_body E (rs, p) n w = (if rs = [] then (Inr n, w) else
     let r = engine E (trace w) (Addr p) (ClusterAddSlotsRange rs);
         w1 = act (Engine (Addr p) (ClusterAddSlotsRange rs) r) w
     in (case r of Some e \<Rightarrow> Inl (Err (''CLUSTER ADDSLOTSRANGE '' @ FormatSlotRanges rs @ '' -> '' @ Addr p @ '': '' @ e))
                 | None \<Rightarrow> Inr (n + 1), w1))"
  using assms by (simp add: assign_body_def command_def Let_def split: option.split)

lemma assign_loop:
  assumes "list_all (\<lambda>x. client (snd x)) xs" "for_loop (assign_body E) xs n w = (r, w')"
  shows "\<exists>as. trace w' = trace w @ as \<and> prefix (addslots as) (planned xs) \<and>
              (\<forall>m. r = Inr m \<longrightarrow> addslots as = planned xs)"
  using assms
proof (induction xs arbitrary: n w)
  case Nil
  then show ?case by (simp add: planned_def)
next
  case (Cons x xs)
  obtain rs p where x: "x = (rs, p)" by (cases x)
  with Cons.prems have p: "client p" and cl: "list_all (\<lambda>x. client (snd x)) xs" by simp_all
  let ?r = "engine E (trace w) (Addr p) (ClusterAddSlotsRange rs)"
  let ?w1 = "act (Engine (Addr p) (ClusterAddSlotsRange rs) ?r) w"
  consider "rs = []" | e where "rs \<noteq> []" "?r = Some e" | "rs \<noteq> []" "?r = None" by (cases ?r) auto
  then show ?case
  proof cases
    case 1
    with Cons.prems(2) x p have "for_loop (assign_body E) xs n w = (r, w')" by (simp add: assign_body_cases)
    from Cons.IH [OF cl this] 1 x show ?thesis by (simp add: planned_def)
  next
    case 2
    with Cons.prems(2) x p have "r \<noteq> Inr m" "w' = ?w1" for m by (auto simp: assign_body_cases)
    with 2 x show ?thesis by (auto simp: planned_def)
  next
    case 3
    with Cons.prems(2) x p have "for_loop (assign_body E) xs (n + 1) ?w1 = (r, w')" by (simp add: assign_body_cases)
    from Cons.IH [OF cl this] obtain as where as: "trace w' = trace ?w1 @ as" "prefix (addslots as) (planned xs)"
      "\<forall>m. r = Inr m \<longrightarrow> addslots as = planned xs" by blast
    let ?as = "Engine (Addr p) (ClusterAddSlotsRange rs) ?r # as"
    have "addslots ?as = (Addr p, rs) # addslots as" by (simp add: addslots_def map_filter_def)
    with as 3 x show ?thesis by (intro exI [of _ ?as]) (simp add: planned_def)
  qed
qed

lemma planned_slots:
  "length ps = length ns \<Longrightarrow> concat (map (\<lambda>x. slots_of (snd x)) (planned (zip ps ns))) = concat (map slots_of ps)"
proof (induction ps ns rule: list_induct2)
  case (Cons x xs y ys)
  then show ?case by (cases x) (simp_all add: planned_def slots_of_def)
qed (simp add: planned_def)

lemma planned_addrs: "fst ` set (planned (zip ps ns)) \<subseteq> Addr ` set ns"
  by (auto simp: planned_def dest: set_zip_rightD)

lemma set_pendingPrimaries: "set (pendingPrimaries st pos b) \<subseteq> set (PendingNodes st)"
  by (auto simp: pendingPrimaries_def)

lemma prefix_concat_map: "prefix xs ys \<Longrightarrow> prefix (concat (map f xs)) (concat (map f ys))"
  by (auto simp: prefix_def)

lemma NewClusterState_valid:
  assumes "\<forall>n. Some n \<in> set scraped \<longrightarrow> slot_bounds (NodeSlots n)"
  shows "\<forall>sh \<in> set (Shards (NewClusterState scraped)). valid_ranges (Shard_Slots sh)"
proof -
  have "\<forall>n \<in> set (List.map_filter (\<lambda>n. n) scraped). slot_bounds (NodeSlots n)"
    using assms by (auto simp: map_filter_def)
  then show ?thesis by (blast intro: slot_bounds_valid Shard_Slots_bounds)
qed

lemma PendingNodes_scraped: "n \<in> set (PendingNodes (NewClusterState scraped)) \<Longrightarrow> Some n \<in> set scraped"
  by (auto simp: NewClusterState_shape(2) map_filter_def)

lemma assign_split:
  assumes "ascending (GetUnassignedSlots st)"
    and "list_all client (PendingNodes st)"
    and "assignSlotsToPendingPrimaries E st nodes w = (r, w')"
  defines "ps \<equiv> pendingPrimaries st (positionsByIP nodes) (Shards_want (Spec (cluster w)) = 1 \<and> Replicas (Spec (cluster w)) = 0)"
  shows "(w' = w \<and> r = Inr 0 \<and> (ps = [] \<or> GetUnassignedSlots st = [])) \<or>
    (\<exists>plans as. length plans = length ps \<and> concat (map slots_of plans) = slots_of (GetUnassignedSlots st) \<and>
       trace w' = trace w @ as \<and> prefix (addslots as) (planned (zip plans ps)) \<and>
       (\<forall>m. r = Inr m \<longrightarrow> addslots as = planned (zip plans ps)) \<and> r \<noteq> Inl Panic)"
proof (cases "ps = [] \<or> GetUnassignedSlots st = []")
  case True
  with assms(3) show ?thesis by (auto simp: assignSlotsToPendingPrimaries_def Let_def ps_def)
next
  case False
  then have n: "0 < int (length ps)" by simp
  from SplitUnassignedEvenly_props [OF assms(1) n] obtain plans where
    plans: "SplitUnassignedEvenly (GetUnassignedSlots st) (int (length ps)) = Some plans" "length plans = length ps"
      "concat (map slots_of plans) = slots_of (GetUnassignedSlots st)" by auto
  obtain r1 w1 where loop: "for_loop (assign_body E) (zip plans ps) 0 w = (r1, w1)" by fastforce
  have "list_all (\<lambda>x. client (snd x)) (zip plans ps)"
    using assms(2) set_pendingPrimaries unfolding list_all_iff ps_def by (fastforce dest: set_zip_rightD)
  from assign_loop [OF this loop] obtain as where as: "trace w1 = trace w @ as"
    "prefix (addslots as) (planned (zip plans ps))" "\<forall>m. r1 = Inr m \<longrightarrow> addslots as = planned (zip plans ps)" by blast
  have "assign_body E x s w \<noteq> (Inl Panic, w'')" for x s w w''
    by (simp add: assign_body_def command_def Let_def split: option.split prod.split)
  then have np: "r1 \<noteq> Inl Panic"
    using for_loop_no_panic [of "assign_body E" "zip plans ps" 0 w w1] loop by auto
  have res: "assignSlotsToPendingPrimaries E st nodes w = (case (r1, w1) of
      (Inl e, w1) \<Rightarrow> (Inl e, w1)
    | (Inr n, w1) \<Rightarrow> (Inr n, if n > 0 then event EventNormal ''PrimariesCreated'' (''Assigned slots to '' @ Itoa n @ '' primary(ies)'') w1 else w1))"
    using False plans(1) loop by (simp add: assignSlotsToPendingPrimaries_def Let_def ps_def del: case_prod_conv split_paired_Ex)
  show ?thesis
  proof (intro disjI2 exI conjI)
    show "length plans = length ps" "concat (map slots_of plans) = slots_of (GetUnassignedSlots st)" by fact+
    show "trace w' = trace w @ (as @ drop (length (trace w1)) (trace w'))"
      using assms(3) res as(1) by (auto split: sum.splits if_splits simp: event_def)
    have ev: "addslots (drop (length (trace w1)) (trace w')) = []"
      using assms(3) res by (auto split: sum.splits if_splits simp: event_def)
    show "prefix (addslots (as @ drop (length (trace w1)) (trace w'))) (planned (zip plans ps))"
      using as(2) ev by simp
    show "\<forall>m. r = Inr m \<longrightarrow> addslots (as @ drop (length (trace w1)) (trace w')) = planned (zip plans ps)"
      using as(3) ev assms(3) res by (auto split: sum.splits)
    show "r \<noteq> Inl Panic" using np assms(3) res by (auto split: sum.splits)
  qed
qed

lemma assign_slots_lemma:
  fixes E :: env and w :: world and nodes :: "ValkeyNode list"
  assumes "\<forall>n. Some n \<in> set scraped \<longrightarrow> slot_bounds (NodeSlots n) \<and> client n"
  defines "st \<equiv> NewClusterState scraped"
  defines "res \<equiv> assignSlotsToPendingPrimaries E st nodes w"
  defines "cmds \<equiv> addslots (added w (snd res))"
  shows "prefix (concat (map (\<lambda>c. slots_of (snd c)) cmds)) (slots_of (GetUnassignedSlots st)) \<and>
         distinct (concat (map (\<lambda>c. slots_of (snd c)) cmds)) \<and>
         fst ` set cmds \<subseteq> Addr ` set (PendingNodes st) \<and> fst res \<noteq> Inl Panic \<and>
         (\<forall>m. fst res = Inr m \<longrightarrow>
            pendingPrimaries st (positionsByIP nodes) (Shards_want (Spec (cluster w)) = 1 \<and> Replicas (Spec (cluster w)) = 0) \<noteq> [] \<longrightarrow>
            concat (map (\<lambda>c. slots_of (snd c)) cmds) = slots_of (GetUnassignedSlots st))"
proof -
  have asc: "ascending (GetUnassignedSlots st)"
    unfolding st_def by (rule GetUnassignedSlots_props(1), rule NewClusterState_valid) (use assms(1) in blast)
  have cl: "list_all client (PendingNodes st)"
    using assms(1) PendingNodes_scraped by (auto simp: list_all_iff st_def)
  have run: "assignSlotsToPendingPrimaries E st nodes w = (fst res, snd res)" by (simp add: res_def)
  define ps where "ps = pendingPrimaries st (positionsByIP nodes) (Shards_want (Spec (cluster w)) = 1 \<and> Replicas (Spec (cluster w)) = 0)"
  from assign_split [OF asc cl run, folded ps_def] show ?thesis
  proof
    assume a: "snd res = w \<and> fst res = Inr 0 \<and> (ps = [] \<or> GetUnassignedSlots st = [])"
    then have "cmds = []" by (simp add: cmds_def)
    with a show ?thesis by (auto simp: ps_def slots_of_def)
  next
    assume "\<exists>plans as. length plans = length ps \<and> concat (map slots_of plans) = slots_of (GetUnassignedSlots st) \<and>
       trace (snd res) = trace w @ as \<and> prefix (addslots as) (planned (zip plans ps)) \<and>
       (\<forall>m. fst res = Inr m \<longrightarrow> addslots as = planned (zip plans ps)) \<and> fst res \<noteq> Inl Panic"
    then obtain plans as where p: "length plans = length ps" "concat (map slots_of plans) = slots_of (GetUnassignedSlots st)"
      "trace (snd res) = trace w @ as" "prefix (addslots as) (planned (zip plans ps))"
      "\<forall>m. fst res = Inr m \<longrightarrow> addslots as = planned (zip plans ps)" "fst res \<noteq> Inl Panic" by blast
    have c: "cmds = addslots as" by (simp add: cmds_def added_def p(3))
    have pre: "prefix (concat (map (\<lambda>c. slots_of (snd c)) cmds)) (slots_of (GetUnassignedSlots st))"
      using prefix_concat_map [OF p(4), of "\<lambda>c. slots_of (snd c)"] by (simp add: c planned_slots p(1,2))
    moreover have "distinct (concat (map (\<lambda>c. slots_of (snd c)) cmds))"
      using pre ascendingD [OF asc] by (auto simp: prefix_def)
    moreover have "fst ` set cmds \<subseteq> Addr ` set (PendingNodes st)"
    proof -
      have "set cmds \<subseteq> set (planned (zip plans ps))" using set_mono_prefix [OF p(4)] by (simp add: c)
      moreover have "set ps \<subseteq> set (PendingNodes st)" unfolding ps_def by (rule set_pendingPrimaries)
      ultimately show ?thesis using planned_addrs [of plans ps] by blast
    qed
    moreover have "\<forall>m. fst res = Inr m \<longrightarrow> concat (map (\<lambda>c. slots_of (snd c)) cmds) = slots_of (GetUnassignedSlots st)"
      using p(5) by (simp add: c planned_slots p(1,2))
    ultimately show ?thesis using p(6) by blast
  qed
qed

text \<open>C32: Assigning slots to the pending primaries of scraped nodes: whatever the engines answer, the slots
  of the \<open>ADDSLOTSRANGE\<close> commands of a pass, read in order, are distinct and start the list of
  unassigned slots, and the commands go to pending nodes only; a pass that returns without an error and
  has a pending primary assigns every unassigned slot exactly once.\<close>

theorem assign_slots_exact:
  assumes "\<forall>n. Some n \<in> set scraped \<longrightarrow> slot_bounds (NodeSlots n) \<and> client n"
  shows "let st = NewClusterState scraped;
             res = assignSlotsToPendingPrimaries E st nodes w;
             cmds = addslots (added w (snd res));
             slots = concat (map (\<lambda>c. slots_of (snd c)) cmds);
             single = (Shards_want (Spec (cluster w)) = 1 \<and> Replicas (Spec (cluster w)) = 0)
         in prefix slots (slots_of (GetUnassignedSlots st)) \<and> distinct slots \<and>
            fst ` set cmds \<subseteq> Addr ` set (PendingNodes st) \<and> fst res \<noteq> Inl Panic \<and>
            (\<forall>m. fst res = Inr m \<longrightarrow> pendingPrimaries st (positionsByIP nodes) single \<noteq> [] \<longrightarrow>
               slots = slots_of (GetUnassignedSlots st))"
  unfolding Let_def by (rule assign_slots_lemma [OF assms])

theorem assign_slots_exact_witness:
  "prefix (concat (map (\<lambda>c. slots_of (snd c)) (addslots (added sample_world (snd (assignSlotsToPendingPrimaries calm
       (NewClusterState [Some (sample_node ''10.0.0.1'' ''s0'' RolePrimary '''' [] []), Some (sample_node ''10.0.0.2'' ''s1'' RolePrimary '''' [] [])])
       [sample_vnode ''c-0-0'' 0 0 ''10.0.0.1'', sample_vnode ''c-1-0'' 1 0 ''10.0.0.2''] sample_world))))))
     (slots_of (GetUnassignedSlots
       (NewClusterState [Some (sample_node ''10.0.0.1'' ''s0'' RolePrimary '''' [] []), Some (sample_node ''10.0.0.2'' ''s1'' RolePrimary '''' [] [])])))"
proof -
  define ns where "ns = [Some (sample_node ''10.0.0.1'' ''s0'' RolePrimary '''' [] []), Some (sample_node ''10.0.0.2'' ''s1'' RolePrimary '''' [] [])]"
  have h: "\<forall>n. Some n \<in> set ns \<longrightarrow> slot_bounds (NodeSlots n) \<and> client n"
    by (auto simp: ns_def sample_node_def slot_bounds_def)
  show ?thesis unfolding ns_def [symmetric] by (rule assign_slots_exact [OF h, unfolded Let_def, THEN conjunct1])
qed

subsection \<open>Introductions and replicas\<close>

lemma meet_body_Inr:
  assumes "meet_body E target n met w = (Inr m, w')"
  shows "\<exists>as. trace w' = trace w @ as \<and> (client n \<longrightarrow>
     {Engine (Addr n) (ClusterMeet (hostFromAddr (Addr target)) ClientPort BusPortNumber) None,
      Engine (Addr target) (ClusterMeet (hostFromAddr (Addr n)) ClientPort BusPortNumber) None} \<subseteq> set as)"
  using assms by (auto simp: meet_body_def command_def Let_def act_def split: if_splits option.splits)

lemma meet_loop:
  assumes "for_loop (meet_body E target) xs met w = (Inr m, w')" "n \<in> set xs" "client n"
  shows "{Engine (Addr n) (ClusterMeet (hostFromAddr (Addr target)) ClientPort BusPortNumber) None,
          Engine (Addr target) (ClusterMeet (hostFromAddr (Addr n)) ClientPort BusPortNumber) None} \<subseteq> set (added w w')"
proof -
  define A :: "NodeState \<Rightarrow> Action set" where "A n = (if client n
     then {Engine (Addr n) (ClusterMeet (hostFromAddr (Addr target)) ClientPort BusPortNumber) None,
           Engine (Addr target) (ClusterMeet (hostFromAddr (Addr n)) ClientPort BusPortNumber) None} else {})" for n
  have ext: "adds (\<lambda>_. True) w w' \<and> True" if "meet_body E target x s w = (r, w')" for x s w r w'
    using tallied_confined [OF meet_tallied [of s w E target x]] that adds_mono by fastforce
  have each: "A x \<subseteq> set (added w w')" if "meet_body E target x s w = (Inr s', w')" for x s w s' w'
    using meet_body_Inr [OF that] by (auto simp: A_def added_def)
  have "A n \<subseteq> set (added w w') \<and> adds (\<lambda>_. True) w w'"
    by (rule for_loop_each [where J = "\<lambda>_. True", OF assms(1) TrueI ext each assms(2)])
  then show ?thesis using assms(3) by (simp add: A_def)
qed

lemma isolated_mem: "n \<in> set (isolatedPendingNodes st) \<longleftrightarrow> n \<in> set (PendingNodes st) \<and> IsIsolated n"
  by (simp add: isolatedPendingNodes_def)

lemma meetIsolatedNodes_mutual_lemma:
  assumes run: "meetIsolatedNodes E st w = (Inr m, w')"
    and target: "meetTarget st (isolatedPendingNodes st) = Some target" "client target"
    and n: "n \<in> set (PendingNodes st)" "IsIsolated n" "client n" "n \<noteq> target"
  shows "{Engine (Addr n) (ClusterMeet (hostFromAddr (Addr target)) ClientPort BusPortNumber) None,
          Engine (Addr target) (ClusterMeet (hostFromAddr (Addr n)) ClientPort BusPortNumber) None} \<subseteq> set (added w w')"
proof -
  define iso where "iso = isolatedPendingNodes st"
  have nin: "n \<in> set iso" using n by (simp add: iso_def isolated_mem)
  define xs where "xs = (if target = hd iso then tl iso else iso)"
  have nxs: "n \<in> set xs" using nin n(4) by (cases iso) (auto simp: xs_def)
  have ne: "iso \<noteq> []" using nin by auto
  obtain r1 w1 where ep: "for_loop (setEpoch_body E (CurrentEpoch target)) (zip [0..int (length iso) - 1] iso) () w = (r1, w1)"
    by fastforce
  obtain r2 w2 where lp: "for_loop (meet_body E target) xs 0 w1 = (r2, w2)" by fastforce
  have r2: "r2 = Inr m" and w': "w' = (if 0 < m
      then event EventNormal ''ClusterMeetBatch'' (''MEET introduced '' @ Itoa m @ '' node(s)'') w2 else w2)"
    using run target ep lp ne unfolding meetIsolatedNodes_def iso_def [symmetric] xs_def
    by (auto simp: Let_def split: sum.splits)
  have a: "adds quiet w w1" using ep by (rule setEpoch_loop_quiet)
  have b: "adds quiet w1 w2" using lp by (rule meet_loop_quiet)
  have "adds quiet w1 w'" using b by (simp add: w' adds_event)
  then have "added w w' = added w w1 @ added w1 w'" using added_trans a by blast
  moreover have "set (added w1 w2) \<subseteq> set (added w1 w')" using b by (auto simp: w' event_def)
  ultimately show ?thesis using meet_loop [OF lp [unfolded r2] nxs n(3)] by auto
qed

text \<open>Introductions are mutual: when meeting the isolated nodes returns without an error, every
  reachable isolated node other than the target was told to meet the target and the target to meet it,
  and both accepted.\<close>

theorem meet_mutual:
  assumes "meetIsolatedNodes E st w = (Inr m, w')"
    and "meetTarget st (isolatedPendingNodes st) = Some target" "client target"
    and "n \<in> set (PendingNodes st)" "IsIsolated n" "client n" "n \<noteq> target"
  shows "{Engine (Addr n) (ClusterMeet (hostFromAddr (Addr target)) 6379 16379) None,
          Engine (Addr target) (ClusterMeet (hostFromAddr (Addr n)) 6379 16379) None} \<subseteq> set (added w w')"
  using meetIsolatedNodes_mutual_lemma [OF assms] by (simp add: ClientPort_def BusPortNumber_def)

definition isolated_node :: "string \<Rightarrow> NodeState" where
  "isolated_node ip = (sample_node ip ip RolePrimary '''' [] []) \<lparr> KnownNodes := 1 \<rparr>"

lemma addr_less: "''10.0.0.1:6379'' \<le> (''10.0.0.2:6379'' :: string)" "\<not> (''10.0.0.2:6379'' :: string) \<le> ''10.0.0.1:6379''"
  by (simp_all add: less_eq_char_def less_char_def)

theorem meet_mutual_witness:
  "Engine ''10.0.0.2:6379'' (ClusterMeet (hostFromAddr ''10.0.0.1:6379'') 6379 16379) None \<in>
     set (added sample_world (snd (meetIsolatedNodes calm
       (NewClusterState [Some (isolated_node ''10.0.0.1''), Some (isolated_node ''10.0.0.2'')]) sample_world)))"
proof -
  define a where "a = isolated_node ''10.0.0.1''"
  define b where "b = isolated_node ''10.0.0.2''"
  define st where "st = NewClusterState [Some a, Some b]"
  have f: "IsIsolated a" "IsIsolated b" "client a" "client b" "Addr a = ''10.0.0.1:6379''" "Addr b = ''10.0.0.2:6379''"
    "slotless a" "slotless b" "a \<noteq> b"
    by (simp_all add: a_def b_def isolated_node_def sample_node_def IsIsolated_def slotless_def IsPrimary_def NumSlots_def CountSlots_def)
  have pend: "PendingNodes st = [a, b]" by (simp add: st_def NewClusterState_shape(2) map_filter_def f)
  have sh: "Shards st = []" by (simp add: st_def NewClusterState_def addNode_def groupShards_def groupShards_node_def Let_def f
        slotless_def [symmetric] flip: slotless_def)
  have iso: "isolatedPendingNodes st = [a, b]" by (simp add: isolatedPendingNodes_def pend f addr_less)
  have t: "meetTarget st (isolatedPendingNodes st) = Some a" by (simp add: meetTarget_def sh pend f iso map_filter_def)
  have "\<exists>m w'. meetIsolatedNodes calm st sample_world = (Inr m, w')"
    using t f by (auto simp: meetIsolatedNodes_def iso meet_body_def command_def calm_def Let_def split: prod.split)
  then obtain m w' where run: "meetIsolatedNodes calm st sample_world = (Inr m, w')" by blast
  have "b \<in> set (PendingNodes st)" by (simp add: pend)
  from meet_mutual [OF run t f(3) this f(2,4) f(9) [symmetric]] show ?thesis
    by (simp add: f run st_def [symmetric] a_def [symmetric] b_def [symmetric])
qed

text \<open>The primary recorded for a shard index stands at a position of that shard.\<close>

definition primary_at :: "ClusterState \<Rightarrow> positions \<Rightarrow> int \<Rightarrow> string \<Rightarrow> bool" where
  "primary_at st pos s nid \<longleftrightarrow>
     (\<exists>p q. (p \<in> set (PendingNodes st) \<and> IsPrimary p \<or> (\<exists>sh \<in> set (Shards st). Shard_Primary sh = Some p)) \<and>
        pos (hostFromAddr (Addr p)) = Some q \<and> np_shard q = s \<and> ID p = nid)"

lemma foldl_map_inv:
  assumes "\<forall>s v. out s = Some v \<longrightarrow> P s v"
    and "\<And>out x. x \<in> set xs \<Longrightarrow> \<forall>s v. out s = Some v \<longrightarrow> P s v \<Longrightarrow> \<forall>s v. f out x s = Some v \<longrightarrow> P s v"
  shows "\<forall>s v. foldl f out xs s = Some v \<longrightarrow> P s v"
  using assms
proof (induction xs arbitrary: out)
  case (Cons x xs)
  have "\<forall>s v. f out x s = Some v \<longrightarrow> P s v"
    by (rule Cons.prems(2)) (simp, rule Cons.prems(1))
  then show ?case
    unfolding foldl_Cons by (rule Cons.IH) (erule (1) Cons.prems(2) [OF list.set_intros(2)])
qed simp

lemma shardPrimaryIDs_at: "shardPrimaryIDs st pos s = Some nid \<Longrightarrow> primary_at st pos s nid"
proof -
  have p: "\<forall>s v. addPendingPrimaryID pos out x s = Some v \<longrightarrow> primary_at st pos s v"
    if "x \<in> set (PendingNodes st)" "\<forall>s v. out s = Some v \<longrightarrow> primary_at st pos s v" for out x
    using that by (auto simp: addPendingPrimaryID_def primary_at_def split: option.splits if_splits)
  have q: "\<forall>s v. addShardPrimaryID pos out x s = Some v \<longrightarrow> primary_at st pos s v"
    if "x \<in> set (Shards st)" "\<forall>s v. out s = Some v \<longrightarrow> primary_at st pos s v" for out x
    using that by (auto simp: addShardPrimaryID_def primary_at_def split: option.splits if_splits)
  have "\<forall>s v. foldl (addPendingPrimaryID pos) Map.empty (PendingNodes st) s = Some v \<longrightarrow> primary_at st pos s v"
    by (rule foldl_map_inv) (use p in auto)
  then have "\<forall>s v. shardPrimaryIDs st pos s = Some v \<longrightarrow> primary_at st pos s v"
    unfolding shardPrimaryIDs_def by (rule foldl_map_inv) (use q in auto)
  then show "shardPrimaryIDs st pos s = Some nid \<Longrightarrow> primary_at st pos s nid" by blast
qed

definition attaches :: "ClusterState \<Rightarrow> positions \<Rightarrow> Action \<Rightarrow> bool" where
  "attaches st pos a \<longleftrightarrow> (case a of
     Engine addr (ClusterReplicate nid) _ \<Rightarrow> (\<exists>n p. n \<in> set (PendingNodes st) \<and> Addr n = addr \<and> \<not> IsIsolated n \<and>
       positionFor pos n = Some p \<and> np_node p \<noteq> 0 \<and> nid \<noteq> '''' \<and> primary_at st pos (np_shard p) nid)
   | Engine _ _ _ \<Rightarrow> False | Write _ _ \<Rightarrow> False | Event _ _ _ \<Rightarrow> True)"

lemma attaches_Event [simp]: "attaches st pos (Event t m x)"
  by (simp add: attaches_def)

lemma attaches_Replicate:
  "n \<in> set (PendingNodes st) \<Longrightarrow> \<not> IsIsolated n \<Longrightarrow> positionFor pos n = Some p \<Longrightarrow> \<not> np_isPrimary p \<Longrightarrow> nid \<noteq> '''' \<Longrightarrow>
   primary_at st pos (np_shard p) nid \<Longrightarrow> attaches st pos (Engine (Addr n) (ClusterReplicate nid) r)"
  by (auto simp: attaches_def np_isPrimary_def)

lemma replicate_body_cases:
  assumes "replicate_body E pos ids n k w = (r, w')"
  shows "w' = w \<or> (\<exists>p nid e. \<not> IsIsolated n \<and> positionFor pos n = Some p \<and> \<not> np_isPrimary p \<and>
     ids (np_shard p) = Some nid \<and> nid \<noteq> '''' \<and> w' = act (Engine (Addr n) (ClusterReplicate nid) e) w)"
proof (cases "IsIsolated n \<or> \<not> client n \<or> positionFor pos n = None")
  case True
  then show ?thesis using assms by (auto simp: replicate_body_def split: if_splits)
next
  case False
  then obtain p where p: "positionFor pos n = Some p" by auto
  show ?thesis
  proof (cases "np_isPrimary p \<or> ids (np_shard p) = None \<or> ids (np_shard p) = Some ''''")
    case True
    then show ?thesis using assms False p by (auto simp: replicate_body_def split: if_splits)
  next
    case nt: False
    then obtain nid where nid: "ids (np_shard p) = Some nid" "nid \<noteq> ''''" "\<not> np_isPrimary p" by auto
    have "w' = act (Engine (Addr n) (ClusterReplicate nid) (engine E (trace w) (Addr n) (ClusterReplicate nid))) w"
      using assms False p nid by (simp add: replicate_body_def command_def Let_def split: option.splits if_splits)
    then show ?thesis using False p nid by blast
  qed
qed

lemma replicate_body_attaches:
  assumes "n \<in> set (PendingNodes st)" "replicate_body E pos (shardPrimaryIDs st pos) n k w = (r, w')"
  shows "adds (attaches st pos) w w'"
  using replicate_body_cases [OF assms(2)] assms(1)
  by (elim disjE exE conjE) (simp, simp, rule adds_act, rule attaches_Replicate, simp_all, rule shardPrimaryIDs_at)

text \<open>Attaching replicas sends \<open>CLUSTER REPLICATE\<close> and nothing else, only to pending nodes that gossip
  already reaches and whose labels put them at a replica position, and the id it names belongs to a
  primary whose labels put it in the same shard.\<close>

theorem attach_same_shard:
  "adds (attaches st (positionsByIP nodes)) w (snd (replicatePendingReplicas E st nodes w))"
proof -
  define pos where "pos = positionsByIP nodes"
  obtain r w1 where loop: "for_loop (replicate_body E pos (shardPrimaryIDs st pos)) (PendingNodes st) 0 w = (r, w1)" by fastforce
  have "adds (attaches st pos) w (snd (for_loop (replicate_body E pos (shardPrimaryIDs st pos)) (PendingNodes st) 0 w))"
    by (rule for_loop_adds) (erule (1) replicate_body_attaches)
  then have "adds (attaches st pos) w w1" by (simp add: loop)
  then show ?thesis
    by (simp add: replicatePendingReplicas_def pos_def [symmetric] Let_def loop adds_event split: sum.split)
qed

end
