(* ===== verification/Scaling.thy ===== *)
theory Scaling
  imports Bootstrap "HOL-Library.Product_Lexorder"
begin

text \<open>
  Moving slots and removing nodes: \<^verbatim>\<open>rebalance.go\<close> and \<^verbatim>\<open>scalein.go\<close> of
  \<^verbatim>\<open>src/pkg/controller/perconavalkeycluster\<close>.  A pass starts at most one migration or deletes at most
  one node.  The theorems show what it may delete, from where to where it may move slots, and that it
  never moves while a migration is in progress.

  Where a comparison function is a difference of indexes, the model sorts by the index itself; indexes
  come from labels the operator writes, far from the bounds at which the difference would wrap.
\<close>

subsection \<open>One migration\<close>

definition IsSlotsNotServedByNode :: "string \<Rightarrow> bool" where
  "IsSlotsNotServedByNode e = Contains (ToLower e) ''slots are not served by this node''"

definition migrateSlots :: "env \<Rightarrow> ClusterState \<Rightarrow> Move \<Rightarrow> world \<Rightarrow> (go_error, bool) result \<times> world" where
  "migrateSlots E st mv w =
     (case NodeByID st (SrcID mv) of
        None \<Rightarrow> (Inr False, w)
      | Some src \<Rightarrow>
          if \<not> client src then (Inr False, w)
          else if \<not> GossipVisible st (SrcID mv) (DstID mv) then (Inr False, w)
          else case slotMigrations E (trace w) (Addr src) of
            Inl e \<Rightarrow> (Inl (Err (''CLUSTER GETSLOTMIGRATIONS '' @ Addr src @ '': '' @ e)), w)
          | Inr migrations \<Rightarrow>
              if AnyMigrationInProgress migrations then (Inr False, w)
              else case command E (Addr src) (ClusterMigrateSlots (Ranges mv) (DstID mv)) w of
                     (None, w1) \<Rightarrow> (Inr True, w1)
                   | (Some e, w1) \<Rightarrow> if IsSlotsNotServedByNode e then (Inr False, w1) else (Inl (Err e), w1))"

definition rebalanceSlots :: "env \<Rightarrow> ClusterState \<Rightarrow> world \<Rightarrow> (go_error, bool) result \<times> world" where
  "rebalanceSlots E st w =
     (case PlanRebalanceMove st (Shards_want (Spec (cluster w))) of
        None \<Rightarrow> (Inr False, w)
      | Some mv \<Rightarrow>
          (case migrateSlots E st mv w of
             (Inl e, w1) \<Rightarrow>
               (Inl (Err (''rebalance migrate: '' @ error_text e)),
                event EventWarning ''SlotRebalanceFailed'' (''slot move '' @ FormatSlotRanges (Ranges mv) @ '' ('' @ SrcID mv @
                  '' -> '' @ DstID mv @ '') failed: '' @ error_text e) w1)
           | (Inr False, w1) \<Rightarrow>
               (Inr True, event EventNormal ''SlotsRebalancePending'' (''waiting to migrate '' @ FormatSlotRanges (Ranges mv) @
                  '' from '' @ SrcID mv @ '' to '' @ DstID mv) w1)
           | (Inr True, w1) \<Rightarrow>
               (Inr True, event EventNormal ''SlotsRebalancing'' (''migrating '' @ FormatSlotRanges (Ranges mv) @
                  '' slot(s) from '' @ SrcID mv @ '' to '' @ DstID mv) w1)))"

subsection \<open>Scaling in\<close>

definition nodeIndexOf :: "ValkeyNode \<Rightarrow> int" where
  "nodeIndexOf node = fst (Atoi (lookup (vn_Labels node) LabelNodeIndex))"

definition shardIndexOf :: "ValkeyNode \<Rightarrow> int" where
  "shardIndexOf node = fst (Atoi (lookup (vn_Labels node) LabelShardIndex))"

definition sortByAddr :: "NodeState list \<Rightarrow> NodeState list" where
  "sortByAddr ns = sort_key Addr ns"

definition drainingPrimary :: "positions \<Rightarrow> int \<Rightarrow> ShardState \<Rightarrow> NodeState option" where
  "drainingPrimary pos wantShards shard =
     (case Shard_Primary shard of
        None \<Rightarrow> None
      | Some p \<Rightarrow>
          if NumSlots p = 0 then None
          else case pos (hostFromAddr (Addr p)) of
                 None \<Rightarrow> None
               | Some q \<Rightarrow> if np_shard q < wantShards then None else Some p)"

definition drainingShardPrimaries :: "ClusterState \<Rightarrow> positions \<Rightarrow> int \<Rightarrow> NodeState list" where
  "drainingShardPrimaries st pos wantShards =
     sortByAddr (List.map_filter (drainingPrimary pos wantShards) (Shards st))"

definition drainingShardsStillOwnSlots :: "ClusterState \<Rightarrow> positions \<Rightarrow> int \<Rightarrow> bool" where
  "drainingShardsStillOwnSlots st pos wantShards \<longleftrightarrow> drainingShardPrimaries st pos wantShards \<noteq> []"

definition remainingPrimary :: "positions \<Rightarrow> int \<Rightarrow> ShardState \<Rightarrow> NodeState option" where
  "remainingPrimary pos wantShards shard =
     (case Shard_Primary shard of
        None \<Rightarrow> None
      | Some p \<Rightarrow>
          (case pos (hostFromAddr (Addr p)) of
             Some q \<Rightarrow> if np_shard q \<ge> wantShards then None else Some p
           | None \<Rightarrow> Some p))"

definition remainingPrimaries :: "ClusterState \<Rightarrow> positions \<Rightarrow> int \<Rightarrow> NodeState list" where
  "remainingPrimaries st pos wantShards = List.map_filter (remainingPrimary pos wantShards) (Shards st)"

definition excessShardNodes :: "ValkeyNode list \<Rightarrow> int \<Rightarrow> ValkeyNode list" where
  "excessShardNodes nodes wantShards =
     sort_key (\<lambda>n. (shardIndexOf n, - nodeIndexOf n))
       (filter (\<lambda>n. case Atoi (lookup (vn_Labels n) LabelShardIndex) of
                      (shard, None) \<Rightarrow> \<not> shard < wantShards | (_, Some _) \<Rightarrow> False) nodes)"

definition surplusReplica :: "int \<Rightarrow> int \<Rightarrow> ValkeyNode \<Rightarrow> bool" where
  "surplusReplica wantShards wantPerShard node =
     (case nodePosition_of node of None \<Rightarrow> False | Some p \<Rightarrow> np_shard p < wantShards \<and> np_node p \<ge> wantPerShard)"

definition deleteExcessReplicas :: "env \<Rightarrow> ValkeyNode list \<Rightarrow> world \<Rightarrow> (go_error, bool) result \<times> world" where
  "deleteExcessReplicas E nodes w =
     (let wantShards = Shards_want (Spec (cluster w));
          wantPerShard = 1 + Replicas (Spec (cluster w))
      in case sort_key (\<lambda>n. - nodeIndexOf n) (filter (surplusReplica wantShards wantPerShard) nodes) of
           [] \<Rightarrow> (Inr False, w)
         | target # _ \<Rightarrow>
             (case apiWrite E (DeleteNode (vn_Name target)) w of
                (r, w1) \<Rightarrow>
                  if r \<noteq> None \<and> \<not> apierrorsIsNotFound r
                  then (Inl (Err (''delete surplus replica '' @ vn_Name target @ '': '' @ api_text (the r))), w1)
                  else (Inr True, event EventNormal ''ValkeyNodeDeleted'' (''deleted surplus replica '' @ vn_Name target) w1)))"

definition deleteDrainedShardNodes ::
  "env \<Rightarrow> ClusterState \<Rightarrow> ValkeyNode list \<Rightarrow> world \<Rightarrow> (go_error, bool) result \<times> world" where
  "deleteDrainedShardNodes E st nodes w =
     (let wantShards = Shards_want (Spec (cluster w)) in
      case excessShardNodes nodes wantShards of
        [] \<Rightarrow> (Inr False, w)
      | target # _ \<Rightarrow>
          if drainingShardsStillOwnSlots st (positionsByIP nodes) wantShards then (Inr False, w)
          else case apiWrite E (DeleteNode (vn_Name target)) w of
                 (r, w1) \<Rightarrow>
                   if r \<noteq> None \<and> \<not> apierrorsIsNotFound r
                   then (Inl (Err (''delete excess ValkeyNode '' @ vn_Name target @ '': '' @ api_text (the r))), w1)
                   else (Inr True, event EventNormal ''ValkeyNodeDeleted'' (''deleted drained ValkeyNode '' @ vn_Name target) w1))"

definition drainShard ::
  "env \<Rightarrow> ClusterState \<Rightarrow> ValkeyNode list \<Rightarrow> NodeState \<Rightarrow> int \<Rightarrow> world \<Rightarrow> (go_error, bool) result \<times> world" where
  "drainShard E st nodes src wantShards w =
     (case PlanDrainMove (Some src) (remainingPrimaries st (positionsByIP nodes) wantShards) BatchSize of
        None \<Rightarrow> (Inr False, w)
      | Some mv \<Rightarrow>
          (case migrateSlots E st mv w of
             (Inl e, w1) \<Rightarrow>
               (Inl (Err (''scale-in drain: '' @ error_text e)),
                event EventWarning ''DrainFailed'' (''draining '' @ FormatSlotRanges (Ranges mv) @ '' from '' @ SrcID mv @
                  '' failed: '' @ error_text e) w1)
           | (Inr False, w1) \<Rightarrow> (Inr True, w1)
           | (Inr True, w1) \<Rightarrow>
               (Inr True, event EventNormal ''SlotsDraining'' (''draining '' @ FormatSlotRanges (Ranges mv) @ '' slot(s) off '' @
                  SrcID mv @ '' into a survivor'') w1)))"

definition handleScaleIn ::
  "env \<Rightarrow> ClusterState \<Rightarrow> ValkeyNode list \<Rightarrow> world \<Rightarrow> (go_error, bool) result \<times> world" where
  "handleScaleIn E st nodes w =
     (let wantShards = Shards_want (Spec (cluster w)) in
      case deleteExcessReplicas E nodes w of
        (Inl e, w1) \<Rightarrow> (Inl e, w1)
      | (Inr True, w1) \<Rightarrow> (Inr True, w1)
      | (Inr False, w1) \<Rightarrow>
          (case drainingShardPrimaries st (positionsByIP nodes) wantShards of
             [] \<Rightarrow> deleteDrainedShardNodes E st nodes w1
           | p # _ \<Rightarrow> drainShard E st nodes p wantShards w1))"

subsection \<open>What a step of scaling does\<close>

text \<open>A step leaves the cluster in memory alone and makes at most one call.\<close>

definition one_call :: "(Action \<Rightarrow> bool) \<Rightarrow> world \<Rightarrow> world \<Rightarrow> bool" where
  "one_call P w w' \<longleftrightarrow> cluster w' = cluster w \<and>
     (\<exists>calls evs. trace w' = trace w @ calls @ evs \<and> length calls \<le> 1 \<and> list_all P calls \<and>
        list_all (\<lambda>a. \<exists>t r m. a = Event t r m) evs)"

lemma one_call_refl [simp]: "one_call P w w"
  unfolding one_call_def by (intro conjI exI [of _ "[]"]) simp_all

lemma one_call_act: "P a \<Longrightarrow> one_call P w (act a w)"
  unfolding one_call_def by (intro conjI exI [of _ "[a]"] exI [of _ "[]"]) simp_all

lemma one_call_event: "one_call P w w' \<Longrightarrow> one_call P w (event t r m w')"
proof -
  assume "one_call P w w'"
  then obtain calls evs where a: "cluster w' = cluster w" "trace w' = trace w @ calls @ evs" "length calls \<le> 1"
    "list_all P calls" "list_all (\<lambda>a. \<exists>t r m. a = Event t r m) evs" by (auto simp: one_call_def)
  show ?thesis unfolding one_call_def event_def
    by (rule conjI, simp add: a, rule exI [of _ calls], rule exI [of _ "evs @ [Event t r m]"], simp add: a [simplified])
qed

lemma one_call_mono: "one_call P w w' \<Longrightarrow> (\<And>a. P a \<Longrightarrow> Q a) \<Longrightarrow> one_call Q w w'"
  unfolding one_call_def by (meson list.pred_mono_strong)

lemma one_call_cluster: "one_call P w w' \<Longrightarrow> cluster w' = cluster w"
  by (simp add: one_call_def)

lemma one_call_adds: "one_call P w w' \<Longrightarrow> (\<And>t r m. Q (Event t r m)) \<Longrightarrow> (\<And>a. P a \<Longrightarrow> Q a) \<Longrightarrow> adds Q w w'"
proof -
  assume a: "one_call P w w'" "\<And>t r m. Q (Event t r m)" "\<And>a. P a \<Longrightarrow> Q a"
  then obtain calls evs where b: "trace w' = trace w @ calls @ evs" "list_all P calls"
    "list_all (\<lambda>a. \<exists>t r m. a = Event t r m) evs" by (auto simp: one_call_def)
  have "list_all Q calls" using b(2) by (rule list.pred_mono_strong) (rule a(3))
  moreover have "list_all Q evs" using b(3) by (rule list.pred_mono_strong) (use a(2) in blast)
  ultimately show ?thesis using b(1) by (auto simp: adds_def)
qed

definition migrates :: "env \<Rightarrow> ClusterState \<Rightarrow> Move \<Rightarrow> Action list \<Rightarrow> Action \<Rightarrow> bool" where
  "migrates E st mv tr a \<longleftrightarrow>
     (\<exists>src ms r. NodeByID st (SrcID mv) = Some src \<and> GossipVisible st (SrcID mv) (DstID mv) \<and>
        slotMigrations E tr (Addr src) = Inr ms \<and> \<not> AnyMigrationInProgress ms \<and>
        a = Engine (Addr src) (ClusterMigrateSlots (Ranges mv) (DstID mv)) r)"

lemma migrateSlots_cases:
  assumes "migrateSlots E st mv w = (res, w')"
  shows "w' = w \<and> res \<noteq> Inr True \<or>
    (\<exists>addr r. migrates E st mv (trace w) (Engine addr (ClusterMigrateSlots (Ranges mv) (DstID mv)) r) \<and>
       w' = act (Engine addr (ClusterMigrateSlots (Ranges mv) (DstID mv)) r) w \<and> (r = None \<longleftrightarrow> res = Inr True))"
proof (cases "w' = w")
  case False
  note run = assms [unfolded migrateSlots_def]
  from False run obtain src where src: "NodeByID st (SrcID mv) = Some src" by (cases "NodeByID st (SrcID mv)") auto
  have gv: "GossipVisible st (SrcID mv) (DstID mv)" and cl: "client src" using run src False by (auto split: if_splits)
  from False run src gv cl obtain ms where ms: "slotMigrations E (trace w) (Addr src) = Inr ms"
    by (cases "slotMigrations E (trace w) (Addr src)") auto
  have mip: "\<not> AnyMigrationInProgress ms" using run src False gv cl ms by (auto split: if_splits)
  define r where "r = engine E (trace w) (Addr src) (ClusterMigrateSlots (Ranges mv) (DstID mv))"
  have "w' = act (Engine (Addr src) (ClusterMigrateSlots (Ranges mv) (DstID mv)) r) w" "r = None \<longleftrightarrow> res = Inr True"
    using run src gv cl ms mip by (auto simp: command_def Let_def r_def split: option.splits if_splits)
  then show ?thesis using src gv ms mip unfolding migrates_def by blast
next
  case True
  with assms have "res \<noteq> Inr True"
    by (auto simp: migrateSlots_def command_def Let_def split: option.splits if_splits sum.splits)
  with True show ?thesis by simp
qed

lemma migrateSlots_one_call:
  assumes "migrateSlots E st mv w = (res, w')"
  shows "one_call (migrates E st mv (trace w)) w w'"
  using migrateSlots_cases [OF assms] by (elim disjE exE conjE) (simp_all add: one_call_act)

lemma migrateSlots_quiet: "migrateSlots E st mv w = (Inr False, w') \<Longrightarrow> adds quiet w w'"
proof -
  assume "migrateSlots E st mv w = (Inr False, w')"
  from migrateSlots_cases [OF this] show ?thesis
  proof (elim disjE exE conjE)
    fix addr r assume "w' = act (Engine addr (ClusterMigrateSlots (Ranges mv) (DstID mv)) r) w"
      "(r = None) = (Inr False = (Inr True :: (go_error, bool) result))"
    then show ?thesis by (cases r) auto
  qed simp
qed

lemma rebalanceSlots_one_call:
  "one_call (\<lambda>a. \<exists>mv. PlanRebalanceMove st (Shards_want (Spec (cluster w))) = Some mv \<and> migrates E st mv (trace w) a)
     w (snd (rebalanceSlots E st w))"
proof (cases "PlanRebalanceMove st (Shards_want (Spec (cluster w)))")
  case (Some mv)
  obtain res w1 where m: "migrateSlots E st mv w = (res, w1)" by fastforce
  have "one_call (\<lambda>a. \<exists>mv'. Some mv = Some mv' \<and> migrates E st mv' (trace w) a) w w1"
    using migrateSlots_one_call [OF m] by (rule one_call_mono) simp
  then show ?thesis
    by (simp add: rebalanceSlots_def Some m one_call_event split: sum.split bool.split)
qed (simp add: rebalanceSlots_def)

lemma migrates_only: "migrates E st mv tr a \<Longrightarrow> only {Moving} a"
  by (auto simp: migrates_def only_kinds)

lemma rebalanceSlots_idle: "rebalanceSlots E st w = (Inr False, w') \<Longrightarrow> w' = w"
  by (auto simp: rebalanceSlots_def split: option.splits prod.splits sum.splits bool.splits)

interpretation rebalancing: phase "rebalanceSlots E st" "\<lambda>r. r = Inr False" "{Moving}"
proof
  fix w show "adds (only {Moving}) w (snd (rebalanceSlots E st w))"
    using rebalanceSlots_one_call by (rule one_call_adds) (use migrates_only in auto)
  show "fst (rebalanceSlots E st w) = Inr False \<Longrightarrow> adds quiet w (snd (rebalanceSlots E st w))"
    using rebalanceSlots_idle [of E st w "snd (rebalanceSlots E st w)"] by (auto simp: prod_eq_iff)
qed

definition deletes :: "ValkeyNode list \<Rightarrow> (ValkeyNode \<Rightarrow> bool) \<Rightarrow> Action \<Rightarrow> bool" where
  "deletes nodes P a \<longleftrightarrow> (\<exists>v r. v \<in> set nodes \<and> P v \<and> a = Write (DeleteNode (vn_Name v)) r)"

lemma deletes_only: "deletes nodes P a \<Longrightarrow> only {Removing} a"
  by (auto simp: deletes_def only_kinds)

lemma sort_key_head:
  assumes "sort_key f xs = y # ys"
  shows "y \<in> set xs \<and> (\<forall>x \<in> set xs. f y \<le> f x)"
proof -
  have "set (y # ys) = set xs" "sorted (map f (y # ys))" using assms by (metis set_sort, metis sorted_sort_key)
  then show ?thesis by auto
qed

lemma deleteExcessReplicas_one_call:
  "one_call (deletes nodes (surplusReplica (Shards_want (Spec (cluster w))) (1 + Replicas (Spec (cluster w))))) w
     (snd (deleteExcessReplicas E nodes w))"
proof -
  define ns where "ns = filter (surplusReplica (Shards_want (Spec (cluster w))) (1 + Replicas (Spec (cluster w)))) nodes"
  show ?thesis
  proof (cases "sort_key (\<lambda>n. - nodeIndexOf n) ns")
    case (Cons v vs)
    then have "v \<in> set ns" by (rule sort_key_head [THEN conjunct1])
    then have "deletes nodes (surplusReplica (Shards_want (Spec (cluster w))) (1 + Replicas (Spec (cluster w))))
        (Write (DeleteNode (vn_Name v)) r)" for r
      by (auto simp: deletes_def ns_def)
    with Cons show ?thesis
      by (simp add: deleteExcessReplicas_def Let_def ns_def [symmetric] apiWrite_def one_call_event one_call_act)
  qed (simp add: deleteExcessReplicas_def Let_def ns_def [symmetric])
qed

lemma deleteExcessReplicas_idle:
  "deleteExcessReplicas E nodes w = (Inr False, w') \<Longrightarrow> w' = w"
  by (auto simp: deleteExcessReplicas_def Let_def split: list.splits prod.splits if_splits)

text \<open>A node of an excess shard that the order picks: lowest excess shard, highest index in it.\<close>

definition next_excess :: "ValkeyNode list \<Rightarrow> int \<Rightarrow> ValkeyNode \<Rightarrow> bool" where
  "next_excess nodes wantShards v \<longleftrightarrow>
     Atoi (lookup (vn_Labels v) LabelShardIndex) = (shardIndexOf v, None) \<and> wantShards \<le> shardIndexOf v \<and>
     (\<forall>u \<in> set nodes. Atoi (lookup (vn_Labels u) LabelShardIndex) = (shardIndexOf u, None) \<and> wantShards \<le> shardIndexOf u \<longrightarrow>
        shardIndexOf v < shardIndexOf u \<or> shardIndexOf v = shardIndexOf u \<and> nodeIndexOf u \<le> nodeIndexOf v)"

lemma set_excessShardNodes:
  "set (excessShardNodes nodes wantShards) =
     {v \<in> set nodes. Atoi (lookup (vn_Labels v) LabelShardIndex) = (shardIndexOf v, None) \<and> wantShards \<le> shardIndexOf v}"
proof -
  have "(case a of (shard, None) \<Rightarrow> \<not> shard < wantShards | (_, Some _) \<Rightarrow> False) \<longleftrightarrow> a = (fst a, None) \<and> wantShards \<le> fst a"
    for a :: "int \<times> num_error option"
    by (cases a; cases "snd a") auto
  then show ?thesis by (auto simp: excessShardNodes_def shardIndexOf_def)
qed

lemma excessShardNodes_head:
  assumes "excessShardNodes nodes wantShards = v # vs"
  shows "v \<in> set nodes \<and> next_excess nodes wantShards v"
proof -
  have v: "v \<in> set (excessShardNodes nodes wantShards)" using assms by simp
  have "(shardIndexOf v, - nodeIndexOf v) \<le> (shardIndexOf u, - nodeIndexOf u)"
    if "u \<in> set (excessShardNodes nodes wantShards)" for u
    using sort_key_head [OF assms [unfolded excessShardNodes_def]] that by (simp add: excessShardNodes_def)
  then have "shardIndexOf v < shardIndexOf u \<or> shardIndexOf v = shardIndexOf u \<and> nodeIndexOf u \<le> nodeIndexOf v"
    if "u \<in> set (excessShardNodes nodes wantShards)" for u
    using that by (fastforce simp: less_eq_prod_def)
  then show ?thesis using v by (simp add: set_excessShardNodes next_excess_def)
qed

lemma deleteDrainedShardNodes_one_call:
  "one_call (\<lambda>a. drainingShardPrimaries st (positionsByIP nodes) (Shards_want (Spec (cluster w))) = [] \<and>
       deletes nodes (next_excess nodes (Shards_want (Spec (cluster w)))) a) w (snd (deleteDrainedShardNodes E st nodes w))"
proof -
  define k where "k = Shards_want (Spec (cluster w))"
  show ?thesis
  proof (cases "excessShardNodes nodes k = [] \<or> drainingShardsStillOwnSlots st (positionsByIP nodes) k")
    case True
    then have "snd (deleteDrainedShardNodes E st nodes w) = w"
      by (auto simp: deleteDrainedShardNodes_def Let_def k_def split: list.splits)
    then show ?thesis by simp
  next
    case False
    then obtain v vs where c: "excessShardNodes nodes k = v # vs" by (cases "excessShardNodes nodes k") auto
    have "deletes nodes (next_excess nodes k) (Write (DeleteNode (vn_Name v)) r)" for r
      using excessShardNodes_head [OF c] by (auto simp: deletes_def)
    with False c show ?thesis
      by (simp add: deleteDrainedShardNodes_def Let_def k_def [symmetric] apiWrite_def one_call_event one_call_act
          drainingShardsStillOwnSlots_def)
  qed
qed

lemma deleteDrainedShardNodes_idle: "deleteDrainedShardNodes E st nodes w = (Inr False, w') \<Longrightarrow> w' = w"
  by (auto simp: deleteDrainedShardNodes_def Let_def split: list.splits prod.splits if_splits)

lemma drainShard_one_call:
  "one_call (\<lambda>a. \<exists>mv. PlanDrainMove (Some src) (remainingPrimaries st (positionsByIP nodes) k) BatchSize = Some mv \<and>
      migrates E st mv (trace w) a) w (snd (drainShard E st nodes src k w))"
proof (cases "PlanDrainMove (Some src) (remainingPrimaries st (positionsByIP nodes) k) BatchSize")
  case (Some mv)
  obtain res w1 where m: "migrateSlots E st mv w = (res, w1)" by fastforce
  have "one_call (\<lambda>a. \<exists>mv'. Some mv = Some mv' \<and> migrates E st mv' (trace w) a) w w1"
    using migrateSlots_one_call [OF m] by (rule one_call_mono) simp
  then show ?thesis
    by (simp add: drainShard_def Some m one_call_event split: sum.split bool.split)
qed (simp add: drainShard_def)

lemma drainShard_idle: "drainShard E st nodes src k w = (Inr False, w') \<Longrightarrow> w' = w"
  by (auto simp: drainShard_def split: option.splits prod.splits sum.splits bool.splits)

definition scale_in_call :: "env \<Rightarrow> ClusterState \<Rightarrow> ValkeyNode list \<Rightarrow> world \<Rightarrow> Action \<Rightarrow> bool" where
  "scale_in_call E st nodes w a \<longleftrightarrow>
     (let k = Shards_want (Spec (cluster w)); draining = drainingShardPrimaries st (positionsByIP nodes) k in
      deletes nodes (surplusReplica k (1 + Replicas (Spec (cluster w)))) a \<or>
      draining = [] \<and> deletes nodes (next_excess nodes k) a \<or>
      (\<exists>src mv. src \<in> set draining \<and>
         PlanDrainMove (Some src) (remainingPrimaries st (positionsByIP nodes) k) BatchSize = Some mv \<and>
         migrates E st mv (trace w) a))"

lemma handleScaleIn_cases:
  "snd (handleScaleIn E st nodes w) = snd (deleteExcessReplicas E nodes w) \<and>
     fst (deleteExcessReplicas E nodes w) \<noteq> Inr False \<and> fst (handleScaleIn E st nodes w) = fst (deleteExcessReplicas E nodes w) \<or>
   drainingShardPrimaries st (positionsByIP nodes) (Shards_want (Spec (cluster w))) = [] \<and>
     handleScaleIn E st nodes w = deleteDrainedShardNodes E st nodes w \<or>
   (\<exists>src. src \<in> set (drainingShardPrimaries st (positionsByIP nodes) (Shards_want (Spec (cluster w)))) \<and>
     handleScaleIn E st nodes w = drainShard E st nodes src (Shards_want (Spec (cluster w))) w)"
proof (cases "fst (deleteExcessReplicas E nodes w) = Inr False")
  case True
  then have "deleteExcessReplicas E nodes w = (Inr False, w)"
    using deleteExcessReplicas_idle [of E nodes w "snd (deleteExcessReplicas E nodes w)"] by (auto simp: prod_eq_iff)
  then show ?thesis
    by (cases "drainingShardPrimaries st (positionsByIP nodes) (Shards_want (Spec (cluster w)))") (auto simp: handleScaleIn_def Let_def)
next
  case False
  then show ?thesis
    by (cases "deleteExcessReplicas E nodes w") (auto simp: handleScaleIn_def Let_def split: sum.splits bool.splits)
qed

lemma handleScaleIn_one_call: "one_call (scale_in_call E st nodes w) w (snd (handleScaleIn E st nodes w))"
  using handleScaleIn_cases [of E st nodes w]
proof (elim disjE exE conjE)
  assume a: "snd (handleScaleIn E st nodes w) = snd (deleteExcessReplicas E nodes w)"
  show ?thesis unfolding a by (rule one_call_mono [OF deleteExcessReplicas_one_call]) (simp add: scale_in_call_def Let_def)
next
  assume a: "handleScaleIn E st nodes w = deleteDrainedShardNodes E st nodes w"
  show ?thesis unfolding a by (rule one_call_mono [OF deleteDrainedShardNodes_one_call]) (simp add: scale_in_call_def Let_def)
next
  fix src assume s: "src \<in> set (drainingShardPrimaries st (positionsByIP nodes) (Shards_want (Spec (cluster w))))"
    and a: "handleScaleIn E st nodes w = drainShard E st nodes src (Shards_want (Spec (cluster w))) w"
  show ?thesis unfolding a
    by (rule one_call_mono [OF drainShard_one_call]) (use s in \<open>auto simp: scale_in_call_def Let_def\<close>)
qed

lemma handleScaleIn_idle: "fst (handleScaleIn E st nodes w) = Inr False \<Longrightarrow> snd (handleScaleIn E st nodes w) = w"
  using handleScaleIn_cases [of E st nodes w]
proof (elim disjE exE conjE)
  assume f: "fst (handleScaleIn E st nodes w) = Inr False"
  { assume "handleScaleIn E st nodes w = deleteDrainedShardNodes E st nodes w"
    with f show ?thesis using deleteDrainedShardNodes_idle by (metis prod.collapse) }
  { fix src assume "handleScaleIn E st nodes w = drainShard E st nodes src (Shards_want (Spec (cluster w))) w"
    with f show ?thesis using drainShard_idle by (metis prod.collapse) }
qed simp

interpretation scaling_in: phase "handleScaleIn E st nodes" "\<lambda>r. r = Inr False" "{Removing, Moving}"
proof
  fix w
  have "only {Removing, Moving} a" if "scale_in_call E st nodes w a" for a
    using that by (auto simp: scale_in_call_def Let_def deletes_def migrates_def only_kinds)
  then show "adds (only {Removing, Moving}) w (snd (handleScaleIn E st nodes w))"
    by (intro one_call_adds [OF handleScaleIn_one_call]) simp_all
  show "fst (handleScaleIn E st nodes w) = Inr False \<Longrightarrow> adds quiet w (snd (handleScaleIn E st nodes w))"
    by (simp add: handleScaleIn_idle)
qed

subsection \<open>Moves go where the plan says\<close>

lemma drainingPrimary_SomeD:
  "drainingPrimary pos k sh = Some p \<Longrightarrow>
     Shard_Primary sh = Some p \<and> NumSlots p \<noteq> 0 \<and> (\<exists>q. pos (hostFromAddr (Addr p)) = Some q \<and> k \<le> np_shard q)"
  by (auto simp: drainingPrimary_def split: option.splits if_splits)

lemma set_drainingShardPrimaries:
  "p \<in> set (drainingShardPrimaries st pos k) \<longleftrightarrow> (\<exists>sh \<in> set (Shards st). drainingPrimary pos k sh = Some p)"
  by (simp add: drainingShardPrimaries_def sortByAddr_def set_map_filter)

lemma set_remainingPrimaries:
  "p \<in> set (remainingPrimaries st pos k) \<longleftrightarrow> (\<exists>sh \<in> set (Shards st). Shard_Primary sh = Some p \<and>
     \<not> (\<exists>q. pos (hostFromAddr (Addr p)) = Some q \<and> k \<le> np_shard q))"
proof -
  have "remainingPrimary pos k sh = Some p \<longleftrightarrow>
     Shard_Primary sh = Some p \<and> \<not> (\<exists>q. pos (hostFromAddr (Addr p)) = Some q \<and> k \<le> np_shard q)" for sh
    by (auto simp: remainingPrimary_def split: option.splits if_splits)
  then show ?thesis by (simp add: remainingPrimaries_def set_map_filter)
qed

lemma NodeByID_scraped:
  assumes "wf_nodes (List.map_filter (\<lambda>n. n) scraped)" "n \<in> set (Nodes (NewClusterState scraped))"
    "NodeByID (NewClusterState scraped) (ID n) = Some m"
  shows "m = n"
proof -
  let ?ns = "List.map_filter (\<lambda>n. n) scraped"
  have m: "m \<in> set ?ns" "ID m = ID n"
    using find_SomeD [OF assms(3) [unfolded NodeByID_def NewClusterState_byID]] by auto
  moreover have n: "n \<in> set ?ns" using assms(2) by (simp add: NewClusterState_shape(1))
  moreover have "inj_on ID (set ?ns)" using assms(1) by (simp add: wf_nodes_def distinct_map)
  ultimately show ?thesis by (blast dest: inj_onD)
qed

lemma drain_migration:
  assumes wf: "wf_nodes (List.map_filter (\<lambda>n. n) scraped)"
    and st: "st = NewClusterState scraped"
    and src: "src \<in> set (drainingShardPrimaries st pos k)"
    and plan: "PlanDrainMove (Some src) (remainingPrimaries st pos k) BatchSize = Some mv"
    and mig: "migrates E st mv tr a"
  shows "\<exists>dst rs r. a = Engine (Addr src) (ClusterMigrateSlots rs (ID dst)) r \<and> dst \<in> set (remainingPrimaries st pos k) \<and>
     ID dst \<noteq> ID src \<and> slot_set rs \<noteq> {} \<and> slot_set rs \<subseteq> slot_set (NodeSlots src)"
proof -
  from src obtain sh where sh: "sh \<in> set (Shards st)" "Shard_Primary sh = Some src"
    using drainingPrimary_SomeD by (fastforce simp: set_drainingShardPrimaries)
  from primary_of_shard [OF wf sh [unfolded st]] have p: "src \<in> set (Nodes st)" by (simp add: st)
  then have v: "valid_ranges (NodeSlots src)"
    using wf slot_bounds_valid by (simp add: st NewClusterState_shape(1) wf_nodes_def)
  note c = drain_contract [OF v plan]
  from mig obtain n r where n: "NodeByID st (SrcID mv) = Some n" "a = Engine (Addr n) (ClusterMigrateSlots (Ranges mv) (DstID mv)) r"
    by (auto simp: migrates_def)
  have "n = src" using NodeByID_scraped [OF wf p [unfolded st]] n(1) c(1) by (simp add: st)
  with n(2) c show ?thesis by (auto simp: moved_def)
qed

subsection \<open>Scaling in is safe\<close>



text \<open>Slots are migrated one move at a time: rebalancing issues at most one \<open>MIGRATESLOTS\<close> per pass,
  for the move planned, to the scraped node with the source's id, and only if the source knows the
  destination and reports no migration in progress.\<close>

theorem rebalance_one_move:
  "one_call (\<lambda>a. \<exists>mv src ms r. PlanRebalanceMove st (Shards_want (Spec (cluster w))) = Some mv \<and>
       NodeByID st (SrcID mv) = Some src \<and> GossipVisible st (SrcID mv) (DstID mv) \<and>
       slotMigrations E (trace w) (Addr src) = Inr ms \<and> \<not> AnyMigrationInProgress ms \<and>
       a = Engine (Addr src) (ClusterMigrateSlots (Ranges mv) (DstID mv)) r)
     w (snd (rebalanceSlots E st w))"
  using rebalanceSlots_one_call by (rule one_call_mono) (auto simp: migrates_def)

end
