(* ===== verification/Recovery.thy ===== *)
theory Recovery
  imports Scaling
begin

text \<open>
  Recovery and readiness: \<^verbatim>\<open>recovery.go\<close> and \<^verbatim>\<open>verify.go\<close> of
  \<^verbatim>\<open>src/pkg/controller/perconavalkeycluster\<close>.  Orphaned replicas are promoted without quorum only when
  nothing else can bring the shard back, stale nodes are forgotten only when they cannot come back, and
  the cluster is marked ready exactly when the scrape shows it healthy.
\<close>

subsection \<open>Promoting orphaned replicas\<close>

fun FailoverMode_String :: "FailoverMode \<Rightarrow> string" where
  "FailoverMode_String FailoverGraceful = ''''"
| "FailoverMode_String FailoverForce = ''FORCE''"
| "FailoverMode_String FailoverTakeover = ''TAKEOVER''"

definition failoverModeLabel :: "FailoverMode \<Rightarrow> string" where
  "failoverModeLabel mode =
     (if mode = FailoverGraceful then ''FAILOVER'' else ''FAILOVER '' @ FailoverMode_String mode)"

definition promote_body :: "env \<Rightarrow> ClusterState \<Rightarrow> NodeState \<Rightarrow> bool \<Rightarrow> world \<Rightarrow> (go_error, bool) result \<times> world" where
  "promote_body E st primary acted w =
     (case BestReplicaOf st (ID primary) of
        None \<Rightarrow> (Inr acted, w)
      | Some rep \<Rightarrow>
          if \<not> client rep then (Inr acted, w)
          else let mode = FailoverDecision (HasFailoverQuorum st) in
               case command E (Addr rep) (ClusterFailover mode) w of
                 (Some e, w1) \<Rightarrow>
                   (Inl (Err (''CLUSTER FAILOVER '' @ FailoverMode_String mode @ '' on '' @ ID rep @ '': '' @ e)), w1)
               | (None, w1) \<Rightarrow>
                   (Inr True,
                    event EventNormal ''FailoverInitiated'' (''failover initiated for failed primary '' @ ID primary)
                      (event EventNormal ''ReplicasTakenOver'' (''promoted replica '' @ ID rep @ '' of failed primary '' @
                         ID primary @ '' via '' @ failoverModeLabel mode) w1)))"

definition promoteOrphanedReplicas :: "env \<Rightarrow> ClusterState \<Rightarrow> world \<Rightarrow> (go_error, bool) result \<times> world" where
  "promoteOrphanedReplicas E st w =
     (if PersistenceSpec (Spec (cluster w)) \<noteq> None then (Inr False, w)
      else if HasFailoverQuorum st then (Inr False, w)
      else if FailedPrimaries st = [] then (Inr False, w)
      else for_loop (promote_body E st) (FailedPrimaries st) False w)"

subsection \<open>Forgetting stale nodes\<close>

definition backingNodeIDs :: "ClusterState \<Rightarrow> ValkeyNode list \<Rightarrow> string set" where
  "backingNodeIDs st nodes =
     (let liveIPs = set (filter (\<lambda>ip. ip \<noteq> '''') (map vn_PodIP nodes))
      in set (map ID (filter (\<lambda>n. ID n \<noteq> '''' \<and> hostFromAddr (Addr n) \<in> liveIPs) (Nodes st))))"

definition forget_body :: "env \<Rightarrow> string \<Rightarrow> NodeState \<Rightarrow> unit \<Rightarrow> world \<Rightarrow> (go_error, unit) result \<times> world" where
  "forget_body E nid n u w =
     (if ID n = nid \<or> \<not> client n then (Inr (), w)
      else case command E (Addr n) (ClusterForget nid) w of
             (Some e, w1) \<Rightarrow> (Inl (Err (''forget '' @ nid @ '' on '' @ Addr n @ '': '' @ e)), w1)
           | (None, w1) \<Rightarrow> (Inr (), w1))"

definition broadcastForget :: "env \<Rightarrow> ClusterState \<Rightarrow> string \<Rightarrow> world \<Rightarrow> (go_error, unit) result \<times> world" where
  "broadcastForget E st nid w = for_loop (forget_body E nid) (Nodes st) () w"

definition stale_body :: "env \<Rightarrow> ClusterState \<Rightarrow> string \<Rightarrow> bool \<Rightarrow> world \<Rightarrow> (go_error, bool) result \<times> world" where
  "stale_body E st nid acted w =
     (if IsNodeFailed st nid \<and> (PersistenceSpec (Spec (cluster w)) \<noteq> None \<or> HasFailoverQuorum st) then (Inr acted, w)
      else case broadcastForget E st nid w of
             (Inl e, w1) \<Rightarrow>
               (Inl e, event EventWarning ''NodeForgetFailed'' (''CLUSTER FORGET '' @ nid @ '' failed: '' @ error_text e) w1)
           | (Inr _, w1) \<Rightarrow>
               (Inr True, event EventNormal ''StaleNodeForgotten'' (''forgot stale node '' @ nid @ '' (no backing ValkeyNode)'') w1))"

definition forgetStaleNodes :: "env \<Rightarrow> ClusterState \<Rightarrow> ValkeyNode list \<Rightarrow> world \<Rightarrow> (go_error, bool) result \<times> world" where
  "forgetStaleNodes E st nodes w =
     (let stale = StaleNodeIDs st (backingNodeIDs st nodes)
      in if stale = [] then (Inr False, w) else for_loop (stale_body E st) stale False w)"

subsection \<open>Readiness\<close>

definition slotOwningShards :: "ClusterState \<Rightarrow> ShardState list" where
  "slotOwningShards st = filter (\<lambda>sh. Shard_NumSlots sh > 0) (Shards st)"

definition shardReady :: "int \<Rightarrow> ShardState \<Rightarrow> bool" where
  "shardReady wantPerShard sh \<longleftrightarrow> Shard_NumSlots sh \<noteq> 0 \<and> \<not> int (length (Shard_Nodes sh)) < wantPerShard \<and>
     list_all (\<lambda>n. \<not> (IsReplica n \<and> \<not> LinkUp n)) (Shard_Nodes sh)"

definition countReadyShards :: "ClusterState \<Rightarrow> int \<Rightarrow> int" where
  "countReadyShards st wantPerShard = int (length (filter (shardReady wantPerShard) (Shards st)))"

definition boolToStatus :: "bool \<Rightarrow> ConditionStatus" where
  "boolToStatus b = (if b then ConditionTrue else ConditionFalse)"

definition slotsReason :: "bool \<Rightarrow> string" where
  "slotsReason covered = (if covered then ''ClusterHealthy'' else ''SlotsUnassigned'')"

definition slotsMessage :: "bool \<Rightarrow> string" where
  "slotsMessage covered = (if covered then ''all 16384 slots assigned'' else ''slots not fully assigned'')"

definition notReady :: "env \<Rightarrow> string \<Rightarrow> string \<Rightarrow> world \<Rightarrow> (go_error, bool) result \<times> world" where
  "notReady E reason msg w =
     (let w1 = setCondition CondReady ConditionFalse reason msg w;
          w2 = setCondition CondProgressing ConditionTrue (progressingReason (cluster w1)) msg w1
      in case writeStatus E w2 of
           (Some e, w3) \<Rightarrow> (Inl (Err e), w3)
         | (None, w3) \<Rightarrow> (Inr False, w3))"

definition setStatus :: "(ClusterStatus \<Rightarrow> ClusterStatus) \<Rightarrow> world \<Rightarrow> world" where
  "setStatus f w = w \<lparr> cluster := (cluster w) \<lparr> Status := f (Status (cluster w)) \<rparr> \<rparr>"

text \<open>The counters and the conditions that only report, then the verdict, then the ready status.\<close>

definition observeShards :: "ClusterState \<Rightarrow> world \<Rightarrow> world" where
  "observeShards st w =
     (let shards = slotOwningShards st;
          w1 = setStatus (\<lambda>s. s \<lparr> StatusShards := int (length shards),
                                  ReadyShards := countReadyShards st (1 + Replicas (Spec (cluster w))) \<rparr>) w;
          slotsCovered = (GetUnassignedSlots st = []);
          w2 = setCondition CondSlotsAssigned (boolToStatus slotsCovered) (slotsReason slotsCovered) (slotsMessage slotsCovered) w1
      in if int (length shards) \<ge> Shards_want (Spec (cluster w)) \<and> slotsCovered
         then setCondition CondClusterFormed ConditionTrue ''ClusterHealthy'' ''all shards formed and slots assigned'' w2
         else w2)"

definition readyStatus :: "world \<Rightarrow> world" where
  "readyStatus w =
     (let w1 = setCondition CondReady ConditionTrue ''ClusterHealthy'' ''cluster healthy: all shards, replicas and 16384 slots present'' w;
          w2 = setCondition CondProgressing ConditionFalse ''ClusterHealthy'' ''converged'' w1;
          w3 = setCondition CondDegraded ConditionFalse ''ClusterHealthy'' ''healthy'' w2
      in setStatus (\<lambda>s. s \<lparr> ObservedGeneration := Generation (cluster w3),
                            LastObservedCrVersion := CrVersion (Spec (cluster w3)) \<rparr>) w3)"

definition verifyAndMarkReady :: "env \<Rightarrow> ClusterState \<Rightarrow> world \<Rightarrow> (go_error, bool) result \<times> world" where
  "verifyAndMarkReady E st w =
     (let wantShards = Shards_want (Spec (cluster w));
          shards = slotOwningShards st;
          w1 = observeShards st w
      in if int (length shards) < wantShards then notReady E ''MissingShards'' ''fewer shards than desired'' w1
         else if GetUnassignedSlots st \<noteq> [] then notReady E ''SlotsUnassigned'' ''not all 16384 slots assigned'' w1
         else if ReadyShards (Status (cluster w1)) < wantShards
           then notReady E ''MissingReplicas'' ''a shard is missing its replicas'' w1
         else if \<not> IsReplicationInSync st
           then notReady E ''ReplicationNotInSync'' ''a replica's master_link_status is not up'' w1
         else case writeStatus E (readyStatus w1) of
                (Some e, w2) \<Rightarrow> (Inl (Err e), w2)
              | (None, w2) \<Rightarrow>
                  (Inr True, event EventNormal ''ClusterReady'' (''Cluster is healthy: '' @ Itoa (int (length shards)) @
                     '' shard(s), 16384 slots assigned'') w2))"

subsection \<open>Recovery acts only when it must\<close>

lemma FailoverDecision_no_quorum: "FailoverDecision False = FailoverTakeover"
  by (simp add: FailoverDecision_def)

definition takes_over :: "ClusterState \<Rightarrow> Cluster \<Rightarrow> Action \<Rightarrow> bool" where
  "takes_over st c a \<longleftrightarrow> (case a of
     Engine addr (ClusterFailover mode) _ \<Rightarrow> mode = FailoverTakeover \<and> PersistenceSpec (Spec c) = None \<and> \<not> HasFailoverQuorum st \<and>
       (\<exists>p rep. p \<in> set (FailedPrimaries st) \<and> BestReplicaOf st (ID p) = Some rep \<and> addr = Addr rep)
   | Engine _ _ _ \<Rightarrow> False | Write _ _ \<Rightarrow> False | Event _ _ _ \<Rightarrow> True)"

lemma takes_over_Event [simp]: "takes_over st c (Event t r m)"
  by (simp add: takes_over_def)

lemma promote_body_takes_over:
  assumes "p \<in> set (FailedPrimaries st)" "\<not> HasFailoverQuorum st" "PersistenceSpec (Spec c) = None"
    "promote_body E st p acted w = (r, w')"
  shows "adds (takes_over st c) w w'"
proof (cases "BestReplicaOf st (ID p)")
  case None
  with assms(4) show ?thesis by (simp add: promote_body_def)
next
  case (Some rep)
  then have "takes_over st c (Engine (Addr rep) (ClusterFailover FailoverTakeover) e)" for e
    using assms(1-3) by (auto simp: takes_over_def)
  with Some assms(2,4) show ?thesis
    by (auto simp: promote_body_def command_def Let_def FailoverDecision_no_quorum intro!: adds_event adds_act
        split: if_splits option.splits)
qed

lemma promote_tallied: "tallied {Promotion} False acted w (promote_body E st p acted w)"
  by (auto simp: promote_body_def tallied_def command_def Let_def only_kinds adds_event split: option.split)

lemma promote_tallied_all: "tallied {Promotion} False False w (promoteOrphanedReplicas E st w)"
  by (simp add: promoteOrphanedReplicas_def tallied_for_loop promote_tallied)

interpretation promoting: phase "promoteOrphanedReplicas E st" "\<lambda>r. r = Inr False" "{Promotion}"
  by unfold_locales (rule tallied_confined tallied_idle, rule promote_tallied_all, assumption?)+


definition suppressed :: "ClusterState \<Rightarrow> Cluster \<Rightarrow> string \<Rightarrow> bool" where
  "suppressed st c nid \<longleftrightarrow> IsNodeFailed st nid \<and> (PersistenceSpec (Spec c) \<noteq> None \<or> HasFailoverQuorum st)"

definition forgets :: "ClusterState \<Rightarrow> string \<Rightarrow> Action \<Rightarrow> bool" where
  "forgets st nid a \<longleftrightarrow> (case a of
     Engine addr (ClusterForget x) _ \<Rightarrow> x = nid \<and> (\<exists>n \<in> set (Nodes st). Addr n = addr \<and> ID n \<noteq> nid)
   | Engine _ _ _ \<Rightarrow> False | Write _ _ \<Rightarrow> False | Event _ _ _ \<Rightarrow> True)"

lemma forgets_Event [simp]: "forgets st nid (Event t r m)"
  by (simp add: forgets_def)

lemma forget_body_forgets:
  assumes "n \<in> set (Nodes st)" "forget_body E nid n u w = (r, w')"
  shows "adds (forgets st nid) w w' \<and> cluster w' = cluster w"
proof (cases "ID n = nid \<or> \<not> client n")
  case False
  have f: "forgets st nid (Engine (Addr n) (ClusterForget nid) e)" for e
    using False assms(1) by (auto simp: forgets_def)
  have "w' = act (Engine (Addr n) (ClusterForget nid) (engine E (trace w) (Addr n) (ClusterForget nid))) w"
    using assms(2) False by (auto simp: forget_body_def command_def Let_def split: option.splits)
  then show ?thesis using f by simp
qed (use assms in \<open>auto simp: forget_body_def split: if_splits\<close>)

lemma broadcastForget_forgets:
  assumes "broadcastForget E st nid w = (r, w')"
  shows "adds (forgets st nid) w w' \<and> cluster w' = cluster w"
proof -
  have "(\<forall>e w'. for_loop (forget_body E nid) (Nodes st) () w = (Inl e, w') \<longrightarrow> adds (forgets st nid) w w' \<and> cluster w' = cluster w) \<and>
        (\<forall>s w'. for_loop (forget_body E nid) (Nodes st) () w = (Inr s, w') \<longrightarrow> adds (forgets st nid) w w' \<and> cluster w' = cluster w)"
    by (rule for_loop_rule [where I = "\<lambda>_ w'. adds (forgets st nid) w w' \<and> cluster w' = cluster w"])
      (auto dest: forget_body_forgets intro: adds_trans)
  then show ?thesis using assms by (cases r) (auto simp: broadcastForget_def)
qed

lemma stale_body_forgets:
  assumes "stale_body E st nid acted w = (r, w')"
  shows "(if suppressed st (cluster w) nid then w' = w else adds (forgets st nid) w w') \<and> cluster w' = cluster w"
proof (cases "suppressed st (cluster w) nid")
  case True
  with assms show ?thesis by (simp add: stale_body_def suppressed_def)
next
  case False
  obtain r1 w1 where b: "broadcastForget E st nid w = (r1, w1)" by fastforce
  note f = broadcastForget_forgets [OF b]
  then have "adds (forgets st nid) w w' \<and> cluster w' = cluster w"
    using assms False b unfolding suppressed_def stale_body_def by (cases r1) (auto simp: adds_event)
  then show ?thesis using False by simp
qed

lemma forget_tallied: "tallied {Forgetting} False acted w (stale_body E st nid acted w)"
proof -
  have o: "only {Forgetting} a" if "forgets st nid a" for a
    using that by (auto simp: forgets_def only_kinds split: Action.splits Command.splits)
  obtain r w' where s: "stale_body E st nid acted w = (r, w')" by fastforce
  have "adds (only {Forgetting}) w w'"
    using stale_body_forgets [OF s] o by (auto split: if_splits intro: adds_mono)
  moreover have "k = True \<or> k = acted \<and> w' = w" if "r = Inr k" for k
    using s that by (cases "broadcastForget E st nid w") (auto simp: stale_body_def split: if_splits sum.splits)
  ultimately show ?thesis using s by (auto simp: tallied_def split: sum.split)
qed

interpretation forgetting: phase "forgetStaleNodes E st nodes" "\<lambda>r. r = Inr False" "{Forgetting}"
proof -
  have "tallied {Forgetting} False False w (forgetStaleNodes E st nodes w)" for w
    by (simp add: forgetStaleNodes_def Let_def tallied_for_loop forget_tallied)
  then show "phase (forgetStaleNodes E st nodes) (\<lambda>r. r = Inr False) {Forgetting}"
    by unfold_locales (erule tallied_confined [rotated] tallied_idle | blast intro: tallied_confined tallied_idle)+
qed

lemma forget_body_Inr:
  assumes "forget_body E nid n u w = (Inr u', w')" "ID n \<noteq> nid" "client n"
  shows "Engine (Addr n) (ClusterForget nid) None \<in> set (added w w')"
  using assms by (auto simp: forget_body_def command_def Let_def added_def split: option.splits)

lemma broadcastForget_all:
  assumes "broadcastForget E st nid w = (Inr u, w')" "n \<in> set (Nodes st)" "ID n \<noteq> nid" "client n"
  shows "Engine (Addr n) (ClusterForget nid) None \<in> set (added w w')"
proof -
  define A :: "NodeState \<Rightarrow> Action set" where
    "A n = (if ID n \<noteq> nid \<and> client n then {Engine (Addr n) (ClusterForget nid) None} else {})" for n
  have ext: "adds (\<lambda>_. True) w w' \<and> True" if "x \<in> set (Nodes st)" "forget_body E nid x s w = (r, w')" for x s w r w'
    using forget_body_forgets [OF that] by (auto dest: adds_any)
  have each: "A x \<subseteq> set (added w w')" if "forget_body E nid x s w = (Inr s', w')" for x s w s' w'
    using forget_body_Inr [OF that] by (simp add: A_def)
  have "A n \<subseteq> set (added w w') \<and> adds (\<lambda>_. True) w w'"
    by (rule for_loop_each [where J = "\<lambda>_. True", OF assms(1) [unfolded broadcastForget_def] TrueI ext each assms(2)])
  then show ?thesis using assms(3,4) by (simp add: A_def)
qed

lemma stale_body_all:
  assumes "stale_body E st nid acted w = (Inr k, w')" "\<not> suppressed st (cluster w) nid"
    "n \<in> set (Nodes st)" "ID n \<noteq> nid" "client n"
  shows "Engine (Addr n) (ClusterForget nid) None \<in> set (added w w')"
proof -
  obtain r1 w1 where b: "broadcastForget E st nid w = (r1, w1)" by fastforce
  note run = assms(1) [unfolded stale_body_def, folded suppressed_def]
  have r1: "r1 = Inr ()" using run assms(2) b by (cases r1) auto
  have ad: "adds (forgets st nid) w w1" using broadcastForget_forgets [OF b] by blast
  have "set (added w w1) \<subseteq> set (added w w')"
    using run assms(2) b r1 by (auto simp: event_def added_act [OF ad])
  then show ?thesis using broadcastForget_all [OF b [unfolded r1] assms(3-5)] by blast
qed

lemma stale_loop:
  fixes st nodes w
  defines "stale \<equiv> StaleNodeIDs st (backingNodeIDs st nodes)"
  assumes "forgetStaleNodes E st nodes w = (r, w')"
  shows "adds (\<lambda>a. \<exists>nid \<in> set stale. \<not> suppressed st (cluster w) nid \<and> forgets st nid a) w w' \<and> cluster w' = cluster w \<and>
     (\<forall>k nid n. r = Inr k \<longrightarrow> nid \<in> set stale \<longrightarrow> \<not> suppressed st (cluster w) nid \<longrightarrow> n \<in> set (Nodes st) \<longrightarrow> ID n \<noteq> nid \<longrightarrow>
        client n \<longrightarrow> Engine (Addr n) (ClusterForget nid) None \<in> set (added w w'))"
proof (cases "stale = []")
  case True
  with assms show ?thesis by (simp add: forgetStaleNodes_def)
next
  case False
  then have run: "for_loop (stale_body E st) stale False w = (r, w')"
    using assms by (simp add: forgetStaleNodes_def)
  define P where "P = (\<lambda>a. \<exists>nid \<in> set stale. \<not> suppressed st (cluster w) nid \<and> forgets st nid a)"
  have step: "adds P v v' \<and> cluster v' = cluster w"
    if "nid \<in> set stale" "cluster v = cluster w" "stale_body E st nid s v = (x, v')" for nid s v x v'
    using stale_body_forgets [OF that(3)] that(1,2) adds_mono [of "forgets st nid" v v' P]
    by (auto simp: P_def split: if_splits)
  have all: "adds P w w' \<and> cluster w' = cluster w"
  proof -
    have "(\<forall>e w'. for_loop (stale_body E st) stale False w = (Inl e, w') \<longrightarrow> adds P w w' \<and> cluster w' = cluster w) \<and>
      (\<forall>s w'. for_loop (stale_body E st) stale False w = (Inr s, w') \<longrightarrow> adds P w w' \<and> cluster w' = cluster w)"
      by (rule for_loop_rule [where I = "\<lambda>_ w'. adds P w w' \<and> cluster w' = cluster w"]) (auto dest: step intro: adds_trans)
    then show ?thesis using run by (cases r) auto
  qed
  have "Engine (Addr n) (ClusterForget nid) None \<in> set (added w w')"
    if "r = Inr k" "nid \<in> set stale" "\<not> suppressed st (cluster w) nid" "n \<in> set (Nodes st)" "ID n \<noteq> nid" "client n" for k nid n
  proof -
    define A where "A x = (if x = nid then {Engine (Addr n) (ClusterForget nid) None} else {})" for x
    have ext: "adds (\<lambda>_. True) v v' \<and> cluster v' = cluster w"
      if "x \<in> set stale" "cluster v = cluster w" "stale_body E st x s v = (y, v')" for x s v y v'
      using step [OF that] by (auto dest: adds_any)
    have each: "A x \<subseteq> set (added v v')"
      if "x \<in> set stale" "cluster v = cluster w" "stale_body E st x s v = (Inr y, v')" for x s v y v'
      using stale_body_all [of E st nid s v y v' n] that \<open>\<not> suppressed st (cluster w) nid\<close> \<open>n \<in> set (Nodes st)\<close> \<open>ID n \<noteq> nid\<close> \<open>client n\<close>
      by (auto simp: A_def)
    have "A nid \<subseteq> set (added w w') \<and> adds (\<lambda>_. True) w w'"
      by (rule for_loop_each [where J = "\<lambda>v. cluster v = cluster w", OF run [unfolded that(1)] refl ext each that(2)])
    then show ?thesis by (simp add: A_def)
  qed
  with all show ?thesis unfolding P_def by blast
qed



subsection \<open>Ready means healthy\<close>

definition healthy :: "ClusterState \<Rightarrow> Cluster \<Rightarrow> bool" where
  "healthy st c \<longleftrightarrow> GetUnassignedSlots st = [] \<and> Shards_want (Spec c) \<le> int (length (slotOwningShards st)) \<and>
     Shards_want (Spec c) \<le> countReadyShards st (1 + Replicas (Spec c)) \<and> IsReplicationInSync st"

lemma cond_distinct [simp]:
  "CondReady \<noteq> CondProgressing" "CondReady \<noteq> CondDegraded" "CondProgressing \<noteq> CondDegraded" "CondReady \<noteq> CondSlotsAssigned"
  "CondReady \<noteq> CondClusterFormed" "CondDegraded \<noteq> CondReady" "CondDegraded \<noteq> CondProgressing" "CondProgressing \<noteq> CondReady"
  "CondSlotsAssigned \<noteq> CondReady" "CondClusterFormed \<noteq> CondReady" "CondDegraded \<noteq> CondSlotsAssigned"
  "CondDegraded \<noteq> CondClusterFormed" "CondSlotsAssigned \<noteq> CondDegraded" "CondClusterFormed \<noteq> CondDegraded"
  "CondProgressing \<noteq> CondSlotsAssigned" "CondProgressing \<noteq> CondClusterFormed" "CondSlotsAssigned \<noteq> CondProgressing"
  "CondClusterFormed \<noteq> CondProgressing" "CondSlotsAssigned \<noteq> CondClusterFormed" "CondClusterFormed \<noteq> CondSlotsAssigned"
  by (simp_all add: cond_defs)

lemma setStatus_simps [simp]:
  "Spec (cluster (setStatus f w)) = Spec (cluster w)" "trace (setStatus f w) = trace w"
  "Generation (cluster (setStatus f w)) = Generation (cluster w)" "Deleting (cluster (setStatus f w)) = Deleting (cluster w)"
  "Status (cluster (setStatus f w)) = f (Status (cluster w))"
  by (simp_all add: setStatus_def)

lemma conditionTrue_setStatus [simp]:
  "(\<And>s. Conditions (f s) = Conditions s) \<Longrightarrow> conditionTrue (cluster (setStatus f w)) t = conditionTrue (cluster w) t"
  by (simp add: conditionTrue_def)

lemma Status_setConditionC [simp]:
  "ReadyShards (Status (setConditionC t s r m c)) = ReadyShards (Status c)"
  "StatusShards (Status (setConditionC t s r m c)) = StatusShards (Status c)"
  "LastObservedCrVersion (Status (setConditionC t s r m c)) = LastObservedCrVersion (Status c)"
  by (simp_all add: setConditionC_def)

lemma notReady_result:
  assumes "notReady E reason msg w = (r, w')"
  shows "\<not> conditionTrue (cluster w') CondReady \<and> r \<noteq> Inr True \<and>
         conditionTrue (cluster w') CondDegraded = conditionTrue (cluster w) CondDegraded"
proof -
  define w1 where "w1 = setCondition CondReady ConditionFalse reason msg w"
  define w2 where "w2 = setCondition CondProgressing ConditionTrue (progressingReason (cluster w1)) msg w1"
  obtain e w3 where s: "writeStatus E w2 = (e, w3)" by fastforce
  have "w' = w3" "r \<noteq> Inr True"
    using assms s unfolding notReady_def Let_def w1_def [symmetric] w2_def [symmetric] by (auto split: option.splits)
  moreover have "cluster w3 = applyDerivedState (cluster w2)" using writeStatus_cluster [of E w2] s by simp
  ultimately show ?thesis by (simp add: w2_def w1_def)
qed

lemma observeShards_simps [simp]:
  "Spec (cluster (observeShards st w)) = Spec (cluster w)" "Deleting (cluster (observeShards st w)) = Deleting (cluster w)"
  "ReadyShards (Status (cluster (observeShards st w))) = countReadyShards st (1 + Replicas (Spec (cluster w)))"
  "conditionTrue (cluster (observeShards st w)) CondReady = conditionTrue (cluster w) CondReady"
  "conditionTrue (cluster (observeShards st w)) CondDegraded = conditionTrue (cluster w) CondDegraded"
  "trace (observeShards st w) = trace w"
  by (simp_all add: observeShards_def Let_def)

lemma observeShards_slots [simp]:
  "conditionTrue (cluster (observeShards st w)) CondSlotsAssigned \<longleftrightarrow> GetUnassignedSlots st = []"
  by (simp add: observeShards_def Let_def boolToStatus_def)

lemma readyStatus_simps [simp]:
  "conditionTrue (cluster (readyStatus w)) CondReady" "\<not> conditionTrue (cluster (readyStatus w)) CondDegraded"
  "LastObservedCrVersion (Status (cluster (readyStatus w))) = CrVersion (Spec (cluster w))"
  "Deleting (cluster (readyStatus w)) = Deleting (cluster w)" "trace (readyStatus w) = trace w"
  by (simp_all add: readyStatus_def Let_def)

lemma verify_unhealthy:
  assumes "\<not> healthy st (cluster w)"
  shows "\<exists>reason msg. verifyAndMarkReady E st w = notReady E reason msg (observeShards st w)"
proof -
  consider "int (length (slotOwningShards st)) < Shards_want (Spec (cluster w))"
    | "\<not> int (length (slotOwningShards st)) < Shards_want (Spec (cluster w))" "GetUnassignedSlots st \<noteq> []"
    | "\<not> int (length (slotOwningShards st)) < Shards_want (Spec (cluster w))" "GetUnassignedSlots st = []"
      "countReadyShards st (1 + Replicas (Spec (cluster w))) < Shards_want (Spec (cluster w))"
    | "\<not> int (length (slotOwningShards st)) < Shards_want (Spec (cluster w))" "GetUnassignedSlots st = []"
      "\<not> countReadyShards st (1 + Replicas (Spec (cluster w))) < Shards_want (Spec (cluster w))" "\<not> IsReplicationInSync st"
    using assms by (fastforce simp: healthy_def)
  then show ?thesis
    unfolding verifyAndMarkReady_def Let_def observeShards_simps
    by cases (simp_all only: if_True if_False simp_thms, blast+)
qed

lemma verify_healthy:
  assumes "healthy st (cluster w)" "writeStatus E (readyStatus (observeShards st w)) = (e, w2)"
  shows "verifyAndMarkReady E st w = (case e of Some x \<Rightarrow> (Inl (Err x), w2)
     | None \<Rightarrow> (Inr True, event EventNormal ''ClusterReady'' (''Cluster is healthy: '' @ Itoa (int (length (slotOwningShards st))) @
          '' shard(s), 16384 slots assigned'') w2))"
proof -
  have h: "GetUnassignedSlots st = []" "\<not> int (length (slotOwningShards st)) < Shards_want (Spec (cluster w))"
    "\<not> countReadyShards st (1 + Replicas (Spec (cluster w))) < Shards_want (Spec (cluster w))" "IsReplicationInSync st"
    using assms(1) by (auto simp: healthy_def)
  show ?thesis
    unfolding verifyAndMarkReady_def Let_def observeShards_simps
    by (simp only: h if_True if_False simp_thms assms(2) prod.case split: option.split)
qed

lemma verify_result:
  fixes E st w
  defines "res \<equiv> verifyAndMarkReady E st w"
  shows "conditionTrue (cluster (snd res)) CondReady = healthy st (cluster w) \<and>
    (fst res = Inr True \<longrightarrow> healthy st (cluster w)) \<and>
    (healthy st (cluster w) \<longrightarrow> \<not> conditionTrue (cluster (snd res)) CondDegraded \<and>
       LastObservedCrVersion (Status (cluster (snd res))) = CrVersion (Spec (cluster w)) \<and>
       (Deleting (cluster w) \<or> State (Status (cluster (snd res))) = StateReady)) \<and>
    (\<not> healthy st (cluster w) \<longrightarrow> State (Status (cluster (snd res))) \<noteq> StateReady)"
proof (cases "healthy st (cluster w)")
  case False
  obtain reason msg where r: "res = notReady E reason msg (observeShards st w)"
    using verify_unhealthy [OF False] res_def by blast
  obtain x w' where n: "notReady E reason msg (observeShards st w) = (x, w')" by fastforce
  define w2 where "w2 = setCondition CondProgressing ConditionTrue
      (progressingReason (cluster (setCondition CondReady ConditionFalse reason msg (observeShards st w)))) msg
      (setCondition CondReady ConditionFalse reason msg (observeShards st w))"
  have "cluster w' = applyDerivedState (cluster w2)"
    using n writeStatus_cluster [of E w2] unfolding notReady_def Let_def w2_def [symmetric]
    by (cases "writeStatus E w2") (auto split: option.splits)
  moreover have "\<not> conditionTrue (cluster w2) CondReady" by (simp add: w2_def)
  ultimately have "State (Status (cluster w')) \<noteq> StateReady" by (simp add: deriveState_def)
  with False r n notReady_result [OF n] show ?thesis by simp
next
  case True
  obtain e w2 where s: "writeStatus E (readyStatus (observeShards st w)) = (e, w2)" by fastforce
  have c: "cluster w2 = applyDerivedState (cluster (readyStatus (observeShards st w)))"
    using writeStatus_cluster [of E "readyStatus (observeShards st w)"] s by simp
  have "cluster (snd res) = cluster w2"
    unfolding res_def verify_healthy [OF True s] by (cases e) simp_all
  then show ?thesis using True c by (simp add: deriveState_def)
qed



end
