(* ===== verification/Restore_Target.thy ===== *)
theory Restore_Target
  imports Recovery
begin

text \<open>
  A cluster that is being restored: \<^verbatim>\<open>restore_target.go\<close> and \<^verbatim>\<open>restore_reform.go\<close> of
  \<^verbatim>\<open>src/pkg/controller/perconavalkeycluster\<close>.  Annotations mark the cluster as a restore target and name
  the backup each seeded primary loads; the nodes are then introduced to each other and every primary gets
  back the part of its even share of the slots it lacks.
\<close>

subsection \<open>The seed of a node\<close>

record nodeKey =
  nk_shard :: int
  nk_node :: int

definition annRestoreMarker :: string where "annRestoreMarker = ''valkey.percona.com/restored-from''"
definition annRestoreStorage :: string where "annRestoreStorage = ''valkey.percona.com/restore-storage''"
definition annSourceCluster :: string where "annSourceCluster = ''valkey.percona.com/restore-source-cluster''"
definition annSourceBackup :: string where "annSourceBackup = ''valkey.percona.com/restore-source-backup''"

definition isRestoreTarget :: "Cluster \<Rightarrow> bool" where
  "isRestoreTarget c \<longleftrightarrow> Annotations c annRestoreMarker \<noteq> None"

definition storageForRestore :: "Cluster \<Rightarrow> string" where
  "storageForRestore c =
     (let name = lookup (Annotations c) annRestoreStorage in
      if name \<noteq> '''' then name
      else case bk_Storages (Backup (Spec c)) of [(name, _)] \<Rightarrow> name | _ \<Rightarrow> '''')"

definition backupNameFromMarker :: "string \<Rightarrow> string" where
  "backupNameFromMarker marker =
     (case after_last (CHR ''/'') marker of
        None \<Rightarrow> ''''
      | Some name \<Rightarrow> if name = ''backupSource'' then '''' else name)"

definition credentialsSecretForStorage :: "BackupStorageSpec \<Rightarrow> string" where
  "credentialsSecretForStorage spec =
     (case st_Type spec of
        BackupStorageS3 \<Rightarrow> (case st_S3 spec of Some x \<Rightarrow> s3_CredentialsSecret x | None \<Rightarrow> '''')
      | BackupStorageGCS \<Rightarrow> (case st_GCS spec of Some x \<Rightarrow> gcs_CredentialsSecret x | None \<Rightarrow> '''')
      | BackupStorageAzure \<Rightarrow> (case st_Azure spec of Some x \<Rightarrow> az_CredentialsSecret x | None \<Rightarrow> '''')
      | BackupStorageFilesystem \<Rightarrow> '''')"

definition restoreSourceForNode :: "Cluster \<Rightarrow> nodeKey \<Rightarrow> RestoreSource option" where
  "restoreSourceForNode c key =
     (if \<not> isRestoreTarget c then None
      else if nk_node key \<noteq> 0 then None
      else let storageName = storageForRestore c;
               named = lookup (Annotations c) annSourceBackup;
               backupName = (if named = '''' then backupNameFromMarker (lookup (Annotations c) annRestoreMarker) else named);
               rs = \<lparr> rs_Storage = storageName, rs_BackupName = backupName, rs_ShardIndex = nk_shard key,
                      rs_ClusterName = lookup (Annotations c) annSourceCluster,
                      rs_StorageSpec = None, rs_CredentialsSecret = '''' \<rparr>
           in Some (if storageName \<noteq> ''''
                    then case map_of (bk_Storages (Backup (Spec c))) storageName of
                           Some spec \<Rightarrow> rs \<lparr> rs_StorageSpec := Some spec, rs_CredentialsSecret := credentialsSecretForStorage spec \<rparr>
                         | None \<Rightarrow> rs
                    else rs))"

subsection \<open>Re-forming the cluster\<close>

fun evenSplitRanges_loop :: "int \<Rightarrow> int \<Rightarrow> int \<Rightarrow> nat list \<Rightarrow> SlotRange list" where
  "evenSplitRanges_loop base rm start [] = []"
| "evenSplitRanges_loop base rm start (i # is) =
     (let size = (if int i < rm then base + 1 else base)
      in SlotRange start (start + size - 1) # evenSplitRanges_loop base rm (start + size) is)"

text \<open>\<^verbatim>\<open>make\<close> panics on a negative capacity, before the test for \<open>n \<le> 0\<close>.\<close>

definition evenSplitRanges :: "int \<Rightarrow> SlotRange list option" where
  "evenSplitRanges n =
     (if n < 0 then None
      else if n \<le> 0 then Some []
      else Some (evenSplitRanges_loop (TotalSlots sdiv n) (TotalSlots smod n) 0 [0..<nat n]))"

definition reform_body ::
  "env \<Rightarrow> positions \<Rightarrow> SlotRange list \<Rightarrow> NodeState \<Rightarrow> int \<Rightarrow> world \<Rightarrow> (go_error, int) result \<times> world" where
  "reform_body E pos shardRanges n assigned w =
     (if \<not> client n then (Inr assigned, w)
      else case positionFor pos n of
        None \<Rightarrow> (Inr assigned, w)
      | Some p \<Rightarrow>
          if \<not> np_isPrimary p \<or> np_shard p \<ge> int (length shardRanges) then (Inr assigned, w)
          else if np_shard p < 0 then (Inl Panic, w)
          else let want = shardRanges ! nat (np_shard p);
                   gap = SubtractRanges [want] (NodeSlots n)
               in if gap = [] then (Inr assigned, w)
                  else case command E (Addr n) (ClusterAddSlotsRange gap) w of
                         (Some e, w1) \<Rightarrow>
                           (Inl (Err (''restore re-form CLUSTER ADDSLOTSRANGE '' @ FormatSlotRanges gap @ '' -> shard '' @
                              Itoa (np_shard p) @ '' ('' @ Addr n @ ''): '' @ e)), w1)
                       | (None, w1) \<Rightarrow> (Inr (assigned + 1), w1))"

definition assignRestoreSlotRanges ::
  "env \<Rightarrow> ClusterState \<Rightarrow> ValkeyNode list \<Rightarrow> world \<Rightarrow> (go_error, bool) result \<times> world" where
  "assignRestoreSlotRanges E st nodes w =
     (case evenSplitRanges (Shards_want (Spec (cluster w))) of
        None \<Rightarrow> (Inl Panic, w)
      | Some shardRanges \<Rightarrow>
          (case for_loop (reform_body E (positionsByIP nodes) shardRanges) (Nodes st) 0 w of
             (Inl e, w1) \<Rightarrow> (Inl e, w1)
           | (Inr assigned, w1) \<Rightarrow>
               if assigned > 0
               then (Inr True, event EventNormal ''PrimariesCreated'' (''restore re-form: assigned slot-range gaps to '' @
                       Itoa assigned @ '' primary(ies)'') w1)
               else (Inr False, w1)))"

definition meetAllRestoreNodes :: "env \<Rightarrow> ClusterState \<Rightarrow> world \<Rightarrow> int \<times> world" where
  "meetAllRestoreNodes E st w =
     meetAllReachable E st False (\<lambda>n. ''restore re-form: MEET introduced '' @ Itoa n @ '' node(s)'') w"

definition reformRestoreTarget ::
  "env \<Rightarrow> ClusterState \<Rightarrow> ValkeyNode list \<Rightarrow> world \<Rightarrow> (go_error, bool) result \<times> world" where
  "reformRestoreTarget E st nodes w =
     (if \<not> isRestoreTarget (cluster w) then (Inr False, w)
      else if GetUnassignedSlots st = [] then (Inr False, w)
      else case meetAllRestoreNodes E st w of
             (met, w1) \<Rightarrow> if met > 0 then (Inr True, w1) else assignRestoreSlotRanges E st nodes w1)"

subsection \<open>The even split is the split of all slots\<close>

lemma SlotsToRanges_upto: "a \<le> b \<Longrightarrow> SlotsToRanges [a..b] = [SlotRange a b]"
  using SlotsToRanges_slots_of [of "[SlotRange a b]"] by (simp add: separated_def)

lemma split_even_step:
  assumes "0 < k" "s + k \<le> TotalSlots"
  shows "SlotsToRanges (takeSlots [SlotRange s maxSlot] k) = [SlotRange s (s + k - 1)]"
    and "removeLowestSlots [SlotRange s maxSlot] k = (if s + k \<le> maxSlot then [SlotRange (s + k) maxSlot] else [])"
proof -
  have "take (nat k) [s..maxSlot] = [s..s + k - 1]"
    using take_upto [of k s maxSlot] assms by (simp add: maxSlot_def)
  then show "SlotsToRanges (takeSlots [SlotRange s maxSlot] k) = [SlotRange s (s + k - 1)]"
    using assms by (simp add: takeSlots_eq SlotsToRanges_upto)
  show "removeLowestSlots [SlotRange s maxSlot] k = (if s + k \<le> maxSlot then [SlotRange (s + k) maxSlot] else [])"
    using assms by (simp add: Count_def)
qed

lemma split_even_loop:
  assumes "\<forall>i \<in> set is. 0 < share base rm i" "s + sum_list (map (share base rm) is) = TotalSlots"
  shows "SplitUnassignedEvenly_loop (if s \<le> maxSlot then [SlotRange s maxSlot] else []) base rm is =
     map (\<lambda>r. [r]) (evenSplitRanges_loop base rm s is)"
  using assms
proof (induction "is" arbitrary: s)
  case (Cons i "is")
  define k where "k = share base rm i"
  have k: "0 < k" "(if int i < rm then base + 1 else base) = k" using Cons.prems(1) by (auto simp: k_def share_def)
  have rest: "0 \<le> sum_list (map (share base rm) is)"
    using Cons.prems(1) by (intro sum_list_nonneg) (auto intro: less_imp_le)
  then have le: "s + k \<le> TotalSlots" "s \<le> maxSlot"
    using Cons.prems(2) k(1) by (auto simp: k_def maxSlot_def)
  have IH: "SplitUnassignedEvenly_loop (if s + k \<le> maxSlot then [SlotRange (s + k) maxSlot] else []) base rm is =
     map (\<lambda>r. [r]) (evenSplitRanges_loop base rm (s + k) is)"
    using Cons.prems by (intro Cons.IH) (auto simp: k_def)
  show ?case using split_even_step [OF k(1) le(1)] le(2) k IH by (simp add: Let_def)
qed simp

lemma length_evenSplitRanges_loop [simp]: "length (evenSplitRanges_loop base rm s is) = length is"
  by (induction "is" arbitrary: s) (simp_all add: Let_def)

lemma evenSplitRanges_split:
  assumes "0 < n" "n \<le> TotalSlots"
  shows "\<exists>rs. evenSplitRanges n = Some rs \<and> length rs = nat n \<and>
           SplitUnassignedEvenly [SlotRange 0 maxSlot] n = Some (map (\<lambda>r. [r]) rs)"
proof -
  define b where "b = TotalSlots div n"
  define m where "m = TotalSlots mod n"
  have t: "0 \<le> TotalSlots" "maxSlot = TotalSlots - 1" by (simp_all add: TotalSlots_def maxSlot_def)
  have b: "1 \<le> b" using zdiv_mono1 [OF assms(2) assms(1)] assms by (simp add: b_def)
  have pos: "\<forall>i \<in> set [0..<nat n]. 0 < share b m i" using b by (simp add: share_def)
  have sum: "0 + sum_list (map (share b m) [0..<nat n]) = TotalSlots"
    using sum_share [of m "nat n" b] assms by (simp add: b_def m_def order_less_imp_le)
  have c: "Count (SlotRange 0 maxSlot) = TotalSlots" by (simp add: Count_def t)
  have "SplitUnassignedEvenly [SlotRange 0 maxSlot] n = Some (map (\<lambda>r. [r]) (evenSplitRanges_loop b m 0 [0..<nat n]))"
    using split_even_loop [OF pos sum] assms t
    by (simp add: SplitUnassignedEvenly_def c Let_def sdiv_smod_nonneg flip: b_def m_def)
  moreover have "evenSplitRanges n = Some (evenSplitRanges_loop b m 0 [0..<nat n])"
    using assms t by (simp add: evenSplitRanges_def sdiv_smod_nonneg b_def m_def)
  ultimately show ?thesis by simp
qed

text \<open>C17: Re-forming a restored cluster uses the split of bootstrap: for every shard count up to 16384 the
  ranges computed by \<^const>\<open>evenSplitRanges\<close> are the parts \<^const>\<open>SplitUnassignedEvenly\<close> makes of a cluster
  in which no slot is assigned.\<close>

theorem evenSplit_is_bootstrap_split:
  assumes "0 < n" "n \<le> 16384"
  shows "SplitUnassignedEvenly (GetUnassignedSlots (NewClusterState [])) n = map_option (map (\<lambda>r. [r])) (evenSplitRanges n)"
proof -
  have "GetUnassignedSlots (NewClusterState []) = [SlotRange 0 maxSlot]"
    by (simp add: GetUnassignedSlots_def NewClusterState_def groupShards_def NormalizeSlotRanges_def)
  then show ?thesis using evenSplitRanges_split [OF assms(1)] assms(2) by (auto simp: TotalSlots_def)
qed

theorem evenSplit_is_bootstrap_split_witness:
  "SplitUnassignedEvenly (GetUnassignedSlots (NewClusterState [])) 3 =
     Some [[SlotRange 0 5461], [SlotRange 5462 10922], [SlotRange 10923 16383]]"
proof -
  have "evenSplitRanges 3 = Some [SlotRange 0 5461, SlotRange 5462 10922, SlotRange 10923 16383]"
    by (simp add: evenSplitRanges_def TotalSlots_def sdiv_smod_nonneg upt_rec)
  then show ?thesis using evenSplit_is_bootstrap_split [of 3] by simp
qed

subsection \<open>Re-forming assigns only missing slots of the own share\<close>

definition reforms :: "ClusterState \<Rightarrow> positions \<Rightarrow> SlotRange list \<Rightarrow> Action \<Rightarrow> bool" where
  "reforms st pos shardRanges a \<longleftrightarrow> (case a of
     Engine addr (ClusterAddSlotsRange gap) _ \<Rightarrow> (\<exists>n p. n \<in> set (Nodes st) \<and> Addr n = addr \<and> positionFor pos n = Some p \<and>
        np_node p = 0 \<and> 0 \<le> np_shard p \<and> np_shard p < int (length shardRanges) \<and> gap \<noteq> [] \<and>
        gap = SubtractRanges [shardRanges ! nat (np_shard p)] (NodeSlots n))
   | Engine _ (ClusterMeet _ _ _) _ \<Rightarrow> True | Engine _ _ _ \<Rightarrow> False | Write _ _ \<Rightarrow> False | Event _ _ _ \<Rightarrow> True)"

lemma reforms_Event [simp]: "reforms st pos rs (Event t r m)" and
  reforms_Meet [simp]: "reforms st pos rs (Engine addr (ClusterMeet h p b) r')"
  by (simp_all add: reforms_def)

lemma reform_body_cases:
  assumes "reform_body E pos rs n assigned w = (r, w')"
  shows "w' = w \<and> (r = Inr assigned \<or> r = Inl Panic) \<or> (\<exists>p gap e. positionFor pos n = Some p \<and> np_node p = 0 \<and> 0 \<le> np_shard p \<and> np_shard p < int (length rs) \<and>
     gap \<noteq> [] \<and> gap = SubtractRanges [rs ! nat (np_shard p)] (NodeSlots n) \<and>
     w' = act (Engine (Addr n) (ClusterAddSlotsRange gap) e) w \<and> (e = None \<longrightarrow> r = Inr (assigned + 1)) \<and> (e \<noteq> None \<longrightarrow> (\<exists>x. r = Inl x)))"
proof (cases "\<not> client n \<or> positionFor pos n = None")
  case True
  with assms show ?thesis by (auto simp: reform_body_def split: if_splits)
next
  case False
  then obtain p where p: "positionFor pos n = Some p" by auto
  define gap where "gap = SubtractRanges [rs ! nat (np_shard p)] (NodeSlots n)"
  show ?thesis
  proof (cases "\<not> np_isPrimary p \<or> np_shard p \<ge> int (length rs) \<or> np_shard p < 0 \<or> gap = []")
    case True
    with assms False p show ?thesis by (auto simp: reform_body_def gap_def [symmetric] Let_def split: if_splits)
  next
    case ok: False
    define e where "e = engine E (trace w) (Addr n) (ClusterAddSlotsRange gap)"
    have "w' = act (Engine (Addr n) (ClusterAddSlotsRange gap) e) w \<and> (e = None \<longrightarrow> r = Inr (assigned + 1)) \<and> (e \<noteq> None \<longrightarrow> (\<exists>x. r = Inl x))"
      using assms False p ok
      by (cases e) (auto simp: reform_body_def gap_def [symmetric] command_def Let_def e_def [symmetric] split: if_splits)
    with ok p show ?thesis unfolding gap_def np_isPrimary_def by (intro disjI2 exI [of _ p]) force
  qed
qed

lemma reform_body_reforms:
  assumes "n \<in> set (Nodes st)" "reform_body E pos rs n assigned w = (r, w')"
  shows "adds (reforms st pos rs) w w'"
  using reform_body_cases [OF assms(2)]
proof (elim disjE exE conjE)
  fix p gap e
  assume a: "positionFor pos n = Some p" "np_node p = 0" "0 \<le> np_shard p" "np_shard p < int (length rs)" "gap \<noteq> []"
    "gap = SubtractRanges [rs ! nat (np_shard p)] (NodeSlots n)" "w' = act (Engine (Addr n) (ClusterAddSlotsRange gap) e) w"
  then have "reforms st pos rs (Engine (Addr n) (ClusterAddSlotsRange gap) e)"
    using assms(1) unfolding reforms_def by auto
  with a(7) show ?thesis by simp
qed simp_all

lemma reform_tallied: "tallied {Assigning} 0 assigned w (reform_body E pos rs n assigned w)"
proof -
  obtain r w' where s: "reform_body E pos rs n assigned w = (r, w')" by fastforce
  from reform_body_cases [OF s] show ?thesis unfolding s
    by (elim disjE exE conjE) (auto simp: tallied_def only_kinds split: sum.split)
qed

lemma assignRestore_tallied: "tallied {Assigning} False False w (assignRestoreSlotRanges E st nodes w)"
proof (cases "evenSplitRanges (Shards_want (Spec (cluster w)))")
  case (Some rs)
  obtain r w1 where l: "for_loop (reform_body E (positionsByIP nodes) rs) (Nodes st) 0 w = (r, w1)" by fastforce
  have "tallied {Assigning} 0 0 w (r, w1)"
    unfolding l [symmetric] by (rule tallied_for_loop) (rule reform_tallied)
  then show ?thesis using Some l
    by (cases r) (auto simp: assignRestoreSlotRanges_def tallied_def adds_event)
qed (simp add: assignRestoreSlotRanges_def)

interpretation reforming: phase "reformRestoreTarget E st nodes" "\<lambda>r. r = Inr False" "{Assigning}"
proof -
  have m: "adds quiet w w1" if "meetAllRestoreNodes E st w = (k, w1)" for w k w1
    using meetAllReachable_quiet [of w E st] that by (metis meetAllRestoreNodes_def snd_conv)
  have "tallied {Assigning} False False w (reformRestoreTarget E st nodes w)" for w
  proof (cases "isRestoreTarget (cluster w) \<and> GetUnassignedSlots st \<noteq> []")
    case True
    obtain k w1 where k: "meetAllRestoreNodes E st w = (k, w1)" by fastforce
    show ?thesis using True k m [OF k] assignRestore_tallied [of w1 E st nodes]
      by (auto simp: reformRestoreTarget_def tallied_def split: sum.splits intro: adds_trans adds_quiet_only)
  qed (auto simp: reformRestoreTarget_def)
  then show "phase (reformRestoreTarget E st nodes) (\<lambda>r. r = Inr False) {Assigning}"
    by unfold_locales (blast intro: tallied_confined tallied_idle)+
qed

lemma meetAllReachable_meets:
  "adds (reforms st' pos rs) w (snd (meetAllReachable E st g msg w)) \<and> cluster (snd (meetAllReachable E st g msg w)) = cluster w"
proof -
  have b: "adds (reforms st' pos rs) w w' \<and> cluster w' = cluster w" if "meetAll_body E t x k w = (r, w')" for t x k w r w'
    using that by (auto simp: meetAll_body_def command_def Let_def adds_act_right split: option.splits if_splits)
  have l: "adds (reforms st' pos rs) w w' \<and> cluster w' = cluster w"
    if "for_loop (meetAll_body E t) xs k w = (r, w')" for t xs k w r w'
  proof -
    have "(\<forall>e w'. for_loop (meetAll_body E t) xs k w = (Inl e, w') \<longrightarrow> adds (reforms st' pos rs) w w' \<and> cluster w' = cluster w) \<and>
        (\<forall>s' w'. for_loop (meetAll_body E t) xs k w = (Inr s', w') \<longrightarrow> adds (reforms st' pos rs) w w' \<and> cluster w' = cluster w)"
      by (rule for_loop_rule) (auto dest!: b intro: adds_trans)
    with that show ?thesis by (cases r) auto
  qed
  show ?thesis
    unfolding meetAllReachable_def Let_def
    by (auto intro!: adds_event dest!: l split: prod.split sum.split)
qed

text \<open>Re-forming a restore target issues introductions and \<open>ADDSLOTSRANGE\<close> commands only.  A node is
  given slots only if its labels put it at the primary position of a desired shard, and it is given
  exactly the slots of that shard's even share which it does not already own.\<close>

theorem reform_assigns_own_gap:
  assumes "evenSplitRanges (Shards_want (Spec (cluster w))) = Some shardRanges"
  shows "adds (reforms st (positionsByIP nodes) shardRanges) w (snd (reformRestoreTarget E st nodes w))"
proof (cases "isRestoreTarget (cluster w) \<and> GetUnassignedSlots st \<noteq> []")
  case True
  obtain k w1 where k: "meetAllRestoreNodes E st w = (k, w1)" by fastforce
  have m: "adds (reforms st (positionsByIP nodes) shardRanges) w w1" "cluster w1 = cluster w"
    using k meetAllReachable_meets [of st "positionsByIP nodes" shardRanges w E st] unfolding meetAllRestoreNodes_def
    by (metis snd_conv)+
  obtain r w2 where l: "for_loop (reform_body E (positionsByIP nodes) shardRanges) (Nodes st) 0 w1 = (r, w2)" by fastforce
  have "adds (reforms st (positionsByIP nodes) shardRanges) w1 (snd (for_loop (reform_body E (positionsByIP nodes) shardRanges) (Nodes st) 0 w1))"
    by (rule for_loop_adds) (erule (1) reform_body_reforms)
  then have "adds (reforms st (positionsByIP nodes) shardRanges) w w2" using l m(1) by (auto intro: adds_trans)
  with True k m l assms show ?thesis
    by (auto simp: reformRestoreTarget_def assignRestoreSlotRanges_def adds_event split: sum.split)
qed (auto simp: reformRestoreTarget_def)

theorem reform_assigns_own_gap_witness:
  "\<exists>rs. evenSplitRanges 2 = Some rs \<and>
     adds (reforms (NewClusterState []) (positionsByIP []) rs) sample_world
       (snd (reformRestoreTarget calm (NewClusterState []) [] sample_world))"
proof -
  have e: "evenSplitRanges (Shards_want (Spec (cluster sample_world))) = Some [SlotRange 0 8191, SlotRange 8192 16383]"
    by (simp add: sample_world_def sample_cluster_def sample_spec_def evenSplitRanges_def TotalSlots_def sdiv_smod_nonneg upt_rec)
  show ?thesis
    using reform_assigns_own_gap [OF e, of "NewClusterState []" "[]" calm] e
    by (auto simp: sample_world_def sample_cluster_def sample_spec_def)
qed

end
