(* ===== verification/Backup_Lease.thy ===== *)
theory Backup_Lease
  imports Cluster_CR
begin

text \<open>
  The per-cluster lock of backups, \<^verbatim>\<open>src/pkg/controller/perconavalkeybackup/lease.go\<close>, on a Lease object
  of the API server.

  The server is the parameter \<open>A\<close>: a record of the four calls the code makes, over a state of its own.
  Reads go through a cache, so \<open>la_get\<close> may return an older version of the object; as every operation
  reads once and then writes once, the stale read also stands for any interleaving of other actors
  between the two.  The locale \<open>lease_server\<close> states what the code relies on: an update succeeds only on
  the current version (optimistic concurrency), a create only on an absent object, and a version names
  one content.  A merge patch without a version applies to whatever is stored.

  The operations are then shown to implement an abstract lock, a holder with an expiry.
\<close>

subsection \<open>Operations\<close>

datatype BackupState = BackupStateNew | BackupStateStarting | BackupStateRunning | BackupStateSucceeded
  | BackupStateFailed | BackupStateError

text \<open>An environment variable of a container: a value, or a reference to a key of a Secret.\<close>

datatype EnvVar = EnvValue string string | EnvSecretKey string string string

record BackupContainerOptions =
  co_Args :: "string list"
  co_Env :: "EnvVar list"

record ShardBackupStatus =
  sb_ShardIndex :: int
  sb_SlotRange :: string
  sb_RDBObject :: string
  sb_SizeBytes :: int
  sb_Checksum :: string

text \<open>
  The fields of a \<^verbatim>\<open>PerconaValkeyBackup\<close>; times are nanoseconds, \<open>b_Created\<close> is the creation timestamp,
  \<open>b_Owner\<close> the name of the controlling owner.
\<close>

record BackupCR =
  b_Name :: string
  b_Namespace :: string
  b_Labels :: labels
  b_Annotations :: labels
  b_Created :: int
  b_Deleting :: bool
  b_Finalizers :: "string list"
  b_Owner :: "string option"
  b_ClusterName :: string
  b_StorageName :: string
  b_Type :: string
  b_Consistency :: string
  b_ContainerOptions :: "BackupContainerOptions option"
  b_StartingDeadline :: "int option"
  b_ActiveDeadline :: "int option"
  b_State :: BackupState
  b_StateDescription :: string
  b_Destination :: string
  b_StatusStorage :: string
  b_S3 :: "BackupStorageS3Spec option"
  b_GCS :: "BackupStorageGCSSpec option"
  b_Azure :: "BackupStorageAzureSpec option"
  b_Shards :: "ShardBackupStatus list"
  b_SlotCoverage :: string
  b_Start :: "int option"
  b_Completed :: "int option"
  b_ValkeyVersion :: string

record 'st lease_api =
  la_get :: "'st \<Rightarrow> string \<Rightarrow> (api_error, Lease) result"
  la_create :: "'st \<Rightarrow> Lease \<Rightarrow> api_error option \<times> 'st"
  la_update :: "'st \<Rightarrow> Lease \<Rightarrow> api_error option \<times> 'st"
  la_patch :: "'st \<Rightarrow> Lease \<Rightarrow> Lease \<Rightarrow> api_error option \<times> 'st"

definition leaseDurationSeconds :: int where "leaseDurationSeconds = 30"

definition second :: int where "second = 1000000000"

definition LeaseName :: "string \<Rightarrow> string" where
  "LeaseName cluster = ''valkey-'' @ cluster @ ''-backup-lock''"

definition leaseHolderID :: "BackupCR \<Rightarrow> string" where
  "leaseHolderID bk = ''backup/'' @ b_Namespace bk @ ''/'' @ b_Name bk"

definition leaseHeldByOther :: "Lease \<Rightarrow> string \<Rightarrow> int \<Rightarrow> bool \<times> bool" where
  "leaseHeldByOther lease holder nowTime =
     (case lease_Holder lease of
        None \<Rightarrow> (False, False)
      | Some h \<Rightarrow>
          if h = '''' then (False, False)
          else case lease_Renew lease of
            None \<Rightarrow> (False, False)
          | Some renew \<Rightarrow>
              let dur = (case lease_Duration lease of Some d \<Rightarrow> d | None \<Rightarrow> leaseDurationSeconds);
                  expiry = renew + dur * second
              in if \<not> nowTime < expiry then (False, False) else (True, h = holder))"

definition newLease :: "string \<Rightarrow> string \<Rightarrow> int \<Rightarrow> Lease" where
  "newLease name holder nowTime =
     \<lparr> lease_Name = name, lease_Holder = Some holder, lease_Duration = Some leaseDurationSeconds,
       lease_Acquire = Some nowTime, lease_Renew = Some nowTime, lease_Version = 0 \<rparr>"

definition createLease :: "'st lease_api \<Rightarrow> string \<Rightarrow> string \<Rightarrow> int \<Rightarrow> 'st \<Rightarrow> (string, bool) result \<times> 'st" where
  "createLease A name holder nowTime s =
     (case la_create A s (newLease name holder nowTime) of
        (None, s1) \<Rightarrow> (Inr True, s1)
      | (Some (AlreadyExists _), s1) \<Rightarrow> (Inr False, s1)
      | (Some e, s1) \<Rightarrow> (Inl (''create backup lease '' @ quoted name @ '': '' @ api_text e), s1))"

definition renewedLease :: "Lease \<Rightarrow> string \<Rightarrow> int \<Rightarrow> Lease" where
  "renewedLease lease holder nowTime =
     (let reclaiming = (lease_Holder lease = None \<or> lease_Holder lease \<noteq> Some holder)
      in lease \<lparr> lease_Holder := Some holder, lease_Duration := Some leaseDurationSeconds,
           lease_Acquire := (if reclaiming \<or> lease_Acquire lease = None then Some nowTime else lease_Acquire lease),
           lease_Renew := Some nowTime \<rparr>)"

definition renewLeaseObject :: "'st lease_api \<Rightarrow> Lease \<Rightarrow> string \<Rightarrow> int \<Rightarrow> 'st \<Rightarrow> (string, bool) result \<times> 'st" where
  "renewLeaseObject A lease holder nowTime s =
     (case la_update A s (renewedLease lease holder nowTime) of
        (None, s1) \<Rightarrow> (Inr True, s1)
      | (Some (Conflict _), s1) \<Rightarrow> (Inr False, s1)
      | (Some e, s1) \<Rightarrow> (Inl (''renew backup lease '' @ quoted (lease_Name lease) @ '': '' @ api_text e), s1))"

definition acquireClusterLease :: "'st lease_api \<Rightarrow> BackupCR \<Rightarrow> int \<Rightarrow> 'st \<Rightarrow> (string, bool) result \<times> 'st" where
  "acquireClusterLease A bk nowTime s =
     (let name = LeaseName (b_ClusterName bk); holder = leaseHolderID bk
      in case la_get A s name of
           Inl (NotFound _) \<Rightarrow> createLease A name holder nowTime s
         | Inl e \<Rightarrow> (Inl (''get backup lease '' @ quoted name @ '': '' @ api_text e), s)
         | Inr lease \<Rightarrow>
             (case leaseHeldByOther lease holder nowTime of
                (held, byUs) \<Rightarrow> if held \<and> \<not> byUs then (Inr False, s)
                                else renewLeaseObject A lease holder nowTime s))"

definition renewClusterLease :: "'st lease_api \<Rightarrow> BackupCR \<Rightarrow> int \<Rightarrow> 'st \<Rightarrow> (string, unit) result \<times> 'st" where
  "renewClusterLease A bk nowTime s =
     (let name = LeaseName (b_ClusterName bk); holder = leaseHolderID bk
      in case la_get A s name of
           Inl (NotFound _) \<Rightarrow> (Inr (), s)
         | Inl e \<Rightarrow> (Inl (''get backup lease '' @ quoted name @ '' for renew: '' @ api_text e), s)
         | Inr lease \<Rightarrow>
             if lease_Holder lease \<noteq> Some holder then (Inr (), s)
             else case renewLeaseObject A lease holder nowTime s of
                    (Inl e, s1) \<Rightarrow> (Inl e, s1)
                  | (Inr _, s1) \<Rightarrow> (Inr (), s1))"

definition releasedLease :: "Lease \<Rightarrow> Lease" where
  "releasedLease lease = lease \<lparr> lease_Holder := None, lease_Acquire := None, lease_Renew := None \<rparr>"

definition releaseClusterLease :: "'st lease_api \<Rightarrow> BackupCR \<Rightarrow> 'st \<Rightarrow> (string, unit) result \<times> 'st" where
  "releaseClusterLease A bk s =
     (let name = LeaseName (b_ClusterName bk); holder = leaseHolderID bk
      in case la_get A s name of
           Inl (NotFound _) \<Rightarrow> (Inr (), s)
         | Inl e \<Rightarrow> (Inl (''get backup lease '' @ quoted name @ '' for release: '' @ api_text e), s)
         | Inr lease \<Rightarrow>
             if lease_Holder lease \<noteq> Some holder then (Inr (), s)
             else case la_patch A s lease (releasedLease lease) of
                    (None, s1) \<Rightarrow> (Inr (), s1)
                  | (Some (Conflict _), s1) \<Rightarrow> (Inr (), s1)
                  | (Some (NotFound _), s1) \<Rightarrow> (Inr (), s1)
                  | (Some e, s1) \<Rightarrow> (Inl (''release backup lease '' @ quoted name @ '': '' @ api_text e), s1))"

text \<open>The lock as the cluster controller reads it; \<open>got\<close> is the outcome of reading the Lease.\<close>

definition IsBackupRunning :: "(api_error, Lease) result \<Rightarrow> string \<Rightarrow> int \<Rightarrow> (string, bool) result" where
  "IsBackupRunning got cluster nowTime =
     (case got of
        Inl (NotFound _) \<Rightarrow> Inr False
      | Inl e \<Rightarrow> Inl (''get backup lease for cluster '' @ quoted cluster @ '': '' @ api_text e)
      | Inr lease \<Rightarrow> Inr (fst (leaseHeldByOther lease '''' nowTime)))"

subsection \<open>The abstract lock\<close>

datatype lock = Free | Held string int

datatype lock_event = Grant string int | Keep string int | Release string

fun event_time :: "lock_event \<Rightarrow> int option" where
  "event_time (Grant h t) = Some t"
| "event_time (Keep h t) = Some t"
| "event_time (Release h) = None"

text \<open>A lease gives the lock to its holder up to its expiry; without holder or renew time it is free.\<close>

definition lock_of :: "Lease option \<Rightarrow> lock" where
  "lock_of x =
     (case x of None \<Rightarrow> Free
      | Some l \<Rightarrow> (case (lease_Holder l, lease_Renew l) of
           (Some h, Some r) \<Rightarrow> if h = '''' then Free
             else Held h (r + (case lease_Duration l of Some d \<Rightarrow> d | None \<Rightarrow> leaseDurationSeconds) * second)
         | _ \<Rightarrow> Free))"

definition lease_span :: int where "lease_span = leaseDurationSeconds * second"

text \<open>What the lock promises: it is granted only if it is free, one's own, or expired.\<close>

definition available :: "lock \<Rightarrow> string \<Rightarrow> int \<Rightarrow> bool" where
  "available L h t \<longleftrightarrow> (case L of Free \<Rightarrow> True | Held h' e \<Rightarrow> h' = h \<or> e \<le> t)"

fun lock_step :: "lock \<Rightarrow> lock_event \<Rightarrow> lock \<Rightarrow> bool" where
  "lock_step L (Grant h t) L' \<longleftrightarrow> available L h t \<and> L' = Held h (t + lease_span)"
| "lock_step L (Keep h t) L' \<longleftrightarrow>
     L' = L \<or> (\<forall>h' e. L = Held h' e \<longrightarrow> h' = h) \<and> L' = Held h (t + lease_span)"
| "lock_step L (Release h) L' \<longleftrightarrow> L' = L \<or> (\<forall>h' e. L = Held h' e \<longrightarrow> h' = h) \<and> L' = Free"

subsection \<open>The server\<close>

text \<open>A merge patch sends the fields in which the new object differs from the base it was made from.\<close>

definition mergePatch :: "Lease \<Rightarrow> Lease \<Rightarrow> Lease \<Rightarrow> Lease" where
  "mergePatch base new cur =
     cur \<lparr> lease_Holder := (if lease_Holder base \<noteq> lease_Holder new then lease_Holder new else lease_Holder cur),
           lease_Duration := (if lease_Duration base \<noteq> lease_Duration new then lease_Duration new else lease_Duration cur),
           lease_Acquire := (if lease_Acquire base \<noteq> lease_Acquire new then lease_Acquire new else lease_Acquire cur),
           lease_Renew := (if lease_Renew base \<noteq> lease_Renew new then lease_Renew new else lease_Renew cur) \<rparr>"

locale lease_server =
  fixes A :: "'st lease_api" and stored :: "'st \<Rightarrow> Lease option"
  assumes create_ok: "la_create A s l = (None, s') \<Longrightarrow> stored s = None \<and> (\<exists>v. stored s' = Some (l \<lparr> lease_Version := v \<rparr>))"
    and create_refused: "la_create A s l = (Some e, s') \<Longrightarrow> stored s' = stored s"
    and update_ok: "la_update A s l = (None, s') \<Longrightarrow>
      (\<exists>cur v. stored s = Some cur \<and> lease_Version cur = lease_Version l \<and> stored s' = Some (l \<lparr> lease_Version := v \<rparr>))"
    and update_refused: "la_update A s l = (Some e, s') \<Longrightarrow> stored s' = stored s"
    and patch_ok: "la_patch A s base new = (None, s') \<Longrightarrow>
      (\<exists>cur v. stored s = Some cur \<and> stored s' = Some (mergePatch base new cur \<lparr> lease_Version := v \<rparr>))"
    and patch_refused: "la_patch A s base new = (Some e, s') \<Longrightarrow> stored s' = stored s"
    and one_content: "la_get A s n = Inr l \<Longrightarrow> stored s = Some cur \<Longrightarrow> lease_Version cur = lease_Version l \<Longrightarrow> l = cur"
begin

lemma lock_of_renewed [simp]:
  "h \<noteq> '''' \<Longrightarrow> lock_of (Some (renewedLease l h t \<lparr> lease_Version := v \<rparr>)) = Held h (t + lease_span)"
  "h \<noteq> '''' \<Longrightarrow> lock_of (Some (newLease n h t \<lparr> lease_Version := v \<rparr>)) = Held h (t + lease_span)"
  by (simp_all add: lock_of_def renewedLease_def newLease_def lease_span_def Let_def)

lemma holder_nonempty [simp]: "leaseHolderID bk \<noteq> ''''"
  by (simp add: leaseHolderID_def)

lemma not_held_available:
  assumes "leaseHeldByOther l h t = (held, byUs)" "\<not> (held \<and> \<not> byUs)"
  shows "available (lock_of (Some l)) h t"
  using assms by (auto simp: leaseHeldByOther_def lock_of_def available_def Let_def split: option.splits if_splits)

lemma renew_object:
  assumes "la_get A s n = Inr l" "renewLeaseObject A l h t s = (r, s')" "h \<noteq> ''''"
  shows "stored s' = stored s \<and> r \<noteq> Inr True \<or>
         r = Inr True \<and> stored s = Some l \<and> lock_of (stored s') = Held h (t + lease_span)"
proof (cases "la_update A s (renewedLease l h t)")
  case (Pair e s1)
  show ?thesis
  proof (cases e)
    case None
    with Pair update_ok obtain cur v where u: "stored s = Some cur" "lease_Version cur = lease_Version (renewedLease l h t)"
      "stored s1 = Some (renewedLease l h t \<lparr> lease_Version := v \<rparr>)" by blast
    then have "l = cur" using one_content [OF assms(1) u(1)] by (simp add: renewedLease_def Let_def)
    with u None Pair assms show ?thesis by (auto simp: renewLeaseObject_def)
  next
    case (Some x)
    with Pair update_refused have "stored s1 = stored s" by blast
    with Some Pair assms show ?thesis by (cases x) (auto simp: renewLeaseObject_def)
  qed
qed

lemma acquire_refines:
  assumes "acquireClusterLease A bk t s = (r, s')"
  shows "if r = Inr True then lock_step (lock_of (stored s)) (Grant (leaseHolderID bk) t) (lock_of (stored s'))
         else stored s' = stored s"
proof (cases "la_get A s (LeaseName (b_ClusterName bk))")
  case (Inr l)
  obtain held byUs where h: "leaseHeldByOther l (leaseHolderID bk) t = (held, byUs)" by fastforce
  show ?thesis
  proof (cases "held \<and> \<not> byUs")
    case False
    with assms Inr h have "renewLeaseObject A l (leaseHolderID bk) t s = (r, s')"
      by (auto simp: acquireClusterLease_def Let_def)
    from renew_object [OF Inr this] not_held_available [OF h False] show ?thesis by auto
  qed (use assms Inr h in \<open>auto simp: acquireClusterLease_def Let_def\<close>)
next
  case (Inl e)
  have c: "if r = Inr True then lock_step (lock_of (stored s)) (Grant (leaseHolderID bk) t) (lock_of (stored s'))
         else stored s' = stored s" if "createLease A n (leaseHolderID bk) t s = (r, s')" for n
    using that create_ok create_refused
    by (cases "la_create A s (newLease n (leaseHolderID bk) t)"; cases "fst (la_create A s (newLease n (leaseHolderID bk) t))")
       (fastforce simp: createLease_def available_def lock_of_def [of None] split: api_error.splits)+
  show ?thesis using assms Inl c by (cases e) (auto simp: acquireClusterLease_def Let_def)
qed

lemma renew_refines:
  assumes "renewClusterLease A bk t s = (r, s')"
  shows "lock_step (lock_of (stored s)) (Keep (leaseHolderID bk) t) (lock_of (stored s'))"
proof (cases "la_get A s (LeaseName (b_ClusterName bk))")
  case (Inr l)
  show ?thesis
  proof (cases "lease_Holder l = Some (leaseHolderID bk)")
    case True
    obtain b where "renewLeaseObject A l (leaseHolderID bk) t s = (b, s')"
      using assms Inr True by (auto simp: renewClusterLease_def Let_def split: prod.splits sum.splits)
    from renew_object [OF Inr this] True show ?thesis
      by (auto simp: lock_of_def [of "Some l"] split: option.splits)
  qed (use assms Inr in \<open>auto simp: renewClusterLease_def Let_def\<close>)
qed (use assms in \<open>auto simp: renewClusterLease_def Let_def split: api_error.splits\<close>)

lemma release_refines:
  assumes "releaseClusterLease A bk s = (r, s')"
    and fresh: "\<And>l. la_get A s (LeaseName (b_ClusterName bk)) = Inr l \<Longrightarrow> stored s = Some l"
  shows "lock_step (lock_of (stored s)) (Release (leaseHolderID bk)) (lock_of (stored s'))"
proof (cases "la_get A s (LeaseName (b_ClusterName bk))")
  case (Inr l)
  show ?thesis
  proof (cases "lease_Holder l = Some (leaseHolderID bk)")
    case True
    obtain e s1 where p: "la_patch A s l (releasedLease l) = (e, s1)" by fastforce
    then have s1: "s1 = s'" using assms(1) Inr True
      by (cases e) (auto simp: releaseClusterLease_def Let_def split: api_error.splits)
    show ?thesis
    proof (cases e)
      case None
      then obtain v where "stored s' = Some (mergePatch l (releasedLease l) l \<lparr> lease_Version := v \<rparr>)"
        using patch_ok p s1 fresh [OF Inr] by fastforce
      then show ?thesis using fresh [OF Inr] True
        by (auto simp: lock_of_def mergePatch_def releasedLease_def split: option.splits if_splits)
    next
      case (Some x)
      then show ?thesis using patch_refused p s1 by fastforce
    qed
  qed (use assms(1) Inr in \<open>auto simp: releaseClusterLease_def Let_def\<close>)
qed (use assms in \<open>auto simp: releaseClusterLease_def Let_def split: api_error.splits\<close>)

end

subsection \<open>Runs\<close>

text \<open>
  A run interleaves the operations of all backups of a cluster.  \<open>other\<close> is anything that leaves the
  stored object alone, such as the cache catching up.  With \<open>fresh\<close>, a release reads the stored object;
  without, it may read an older one.
\<close>

inductive lease_run :: "'st lease_api \<Rightarrow> ('st \<Rightarrow> Lease option) \<Rightarrow> bool \<Rightarrow> 'st \<Rightarrow> lock_event list \<Rightarrow> 'st \<Rightarrow> bool"
  for A stored fresh where
  stop: "lease_run A stored fresh s [] s"
| acquired: "acquireClusterLease A bk t s = (Inr True, s1) \<Longrightarrow> lease_run A stored fresh s1 es s2 \<Longrightarrow>
    lease_run A stored fresh s (Grant (leaseHolderID bk) t # es) s2"
| refused: "acquireClusterLease A bk t s = (r, s1) \<Longrightarrow> r \<noteq> Inr True \<Longrightarrow> lease_run A stored fresh s1 es s2 \<Longrightarrow>
    lease_run A stored fresh s es s2"
| renewed: "renewClusterLease A bk t s = (r, s1) \<Longrightarrow> lease_run A stored fresh s1 es s2 \<Longrightarrow>
    lease_run A stored fresh s (Keep (leaseHolderID bk) t # es) s2"
| released: "releaseClusterLease A bk s = (r, s1) \<Longrightarrow>
    (fresh \<Longrightarrow> \<forall>l. la_get A s (LeaseName (b_ClusterName bk)) = Inr l \<longrightarrow> stored s = Some l) \<Longrightarrow>
    lease_run A stored fresh s1 es s2 \<Longrightarrow> lease_run A stored fresh s (Release (leaseHolderID bk) # es) s2"
| other: "stored s1 = stored s \<Longrightarrow> lease_run A stored fresh s1 es s2 \<Longrightarrow> lease_run A stored fresh s es s2"

fun lock_run :: "lock \<Rightarrow> lock_event list \<Rightarrow> lock \<Rightarrow> bool" where
  "lock_run L [] L' \<longleftrightarrow> L' = L"
| "lock_run L (x # xs) L' \<longleftrightarrow> (\<exists>L1. lock_step L x L1 \<and> lock_run L1 xs L')"

lemma lock_run_append: "lock_run L (xs @ ys) L' \<longleftrightarrow> (\<exists>L1. lock_run L xs L1 \<and> lock_run L1 ys L')"
  by (induction xs arbitrary: L) auto

context lease_server
begin

lemma run_refines: "lease_run A stored True s es s' \<Longrightarrow> lock_run (lock_of (stored s)) es (lock_of (stored s'))"
proof (induction rule: lease_run.induct)
  case (acquired bk t s s1 es s2)
  with acquire_refines [OF acquired(1)] show ?case by auto
next
  case (refused bk t s r s1 es s2)
  with acquire_refines [OF refused(1)] show ?case by simp
next
  case (renewed bk t s r s1 es s2)
  with renew_refines [OF renewed(1)] show ?case by auto
next
  case (released bk s r s1 es s2)
  with release_refines [OF released(1)] show ?case by auto
qed simp_all

end

text \<open>While a grant has neither expired nor been released, nobody else is granted the lock.\<close>

lemma lock_exclusive:
  assumes "lock_run (Held p e) es L" "t + lease_span \<le> e" "Release p \<notin> set es"
    and "sorted (List.map_filter event_time es)" "\<forall>v \<in> set (List.map_filter event_time es). t \<le> v"
    and "Grant q u \<in> set es" "q \<noteq> p"
  shows "t + lease_span \<le> u"
  using assms
proof (induction es arbitrary: e)
  case (Cons x xs)
  from Cons.prems(1) obtain L1 where st: "lock_step (Held p e) x L1" and run: "lock_run L1 xs L" by auto
  have IH: "t + lease_span \<le> u" if "L1 = Held p e'" "t + lease_span \<le> e'" "Grant q u \<in> set xs" for e'
    using Cons.IH [of e'] run that Cons.prems by (auto simp: map_filter_simps split: option.splits)
  show ?case
  proof (cases x)
    case (Grant h v)
    show ?thesis
    proof (cases "h = p")
      case True
      with Grant st Cons.prems have "L1 = Held p (v + lease_span)" "t \<le> v" by (auto simp: map_filter_simps)
      with IH [of "v + lease_span"] Cons.prems(6,7) Grant True show ?thesis by auto
    next
      case False
      with st Grant Cons.prems(2) have v: "t + lease_span \<le> v" by (auto simp: available_def)
      have "v \<le> u" if "Grant q u \<in> set xs"
      proof -
        have "u \<in> set (List.map_filter event_time xs)" using that by (force simp: map_filter_def)
        then show ?thesis using Cons.prems(4) Grant by (simp add: map_filter_simps)
      qed
      with v Cons.prems(6) Grant show ?thesis by auto
    qed
  next
    case (Keep h v)
    then have "L1 = Held p e \<or> L1 = Held p (v + lease_span) \<and> t \<le> v" "Grant q u \<in> set xs"
      using st Cons.prems by (auto simp: map_filter_simps)
    then show ?thesis using IH [of e] IH [of "v + lease_span"] Cons.prems(2) by auto
  next
    case (Release h)
    then have "L1 = Held p e" "Grant q u \<in> set xs" using st Cons.prems by auto
    then show ?thesis using IH [of e] Cons.prems(2) by auto
  qed
qed simp

subsection \<open>A server\<close>

text \<open>
  The smallest server that behaves as documented: the stored object, and what a read returns.  It
  numbers versions consecutively.
\<close>

type_synonym kube = "Lease option \<times> (api_error, Lease) result"

definition kube_api :: "kube lease_api" where
  "kube_api = \<lparr>
     la_get = (\<lambda>(cur, seen) n. case (cur, seen) of
        (Some c, Inr l) \<Rightarrow> if lease_Version c = lease_Version l then Inr c else Inr l
      | _ \<Rightarrow> seen),
     la_create = (\<lambda>(cur, seen) l. case cur of
        None \<Rightarrow> (None, (Some (l \<lparr> lease_Version := 1 \<rparr>), seen))
      | Some _ \<Rightarrow> (Some (AlreadyExists ''exists''), (cur, seen))),
     la_update = (\<lambda>(cur, seen) l. case cur of
        None \<Rightarrow> (Some (NotFound ''gone''), (cur, seen))
      | Some c \<Rightarrow> if lease_Version c = lease_Version l then (None, (Some (l \<lparr> lease_Version := Suc (lease_Version c) \<rparr>), seen))
                  else (Some (Conflict ''conflict''), (cur, seen))),
     la_patch = (\<lambda>(cur, seen) base new. case cur of
        None \<Rightarrow> (Some (NotFound ''gone''), (cur, seen))
      | Some c \<Rightarrow> (None, (Some (mergePatch base new c \<lparr> lease_Version := Suc (lease_Version c) \<rparr>), seen))) \<rparr>"

interpretation kube: lease_server kube_api fst
  by unfold_locales (auto simp: kube_api_def split: option.splits sum.splits if_splits)

definition sample_backup :: "string \<Rightarrow> BackupCR" where
  "sample_backup name =
     \<lparr> b_Name = name, b_Namespace = ''ns'', b_Labels = Map.empty, b_Annotations = Map.empty, b_Created = 0, b_Deleting = False,
       b_Finalizers = [], b_Owner = None, b_ClusterName = ''c'', b_StorageName = ''s'', b_Type = '''', b_Consistency = ''strict'',
       b_ContainerOptions = None, b_StartingDeadline = None,
       b_ActiveDeadline = None, b_State = BackupStateNew, b_StateDescription = '''', b_Destination = '''',
       b_StatusStorage = '''', b_S3 = None, b_GCS = None, b_Azure = None, b_Shards = [], b_SlotCoverage = '''', b_Start = None,
       b_Completed = None, b_ValkeyVersion = '''' \<rparr>"


lemma kube_eval:
  "la_get kube_api (cur, seen) n = (case (cur, seen) of
        (Some c, Inr l) \<Rightarrow> if lease_Version c = lease_Version l then Inr c else Inr l | _ \<Rightarrow> seen)"
  "la_create kube_api (None, seen) l = (None, (Some (l \<lparr> lease_Version := 1 \<rparr>), seen))"
  "la_update kube_api (Some c, seen) l = (if lease_Version c = lease_Version l
     then (None, (Some (l \<lparr> lease_Version := Suc (lease_Version c) \<rparr>), seen)) else (Some (Conflict ''conflict''), (Some c, seen)))"
  "la_patch kube_api (Some c, seen) base new = (None, (Some (mergePatch base new c \<lparr> lease_Version := Suc (lease_Version c) \<rparr>), seen))"
  by (simp_all add: kube_api_def)


text \<open>The assumption on releases is needed, as the release sends a merge patch without the version it
  read: a backup that reads the Lease, stalls until the lock has gone to a second one, and then releases,
  frees the lock of the second one.  A third backup is granted the lock one second after the second.\<close>

theorem stale_release_frees_other:
  "\<exists>s'. lease_run kube_api fst False (None, Inl (NotFound ''''))
     [Grant ''backup/ns/a'' 0, Grant ''backup/ns/b'' 30000000000, Release ''backup/ns/a'', Grant ''backup/ns/c'' 31000000000] s'"
proof -
  define la where "la = newLease (LeaseName ''c'') ''backup/ns/a'' 0 \<lparr> lease_Version := 1 \<rparr>"
  define lb where "lb = renewedLease la ''backup/ns/b'' 30000000000 \<lparr> lease_Version := 2 \<rparr>"
  define lf where "lf = mergePatch la (releasedLease la) lb \<lparr> lease_Version := 3 \<rparr>"
  let ?A = "kube_api" and ?R = "lease_run kube_api fst False"
  have ids: "leaseHolderID (sample_backup ''a'') = ''backup/ns/a''" "leaseHolderID (sample_backup ''b'') = ''backup/ns/b''"
    "leaseHolderID (sample_backup ''c'') = ''backup/ns/c''" "b_ClusterName (sample_backup x) = ''c''" for x
    by (simp_all add: leaseHolderID_def sample_backup_def)
  note evals = kube_eval la_def lb_def lf_def newLease_def renewedLease_def releasedLease_def mergePatch_def leaseHeldByOther_def
    leaseDurationSeconds_def second_def Let_def ids
  have a: "acquireClusterLease ?A (sample_backup ''a'') 0 (None, Inl (NotFound '''')) = (Inr True, (Some la, Inl (NotFound '''')))"
    by (simp add: acquireClusterLease_def createLease_def evals)
  have b: "acquireClusterLease ?A (sample_backup ''b'') 30000000000 (Some la, Inr la) = (Inr True, (Some lb, Inr la))"
    by (simp add: acquireClusterLease_def renewLeaseObject_def evals)
  have r: "releaseClusterLease ?A (sample_backup ''a'') (Some lb, Inr la) = (Inr (), (Some lf, Inr la))"
    by (simp add: releaseClusterLease_def evals)
  obtain s' where c: "acquireClusterLease ?A (sample_backup ''c'') 31000000000 (Some lf, Inr lf) = (Inr True, s')"
    by (simp add: acquireClusterLease_def renewLeaseObject_def evals)
  have "?R (Some lf, Inr la) [Grant ''backup/ns/c'' 31000000000] s'"
    using lease_run.other [of fst "(Some lf, Inr lf)", OF _ lease_run.acquired [OF c lease_run.stop]] by (simp add: ids)
  then have "?R (Some lb, Inr la) [Release ''backup/ns/a'', Grant ''backup/ns/c'' 31000000000] s'"
    using lease_run.released [OF r, of False fst] by (simp add: ids)
  then have "?R (Some la, Inr la) [Grant ''backup/ns/b'' 30000000000, Release ''backup/ns/a'', Grant ''backup/ns/c'' 31000000000] s'"
    using lease_run.acquired [OF b] by (simp add: ids)
  then have "?R (None, Inl (NotFound '''')) (Grant (leaseHolderID (sample_backup ''a'')) 0 # [Grant ''backup/ns/b'' 30000000000,
      Release ''backup/ns/a'', Grant ''backup/ns/c'' 31000000000]) s'"
    by - (rule lease_run.acquired [OF a], rule lease_run.other [of fst "(Some la, Inr la)"], simp_all)
  then show ?thesis by (auto simp only: ids)
qed

end
