(* ===== verification/Node_Roll.thy ===== *)
theory Node_Roll
  imports Restore_Target Backup_Lease
begin

text \<open>
  Creating and rolling the nodes of a cluster: \<^verbatim>\<open>nodes.go\<close>, \<^verbatim>\<open>smartupdate.go\<close> and \<^verbatim>\<open>failover.go\<close> of
  \<^verbatim>\<open>src/pkg/controller/perconavalkeycluster\<close>, and the parts of \<^verbatim>\<open>tls.go\<close>, \<^verbatim>\<open>expose.go\<close> and
  \<^verbatim>\<open>expose_announce.go\<close> the desired spec of a node is built from.

  One node is created or rolled per pass; a primary is rolled only after its replica has taken over.
\<close>

subsection \<open>The desired node\<close>

definition AnnTLSHash :: string where "AnnTLSHash = labelPrefix @ ''tls-hash''"
definition ResourcePrefix :: string where "ResourcePrefix = ''valkey-''"
definition perPodServiceSuffix :: string where "perPodServiceSuffix = ''-ext''"

definition perPodServiceName :: "string \<Rightarrow> string" where
  "perPodServiceName node = ResourcePrefix @ node @ perPodServiceSuffix"

definition exposeExternal :: "ExposeSpec option \<Rightarrow> bool" where
  "exposeExternal x = (case x of None \<Rightarrow> False | Some e \<Rightarrow> exp_Type e = NodePort \<or> exp_Type e = LoadBalancer)"

definition announceWanted :: "Cluster \<Rightarrow> bool" where
  "announceWanted c =
     (case Expose (Spec c) of
        None \<Rightarrow> False
      | Some e \<Rightarrow> if \<not> exp_PerPod e then False else Mode (Spec c) = ModeCluster \<and> exposeExternal (Some e))"

definition announceForNode :: "Cluster \<Rightarrow> nodeKey \<Rightarrow> string \<times> int option" where
  "announceForNode c key =
     (if \<not> announceWanted c then ('''', None)
      else let node = NodeName (Name c) (nk_shard key) (nk_node key)
           in (perPodServiceName node @ ''.'' @ Namespace c @ ''.svc'', Some ClientPort))"

definition tlsSecretName :: "Cluster \<Rightarrow> string" where
  "tlsSecretName c =
     (case TLSSpec (Spec c) of
        Some t \<Rightarrow> if tls_SecretName t \<noteq> '''' then tls_SecretName t else TLSSecretName (Name c)
      | None \<Rightarrow> TLSSecretName (Name c))"

definition nodeTLSConfig :: "Cluster \<Rightarrow> TLSConfig option" where
  "nodeTLSConfig c =
     (case TLSSpec (Spec c) of
        None \<Rightarrow> None
      | Some t \<Rightarrow> Some \<lparr> tls_SecretName = tlsSecretName c, tls_CertManager = None, tls_AuthClients = tls_AuthClients t,
                        tls_Ciphers = tls_Ciphers t, tls_CipherSuites = tls_CipherSuites t,
                        tls_DHParamsSecret = tls_DHParamsSecret t \<rparr>)"

definition stampTLSHash :: "ValkeyNode \<Rightarrow> string \<Rightarrow> ValkeyNode" where
  "stampTLSHash node hash =
     (if hash = '''' then node else node \<lparr> vn_Annotations := (vn_Annotations node)(AnnTLSHash \<mapsto> hash) \<rparr>)"

definition buildValkeyNodeSpec :: "Cluster \<Rightarrow> nodeKey \<Rightarrow> string \<Rightarrow> ValkeyNode" where
  "buildValkeyNodeSpec c key configHash =
     (let name = NodeName (Name c) (nk_shard key) (nk_node key);
          (host, port) = announceForNode c key;
          node = \<lparr> vn_Name = name,
                   vn_Labels = NodeLabels name (ClusterTopologyLabels (Name c) (nk_shard key) (nk_node key)),
                   vn_Annotations = Map.empty, vn_Generation = 0, vn_Deleting = False,
                   vn_Spec = \<lparr> ns_Image = Image (Spec c), ns_Persistence = PersistenceSpec (Spec c), ns_Config = ConfigSpec (Spec c),
                     ns_TLS = nodeTLSConfig c, ns_ServerConfigMapName = ClusterConfigMapName (Name c),
                     ns_ServerConfigHash = configHash, ns_ACLSecretName = ACLSecretName (Name c),
                     ns_AnnounceHost = host, ns_AnnouncePort = port, ns_RestoreFrom = restoreSourceForNode c key,
                     ns_Exporter = Exporter (Spec c), ns_PodTemplate = PodTemplate (Spec c) \<rparr>,
                   vn_PodIP = '''', vn_Ready = False, vn_ObservedGeneration = 0 \<rparr>
      in stampTLSHash node (lookup (Annotations c) AnnTLSHash))"

text \<open>\<^verbatim>\<open>make\<close> panics on a negative capacity.  In every shard replicas come before the primary.\<close>

definition desiredNodes :: "Cluster \<Rightarrow> nodeKey list option" where
  "desiredNodes c =
     (let shards = Shards_want (Spec c); replicas = Replicas (Spec c)
      in if shards * (1 + replicas) < 0 then None
         else Some (concat (map (\<lambda>shard. map (\<lambda>node. \<lparr> nk_shard = shard, nk_node = node \<rparr>) [1..replicas] @
                                         [\<lparr> nk_shard = shard, nk_node = 0 \<rparr>]) [0..shards - 1])))"

definition nodeKeyOf :: "ValkeyNode \<Rightarrow> nodeKey" where
  "nodeKeyOf node = \<lparr> nk_shard = shardIndexOf node, nk_node = nodeIndexOf node \<rparr>"

definition nodeNeedsRoll :: "ValkeyNode \<Rightarrow> Cluster \<Rightarrow> string \<Rightarrow> bool" where
  "nodeNeedsRoll node c configHash \<longleftrightarrow>
     ns_ServerConfigHash (vn_Spec node) \<noteq> configHash \<or> ns_Image (vn_Spec node) \<noteq> Image (Spec c)"

definition nodeConverged :: "ValkeyNode \<Rightarrow> Cluster \<Rightarrow> string \<Rightarrow> bool" where
  "nodeConverged node c configHash =
     (if ns_ServerConfigHash (vn_Spec node) \<noteq> configHash then False
      else if ns_Image (vn_Spec node) \<noteq> Image (Spec c) then False
      else if \<not> vn_Ready node then False
      else if vn_ObservedGeneration node \<noteq> vn_Generation node then False
      else True)"

definition indexNodesByName :: "ValkeyNode list \<Rightarrow> (string \<rightharpoonup> ValkeyNode)" where
  "indexNodesByName nodes = foldl (\<lambda>m n. m(vn_Name n \<mapsto> n)) Map.empty nodes"

definition orderedByName :: "ValkeyNode list \<Rightarrow> ValkeyNode list" where
  "orderedByName nodes = sort_key vn_Name nodes"

definition liveStateOf :: "ClusterState option \<Rightarrow> ValkeyNode \<Rightarrow> NodeState option" where
  "liveStateOf st node =
     (case st of
        None \<Rightarrow> None
      | Some s \<Rightarrow> if vn_PodIP node = '''' then None else NodeByAddr s (vn_PodIP node @ '':'' @ Itoa ClientPort))"

definition isLivePrimaryNode :: "ClusterState option \<Rightarrow> ValkeyNode \<Rightarrow> bool" where
  "isLivePrimaryNode st node =
     (case liveStateOf st node of Some live \<Rightarrow> IsPrimary live | None \<Rightarrow> nodeIndexOf node = 0)"

definition midRollNode :: "Cluster \<Rightarrow> ValkeyNode list \<Rightarrow> string \<Rightarrow> ValkeyNode option" where
  "midRollNode c nodes configHash = find (\<lambda>n. \<not> nodeNeedsRoll n c configHash \<and> \<not> nodeConverged n c configHash) nodes"

text \<open>The loop of \<open>nextRollCandidate\<close>; \<open>primary\<close> is the first primary found so far.\<close>

fun nextRollCandidate_loop ::
  "Cluster \<Rightarrow> ClusterState option \<Rightarrow> string \<Rightarrow> ValkeyNode list \<Rightarrow> ValkeyNode option \<Rightarrow> ValkeyNode option" where
  "nextRollCandidate_loop c st configHash [] primary = primary"
| "nextRollCandidate_loop c st configHash (n # ns) primary =
     (if \<not> nodeNeedsRoll n c configHash then nextRollCandidate_loop c st configHash ns primary
      else if isLivePrimaryNode st n
      then nextRollCandidate_loop c st configHash ns (if primary = None then Some n else primary)
      else Some n)"

definition nextRollCandidate :: "Cluster \<Rightarrow> ValkeyNode list \<Rightarrow> ClusterState option \<Rightarrow> string \<Rightarrow> ValkeyNode option" where
  "nextRollCandidate c nodes st configHash = nextRollCandidate_loop c st configHash (orderedByName nodes) None"

definition anyRollPending :: "Cluster \<Rightarrow> ValkeyNode list \<Rightarrow> string \<Rightarrow> bool" where
  "anyRollPending c nodes configHash = list_ex (\<lambda>n. nodeNeedsRoll n c configHash) nodes"

subsection \<open>Graceful failover\<close>

definition failoverPollInterval :: int where "failoverPollInterval = 1000000000"
definition failoverPollTimeout :: int where "failoverPollTimeout = 10 * 1000000000"

definition defaultRolePoll :: "env \<Rightarrow> Action list \<Rightarrow> nat \<Rightarrow> NodeState \<Rightarrow> Role" where
  "defaultRolePoll E tr i target =
     (case infoReplication E tr i (Addr target) of
        None \<Rightarrow> RoleReplica
      | Some raw \<Rightarrow> fst (ParseInfoReplicationTyped raw))"

text \<open>
  The polling loop.  \<open>start\<close> is the time the round begins; the clock is read \<open>lag\<close> later, and the timer
  fires at least one interval after that.
\<close>

function awaitRoleFlip_loop :: "env \<Rightarrow> Action list \<Rightarrow> NodeState \<Rightarrow> int \<Rightarrow> nat \<Rightarrow> int \<Rightarrow> bool" where
  "awaitRoleFlip_loop E tr target deadline i start =
     (if defaultRolePoll E tr i target = RolePrimary then True
      else let t = start + int (lag E tr i)
           in if \<not> t < deadline then False
              else if cancelled E tr i then False
              else awaitRoleFlip_loop E tr target deadline (Suc i) (t + failoverPollInterval))"
  by pat_completeness auto

termination
  by (relation "measure (\<lambda>(E, tr, target, deadline, i, start). nat (deadline - start))")
     (auto simp: failoverPollInterval_def)

declare awaitRoleFlip_loop.simps [simp del]

definition awaitRoleFlip :: "env \<Rightarrow> Action list \<Rightarrow> NodeState \<Rightarrow> bool" where
  "awaitRoleFlip E tr target =
     (let start = wallNow E tr in awaitRoleFlip_loop E tr target (start + failoverPollTimeout) 0 start)"

definition proactiveFailover :: "env \<Rightarrow> ClusterState \<Rightarrow> string \<Rightarrow> world \<Rightarrow> (go_error, bool) result \<times> world" where
  "proactiveFailover E st shardID w =
     (case PrimaryByShardID st shardID of
        None \<Rightarrow> (Inr False, w)
      | Some primary \<Rightarrow>
          (case HighestOffsetReplica st (ID primary) of
             None \<Rightarrow> (Inr False, event EventWarning ''FailoverDeferred''
                        (''shard '' @ shardID @ '' has no synced replica; deferring primary roll'') w)
           | Some target \<Rightarrow>
               if \<not> client target
               then (Inr False, event EventWarning ''FailoverDeferred''
                        (''shard '' @ shardID @ '' has no synced replica; deferring primary roll'') w)
               else let w1 = event EventNormal ''FailoverInitiated''
                          (''initiating graceful failover of shard '' @ shardID @ '' to replica '' @ ID target) w
                    in case command E (Addr target) (ClusterFailover FailoverGraceful) w1 of
                         (Some e, w2) \<Rightarrow>
                           (Inl (Err e), event EventWarning ''FailoverFailed''
                              (''CLUSTER FAILOVER on '' @ ID target @ '' failed: '' @ e) w2)
                       | (None, w2) \<Rightarrow>
                           if awaitRoleFlip E (trace w2) target
                           then (Inr True, event EventNormal ''FailoverCompleted''
                                  (''failover of shard '' @ shardID @ '' completed; '' @ ID target @ '' is now primary'') w2)
                           else (Inr False, event EventWarning ''FailoverTimeout''
                                  (''failover of shard '' @ shardID @ '' did not complete within 10s; retrying'') w2)))"

subsection \<open>Engine upgrades\<close>

definition engineFloor :: int where "engineFloor = 9"
definition engineJumpWarnMinors :: int where "engineJumpWarnMinors = 2"

datatype engineChangeKind = engineChangeNone | engineChangePatch | engineChangeMinorForward | engineChangeMultiMinorJump
  | engineChangeFeatureLineDowngrade

record engineVersion =
  ev_major :: int
  ev_minor :: int
  ev_patch :: int
  ev_known :: bool

definition parseEngineVersion :: "string \<Rightarrow> engineVersion" where
  "parseEngineVersion img =
     (let tag = (case after_last (CHR '':'') img of Some t \<Rightarrow> t | None \<Rightarrow> img);
          tag = fst (Cut tag (CHR ''-''));
          parts = SplitN tag (CHR ''.'') 3
      in case Atoi (hd parts) of
           (_, Some _) \<Rightarrow> \<lparr> ev_major = 0, ev_minor = 0, ev_patch = 0, ev_known = False \<rparr>
         | (maj, None) \<Rightarrow> \<lparr> ev_major = maj, ev_minor = (if length parts > 1 then atoiOrZero (parts ! 1) else 0),
                           ev_patch = (if length parts > 2 then atoiOrZero (parts ! 2) else 0), ev_known = True \<rparr>)"

definition isMultiLineJump :: "engineVersion \<Rightarrow> engineVersion \<Rightarrow> bool" where
  "isMultiLineJump cur tgt =
     (if ev_major tgt - ev_major cur \<ge> engineJumpWarnMinors then True
      else if ev_major tgt = ev_major cur + 1 then ev_minor tgt \<ge> engineJumpWarnMinors
      else if ev_major tgt = ev_major cur then ev_minor tgt - ev_minor cur \<ge> engineJumpWarnMinors
      else False)"

definition classifyEngineChange :: "string \<Rightarrow> string \<Rightarrow> engineChangeKind" where
  "classifyEngineChange current target =
     (let cur = parseEngineVersion current; tgt = parseEngineVersion target
      in if \<not> ev_known cur \<or> \<not> ev_known tgt then engineChangeNone
         else let curLine = ev_major cur * 100 + ev_minor cur; tgtLine = ev_major tgt * 100 + ev_minor tgt
              in if tgtLine < curLine then engineChangeFeatureLineDowngrade
                 else if tgtLine = curLine then engineChangePatch
                 else if isMultiLineJump cur tgt then engineChangeMultiMinorJump
                 else engineChangeMinorForward)"

text \<open>The image of the first node that runs another one than the spec asks for, if any.\<close>

definition pendingEngineChange :: "env \<Rightarrow> world \<Rightarrow> (string, string \<times> bool) result" where
  "pendingEngineChange E w =
     (case listNodes E (trace w) of
        Inl e \<Rightarrow> Inl e
      | Inr nodes \<Rightarrow>
          (case find (\<lambda>n. ns_Image (vn_Spec n) \<noteq> '''' \<and> ns_Image (vn_Spec n) \<noteq> Image (Spec (cluster w))) nodes of
             Some n \<Rightarrow> Inr (ns_Image (vn_Spec n), True)
           | None \<Rightarrow> Inr (Image (Spec (cluster w)), False)))"

definition applyEngineDowngradePolicy :: "string \<Rightarrow> world \<Rightarrow> (bool \<times> string) \<times> world" where
  "applyEngineDowngradePolicy current w =
     (let target = Image (Spec (cluster w));
          kind = classifyEngineChange current target
      in if kind = engineChangeFeatureLineDowngrade
         then ((True, ''UnsupportedDowngrade''),
               event EventWarning ''UnsupportedDowngrade''
                 (''refusing unsupported engine downgrade from '' @ quoted current @ '' to '' @ quoted target @
                  '' (feature-line downgrade is not supported)'')
                 (setCondition CondDegraded ConditionTrue ''UnsupportedDowngrade''
                    (''refusing engine feature-line downgrade '' @ current @ '' -> '' @ target) w))
         else let w1 = (if kind = engineChangeMultiMinorJump
                        then event EventNormal ''EngineJumpWarning''
                               (''engine multi-minor jump from '' @ quoted current @ '' to '' @ quoted target @
                                ''; the roll proceeds (consider the version-service Recommended pin)'') w
                        else w);
                  tv = parseEngineVersion target;
                  w2 = (if ev_known tv \<and> ev_major tv < engineFloor
                        then event EventWarning ''MigrateSlotsUnsupported''
                               (''resolved engine '' @ quoted target @ '' is below the Valkey '' @ Itoa engineFloor @
                                ''.0 floor; atomic slot migration (scale-in/out) is unsupported'') w1
                        else w1)
              in ((False, ''''), w2))"

definition backupRunning :: "env \<Rightarrow> world \<Rightarrow> bool" where
  "backupRunning E w =
     (case IsBackupRunning (getLease E (trace w) (LeaseName (Name (cluster w)))) (Name (cluster w)) (wallNow E (trace w)) of
        Inl _ \<Rightarrow> False | Inr running \<Rightarrow> running)"

definition smartUpdateAllowed :: "env \<Rightarrow> ClusterState option \<Rightarrow> world \<Rightarrow> bool \<times> string" where
  "smartUpdateAllowed E st w =
     (if backupRunning E w then (False, ''UpgradeGatedBackupRunning'')
      else if conditionTrue (cluster w) CondDegraded then (False, ''UpgradeGatedNotReady'')
      else case st of
        None \<Rightarrow> (False, ''UpgradeGatedNotReady'')
      | Some s \<Rightarrow>
          if GetUnassignedSlots s \<noteq> [] then (False, ''UpgradeGatedSlotsIncomplete'')
          else if FailedPrimaries s \<noteq> [] then (False, ''UpgradeGatedNotReady'')
          else if \<not> IsReplicationInSync s then (False, ''UpgradeGatedReplicasUnsynced'')
          else (True, ''''))"

definition reconcileSmartUpdate :: "env \<Rightarrow> ClusterState option \<Rightarrow> world \<Rightarrow> (bool \<times> string) \<times> world" where
  "reconcileSmartUpdate E st w =
     (case pendingEngineChange E w of
        Inl _ \<Rightarrow> ((False, ''UpgradeGatedNotReady''), w)
      | Inr (current, changing) \<Rightarrow>
          if \<not> changing then ((True, ''''), w)
          else case applyEngineDowngradePolicy current w of
            ((blocked, reason), w1) \<Rightarrow>
              if blocked then ((False, reason), w1)
              else case smartUpdateAllowed E st w1 of
                (ok, gReason) \<Rightarrow> if \<not> ok then ((False, gReason), w1) else ((True, ''''), w1))"

subsection \<open>Creating and rolling\<close>

text \<open>\<open>k8s.CreateOrUpdate\<close> on an object of the Go type \<open>ty\<close> and the name \<open>name\<close>.\<close>

definition CreateOrUpdate :: "env \<Rightarrow> string \<Rightarrow> string \<Rightarrow> ApiWrite \<Rightarrow> world \<Rightarrow> (go_error, OperationResult) result \<times> world" where
  "CreateOrUpdate E ty name obj w =
     (case apiWrite E obj w of
        (Some e, w1) \<Rightarrow> (Inl (Err (''createOrUpdate '' @ ty @ '' '' @ Namespace (cluster w) @ ''/'' @ name @ '': '' @ api_text e)), w1)
      | (None, w1) \<Rightarrow> (Inr (opResult E (trace w) obj), w1))"

text \<open>The event that reports a created object.\<close>

definition onCreated :: "OperationResult \<Rightarrow> string \<Rightarrow> string \<Rightarrow> world \<Rightarrow> world" where
  "onCreated res reason msg w = (if res = OpCreated then event EventNormal reason msg w else w)"

definition gateAnnotation :: string where "gateAnnotation = ''valkey.percona.com/gate-engine-roll''"
definition annEnabledValue :: string where "annEnabledValue = ''true''"

definition shouldGateEngineRoll :: "Cluster \<Rightarrow> bool" where
  "shouldGateEngineRoll c =
     (case Annotations c gateAnnotation of None \<Rightarrow> False | Some v \<Rightarrow> v = annEnabledValue \<or> v = ''1'')"

text \<open>The object written holds the labels and the spec of the desired node; nothing else is copied.\<close>

definition createValkeyNode :: "env \<Rightarrow> nodeKey \<Rightarrow> string \<Rightarrow> world \<Rightarrow> (go_error, unit) result \<times> world" where
  "createValkeyNode E key configHash w =
     (let c = cluster w;
          name = NodeName (Name c) (nk_shard key) (nk_node key);
          desired = buildValkeyNodeSpec c key configHash;
          node = \<lparr> vn_Name = name, vn_Labels = vn_Labels desired, vn_Annotations = Map.empty, vn_Generation = 0,
                   vn_Deleting = False, vn_Spec = vn_Spec desired, vn_PodIP = '''', vn_Ready = False, vn_ObservedGeneration = 0 \<rparr>
      in case CreateOrUpdate E ''*v1alpha1.ValkeyNode'' name (CreateNode node) w of
           (Inl e, w1) \<Rightarrow> (Inl e, w1)
         | (Inr res, w1) \<Rightarrow>
             (Inr (), onCreated res ''ValkeyNodeCreated''
                        (''Created ValkeyNode '' @ name @ '' (shard '' @ Itoa (nk_shard key) @ '' node '' @ Itoa (nk_node key) @ '')'') w1))"

definition stamp_body :: "env \<Rightarrow> ValkeyNode \<Rightarrow> string \<Rightarrow> world \<Rightarrow> (go_error, unit) result \<times> world" where
  "stamp_body E node configHash w =
     (let desired = buildValkeyNodeSpec (cluster w) (nodeKeyOf node) configHash;
          stamped = node \<lparr> vn_Spec := vn_Spec desired, vn_Labels := vn_Labels desired \<rparr>
      in case apiWrite E (UpdateNode stamped) w of
           (Some e, w1) \<Rightarrow> (Inl (Err (''stamp roll on '' @ vn_Name node @ '': '' @ api_text e)), w1)
         | (None, w1) \<Rightarrow>
             (Inr (), event EventNormal ''ValkeyNodeRolled'' (''rolling ValkeyNode '' @ vn_Name node @ '' (config/image change)'') w1))"

definition written :: "string option \<Rightarrow> (go_error, unit) result" where
  "written r = (case r of None \<Rightarrow> Inr () | Some e \<Rightarrow> Inl (Err e))"

definition rollNode :: "env \<Rightarrow> ValkeyNode \<Rightarrow> ClusterState option \<Rightarrow> string \<Rightarrow> world \<Rightarrow> (go_error, unit) result \<times> world" where
  "rollNode E node st configHash w =
     (case (st, liveStateOf st node) of
        (Some s, Some live) \<Rightarrow>
          if IsPrimary live
          then case proactiveFailover E s (ShardID live) w of
                 (Inl e, w1) \<Rightarrow> (Inl e, w1)
               | (Inr False, w1) \<Rightarrow>
                   (case writeStatus E (setCondition CondDegraded ConditionTrue ''FailoverPending''
                           ''deferring primary roll until a synced replica is promoted'' w1) of
                      (r, w2) \<Rightarrow> (written r, w2))
               | (Inr True, w1) \<Rightarrow>
                   stamp_body E node configHash
                     (setCondition CondDegraded ConditionFalse ''Reconciling'' ''failover complete'' w1)
          else stamp_body E node configHash w
      | _ \<Rightarrow> stamp_body E node configHash w)"

definition rollNextNode :: "env \<Rightarrow> ValkeyNode list \<Rightarrow> string \<Rightarrow> world \<Rightarrow> (go_error, unit) result \<times> world" where
  "rollNextNode E nodes configHash w =
     (if shouldGateEngineRoll (cluster w)
      then (Inr (), setCondition CondProgressing ConditionTrue ''Reconciling'' ''roll gated by backup/restore'' w)
      else if midRollNode (cluster w) nodes configHash \<noteq> None then (Inr (), w)
      else let st = getValkeyClusterState E nodes w
           in case reconcileSmartUpdate E st w of
                ((allowed, reason), w1) \<Rightarrow>
                  if \<not> allowed
                  then (case writeStatus E (setCondition CondProgressing ConditionTrue ''Reconciling''
                               (''engine roll deferred: '' @ reason) w1) of
                          (r, w2) \<Rightarrow> (written r, w2))
                  else case nextRollCandidate (cluster w1) nodes st configHash of
                         None \<Rightarrow> (Inr (), w1)
                       | Some target \<Rightarrow> rollNode E target st configHash w1)"

text \<open>\<open>Inr True\<close> asks for another pass.\<close>

definition keyName :: "Cluster \<Rightarrow> nodeKey \<Rightarrow> string" where
  "keyName c key = NodeName (Name c) (nk_shard key) (nk_node key)"

text \<open>The first desired node that does not exist.\<close>

definition missingNode :: "Cluster \<Rightarrow> ValkeyNode list \<Rightarrow> nodeKey list \<Rightarrow> nodeKey option" where
  "missingNode c nodes keys = find (\<lambda>key. indexNodesByName nodes (keyName c key) = None) keys"

definition reconcileValkeyNodes :: "env \<Rightarrow> ValkeyNode list \<Rightarrow> string \<Rightarrow> world \<Rightarrow> (go_error, bool) result \<times> world" where
  "reconcileValkeyNodes E nodes configHash w =
     (let c = cluster w; existing = indexNodesByName nodes
      in case desiredNodes c of
           None \<Rightarrow> (Inl Panic, w)
         | Some keys \<Rightarrow>
             (case missingNode c nodes keys of
                Some key \<Rightarrow>
                  (case createValkeyNode E key configHash w of (Inl e, w1) \<Rightarrow> (Inl e, w1) | (Inr _, w1) \<Rightarrow> (Inr True, w1))
              | None \<Rightarrow>
                  if anyRollPending c nodes configHash
                  then (case rollNextNode E nodes configHash w of (Inl e, w1) \<Rightarrow> (Inl e, w1) | (Inr _, w1) \<Rightarrow> (Inr True, w1))
                  else if list_ex (\<lambda>key. case existing (keyName c key) of
                                           Some current \<Rightarrow> \<not> nodeConverged current c configHash | None \<Rightarrow> False) keys
                  then (Inr True, w)
                  else (Inr False, w)))"

subsection \<open>Waiting for a failover ends\<close>

lemma awaitRoleFlip_loop_poll:
  assumes "awaitRoleFlip_loop E tr target deadline i start" "deadline \<le> start + (10 - int i) * failoverPollInterval" "i \<le> 10"
  shows "\<exists>j \<le> 10. defaultRolePoll E tr j target = RolePrimary"
  using assms
proof (induction E tr target deadline i start rule: awaitRoleFlip_loop.induct)
  case (1 E tr target deadline i start)
  define t where "t = start + int (lag E tr i)"
  show ?case
  proof (cases "defaultRolePoll E tr i target = RolePrimary")
    case True
    then show ?thesis using "1.prems" by blast
  next
    case False
    with "1.prems"(1) have t: "t < deadline" "\<not> cancelled E tr i"
      "awaitRoleFlip_loop E tr target deadline (Suc i) (t + failoverPollInterval)"
      by (auto simp: awaitRoleFlip_loop.simps [of E tr target deadline i start] t_def Let_def split: if_splits)
    from t(1) "1.prems"(2) have "i \<noteq> 10" by (auto simp: t_def)
    moreover have "deadline \<le> (t + failoverPollInterval) + (10 - int (Suc i)) * failoverPollInterval"
      using "1.prems"(2) by (simp add: t_def algebra_simps)
    ultimately show ?thesis
      using "1.IH" [OF False t_def, simplified] t "1.prems"(3) by simp
  qed
qed

lemma awaitRoleFlip_poll: "awaitRoleFlip E tr target \<Longrightarrow> \<exists>j \<le> 10. defaultRolePoll E tr j target = RolePrimary"
  using awaitRoleFlip_loop_poll [of E tr target _ 0 "wallNow E tr"]
  by (simp add: awaitRoleFlip_def Let_def failoverPollTimeout_def failoverPollInterval_def)

lemma awaitRoleFlip_first:
  "defaultRolePoll E tr 0 target = RolePrimary \<Longrightarrow> awaitRoleFlip E tr target"
  by (simp add: awaitRoleFlip_def Let_def awaitRoleFlip_loop.simps)

text \<open>Waiting for a failover ends, and only a role the engine reports can end it well: whatever the
  timers and the clock do, \<open>awaitRoleFlip\<close> looks at no more than the first eleven polls.  It succeeds only
  if one of them reported the primary role, and it succeeds at once if the first one did.\<close>

theorem awaitRoleFlip_bounded:
  "(awaitRoleFlip E tr target \<longrightarrow> (\<exists>j. j \<le> 10 \<and> defaultRolePoll E tr j target = RolePrimary)) \<and>
   (defaultRolePoll E tr 0 target = RolePrimary \<longrightarrow> awaitRoleFlip E tr target)"
  using awaitRoleFlip_poll awaitRoleFlip_first by blast

theorem awaitRoleFlip_bounded_witness:
  "awaitRoleFlip calm [] (sample_node ''10.0.0.1'' ''s0'' RolePrimary '''' [] []) \<and>
   (\<exists>j. j \<le> 10 \<and> defaultRolePoll calm [] j (sample_node ''10.0.0.1'' ''s0'' RolePrimary '''' [] []) = RolePrimary)"
proof -
  have "defaultRolePoll calm [] 0 (sample_node ''10.0.0.1'' ''s0'' RolePrimary '''' [] []) = RolePrimary"
    by code_simp
  with awaitRoleFlip_bounded [of calm "[]" "sample_node ''10.0.0.1'' ''s0'' RolePrimary '''' [] []"] show ?thesis by blast
qed

subsection \<open>What a pass over the nodes writes\<close>

fun node_write :: "Action \<Rightarrow> ValkeyNode option" where
  "node_write (Write (CreateNode v) _) = Some v"
| "node_write (Write (UpdateNode v) _) = Some v"
| "node_write _ = None"

definition wrote :: "world \<Rightarrow> world \<Rightarrow> ValkeyNode list" where
  "wrote w w' = List.map_filter node_write (added w w')"

lemma node_write_None [simp]:
  "node_write (Event t r m) = None" "node_write (Engine a x y) = None" "node_write (Write (WriteStatus s) y') = None"
  by simp_all

lemma wrote_refl [simp]: "wrote w w = []"
  by (simp add: wrote_def map_filter_simps)

lemma wrote_none: "adds (\<lambda>a. node_write a = None) w w' \<Longrightarrow> wrote w w' = []"
  using adds_added [of "\<lambda>a. node_write a = None" w w'] by (auto simp: wrote_def list_all_iff map_filter_def)

lemma wrote_trans: "adds P w w' \<Longrightarrow> adds Q w' w'' \<Longrightarrow> wrote w w'' = wrote w w' @ wrote w' w''"
  using added_trans [of P w w' Q w''] by (simp add: wrote_def map_filter_def)

definition promoted :: "env \<Rightarrow> ClusterState \<Rightarrow> string \<Rightarrow> Action list \<Rightarrow> bool" where
  "promoted E s shardID as \<longleftrightarrow> (\<exists>p t tr j. PrimaryByShardID s shardID = Some p \<and> HighestOffsetReplica s (ID p) = Some t \<and>
     Engine (Addr t) (ClusterFailover FailoverGraceful) None \<in> set as \<and> j \<le> 10 \<and> defaultRolePoll E tr j t = RolePrimary)"

lemma proactiveFailover_result:
  assumes "proactiveFailover E s sh w = (r, w1)"
  shows "adds (\<lambda>a. node_write a = None \<and> only {Promotion} a) w w1 \<and> cluster w1 = cluster w \<and>
         (r = Inr True \<longrightarrow> promoted E s sh (added w w1)) \<and> r \<noteq> Inl Panic"
proof (cases "\<exists>p t. PrimaryByShardID s sh = Some p \<and> HighestOffsetReplica s (ID p) = Some t \<and> client t")
  case False
  then have "r = Inr False \<and> (w1 = w \<or> w1 = event EventWarning ''FailoverDeferred''
                        (''shard '' @ sh @ '' has no synced replica; deferring primary roll'') w)"
    using assms unfolding proactiveFailover_def by (auto split: option.splits if_splits)
  then show ?thesis by (auto intro: adds_event)
next
  case True
  then obtain p t where p: "PrimaryByShardID s sh = Some p" "HighestOffsetReplica s (ID p) = Some t" "client t" by blast
  define we where "we = event EventNormal ''FailoverInitiated''
                          (''initiating graceful failover of shard '' @ sh @ '' to replica '' @ ID t) w"
  define e where "e = engine E (trace we) (Addr t) (ClusterFailover FailoverGraceful)"
  define w2 where "w2 = act (Engine (Addr t) (ClusterFailover FailoverGraceful) e) we"
  have we: "adds (\<lambda>a. node_write a = None \<and> only {Promotion} a) w we" "cluster we = cluster w"
    by (auto simp: we_def intro: adds_event)
  have w2: "adds (\<lambda>a. node_write a = None \<and> only {Promotion} a) w w2" "cluster w2 = cluster w"
    using we by (auto simp: w2_def only_kinds intro: adds_act_right)
  have c: "command E (Addr t) (ClusterFailover FailoverGraceful) we = (e, w2)" by (simp only: command_def Let_def e_def w2_def)
  have "\<exists>ty k m. w1 = event ty k m w2 \<and> (r = Inr True \<longrightarrow> e = None \<and> awaitRoleFlip E (trace w2) t) \<and> r \<noteq> Inl Panic"
  proof (cases e)
    case None
    show ?thesis
    proof (cases "awaitRoleFlip E (trace w2) t")
      case True
      with assms p(3) None show ?thesis
        unfolding proactiveFailover_def p option.case we_def [symmetric] Let_def c prod.case
        by (simp only: not_True_eq_False if_False if_True option.case prod.inject simp_thms) blast
    next
      case False
      with assms p(3) None have "r = Inr False" "\<exists>ty k m. w1 = event ty k m w2"
        unfolding proactiveFailover_def p option.case we_def [symmetric] Let_def c prod.case
        by (simp_all only: not_True_eq_False if_False option.case prod.inject simp_thms) blast+
      then show ?thesis by auto
    qed
  next
    case (Some x)
    with assms p(3) have "r = Inl (Err x)" "\<exists>ty k m. w1 = event ty k m w2"
      unfolding proactiveFailover_def p option.case we_def [symmetric] Let_def c prod.case
      by (simp_all only: not_True_eq_False if_False option.case prod.inject simp_thms) blast+
    then show ?thesis by auto
  qed
  then obtain ty k m where w1: "w1 = event ty k m w2" and r: "r = Inr True \<longrightarrow> e = None \<and> awaitRoleFlip E (trace w2) t" "r \<noteq> Inl Panic"
    by blast
  have "added w w1 = added w w2 @ [Event ty k m]" using w2 by (simp add: w1 event_def)
  moreover have "added w w2 = added w we @ [Engine (Addr t) (ClusterFailover FailoverGraceful) e]" using we by (simp add: w2_def)
  ultimately have "Engine (Addr t) (ClusterFailover FailoverGraceful) e \<in> set (added w w1)" by simp
  with r p have "r = Inr True \<longrightarrow> promoted E s sh (added w w1)"
    unfolding promoted_def using awaitRoleFlip_poll by metis
  with w1 w2 r show ?thesis by (auto intro: adds_event)
qed

lemma added_acts [simp]: "added w (act a w) = [a]" "added w (act b (act a w)) = [a, b]"
  by (simp_all add: added_def)

lemma stamp_body_result:
  assumes "stamp_body E node h w = (r, w1)"
  shows "adds (\<lambda>a. only {Rolling} a) w w1 \<and> cluster w1 = cluster w \<and> r \<noteq> Inl Panic \<and>
         wrote w w1 = [node \<lparr> vn_Spec := vn_Spec (buildValkeyNodeSpec (cluster w) (nodeKeyOf node) h),
                              vn_Labels := vn_Labels (buildValkeyNodeSpec (cluster w) (nodeKeyOf node) h) \<rparr>]"
proof -
  define v where "v = node \<lparr> vn_Spec := vn_Spec (buildValkeyNodeSpec (cluster w) (nodeKeyOf node) h),
                              vn_Labels := vn_Labels (buildValkeyNodeSpec (cluster w) (nodeKeyOf node) h) \<rparr>"
  define e where "e = api E (trace w) (UpdateNode v)"
  have a: "apiWrite E (UpdateNode v) w = (e, act (Write (UpdateNode v) e) w)" by (simp only: apiWrite_def Let_def e_def)
  have "r \<noteq> Inl Panic \<and> (w1 = act (Write (UpdateNode v) e) w \<or> (\<exists>ty k m. w1 = event ty k m (act (Write (UpdateNode v) e) w)))"
    using assms unfolding stamp_body_def Let_def v_def [symmetric] a prod.case by (cases e) auto
  then show ?thesis unfolding v_def [symmetric]
    by (elim conjE disjE exE)
       (auto simp: wrote_def event_def map_filter_simps only_kinds intro!: adds_act_right)
qed

lemma onCreated_adds [simp]:
  "cluster (onCreated res k m w) = cluster w" "adds (\<lambda>a. node_write a = None \<and> quiet a) w (onCreated res k m w)"
  by (auto simp: onCreated_def intro: adds_event)

lemma writeStatus_no_write:
  "writeStatus E w = (r, w1) \<Longrightarrow> adds (\<lambda>a. node_write a = None \<and> quiet a) w w1 \<and> cluster w1 = applyDerivedState (cluster w)"
  using adds_writeStatus [of _ w w E r w1] writeStatus_cluster [of E w] by auto

lemma written_no_panic [simp]: "written r \<noteq> Inl Panic"
  by (simp add: written_def split: option.split)

text \<open>What rolling one node does: nothing, after a failover that did not complete, or the stamp.\<close>

definition stamps :: "env \<Rightarrow> ValkeyNode \<Rightarrow> ClusterState option \<Rightarrow> string \<Rightarrow> world \<Rightarrow> world \<Rightarrow> ValkeyNode \<Rightarrow> bool" where
  "stamps E n st h w w1 v \<longleftrightarrow>
     v = n \<lparr> vn_Spec := vn_Spec (buildValkeyNodeSpec (cluster w) (nodeKeyOf n) h),
            vn_Labels := vn_Labels (buildValkeyNodeSpec (cluster w) (nodeKeyOf n) h) \<rparr> \<and>
     (case (st, liveStateOf st n) of
        (Some s, Some live) \<Rightarrow> if IsPrimary live then promoted E s (ShardID live) (added w w1) else adds (only {Rolling}) w w1
      | _ \<Rightarrow> adds (only {Rolling}) w w1)"

lemma buildValkeyNodeSpec_cong:
  assumes "Spec c = Spec c'" "Name c = Name c'" "Namespace c = Namespace c'" "Annotations c = Annotations c'"
  shows "buildValkeyNodeSpec c k h = buildValkeyNodeSpec c' k h"
  unfolding buildValkeyNodeSpec_def announceForNode_def announceWanted_def nodeTLSConfig_def tlsSecretName_def
    restoreSourceForNode_def isRestoreTarget_def storageForRestore_def assms ..

lemma setConditionC_Namespace [simp]: "Namespace (setConditionC t st r m c) = Namespace c"
  by (simp add: setConditionC_def)

lemma rollNode_result:
  assumes "rollNode E n st h w = (r, w1)"
  shows "adds (only {Promotion, Rolling}) w w1 \<and> r \<noteq> Inl Panic \<and> (wrote w w1 = [] \<or> (\<exists>v. wrote w w1 = [v] \<and> stamps E n st h w w1 v))"
proof (cases "\<exists>s live. st = Some s \<and> liveStateOf st n = Some live \<and> IsPrimary live")
  case False
  with assms have s: "stamp_body E n h w = (r, w1)" by (auto simp: rollNode_def split: option.splits if_splits)
  have "\<And>s live. st = Some s \<Longrightarrow> liveStateOf st n = Some live \<Longrightarrow> \<not> IsPrimary live" using False by blast
  then show ?thesis using stamp_body_result [OF s]
    by (auto simp: stamps_def intro: adds_only_mono split: option.split)
next
  case True
  then obtain s live where l: "st = Some s" "liveStateOf st n = Some live" "IsPrimary live" by blast
  obtain b w2 where f: "proactiveFailover E s (ShardID live) w = (b, w2)" by fastforce
  note pf = proactiveFailover_result [OF f]
  have a: "adds (\<lambda>a. node_write a = None \<and> only {Promotion} a) w w2" using pf by simp
  have p: "adds (only {Promotion, Rolling}) w w2" "wrote w w2 = []" "adds (\<lambda>_. True) w w2"
    using adds_mono [OF a, of "only {Promotion, Rolling}"] wrote_none adds_mono [OF a, of "\<lambda>a. node_write a = None"] adds_any [OF a]
    by (auto simp: only_def)
  show ?thesis
  proof (cases "b = Inr True")
    case True
    let ?w = "setCondition CondDegraded ConditionFalse ''Reconciling'' ''failover complete'' w2"
    have s: "stamp_body E n h ?w = (r, w1)" using assms l f True unfolding rollNode_def by simp
    note sb = stamp_body_result [OF s]
    have "wrote w w1 = wrote ?w w1" "added w w1 = added w w2 @ added w2 w1"
      using wrote_trans [OF p(3), of "only {Rolling}" w1] added_trans [OF p(3), of "only {Rolling}" w1] sb p(2)
      by (auto simp: wrote_def added_def setCondition_def)
    moreover have "buildValkeyNodeSpec (cluster ?w) k h = buildValkeyNodeSpec (cluster w) k h" for k
      using pf by (intro buildValkeyNodeSpec_cong) auto
    moreover have "promoted E s (ShardID live) (added w w1)"
      using pf True calculation(2) by (auto simp: promoted_def)
    moreover have "adds (only {Promotion, Rolling}) w w1"
      using p(1) sb by (auto intro: adds_trans adds_only_mono)
    ultimately show ?thesis using sb l by (auto simp: stamps_def)
  next
    case False
    show ?thesis
    proof (cases b)
      case (Inl e)
      with assms l f pf p show ?thesis unfolding rollNode_def by auto
    next
      case (Inr d)
      with False have d: "d = False" by auto
      let ?w = "setCondition CondDegraded ConditionTrue ''FailoverPending'' ''deferring primary roll until a synced replica is promoted'' w2"
      obtain x where x: "writeStatus E ?w = (x, w1)" "r = written x"
        using assms l f Inr d unfolding rollNode_def by (auto split: prod.splits)
      have "adds (\<lambda>a. node_write a = None \<and> quiet a) w2 w1" using writeStatus_no_write [OF x(1)] by simp
      then have "wrote w2 w1 = []" "adds (only {Promotion, Rolling}) w2 w1" "adds (\<lambda>_. True) w2 w1"
        by - (intro wrote_none, erule adds_mono, simp, erule adds_mono, simp add: only_def, erule adds_any)
      then show ?thesis using p x wrote_trans [OF p(3), of "\<lambda>_. True" w1] by (auto intro: adds_trans)
    qed
  qed
qed

abbreviation silent :: "Action \<Rightarrow> bool" where
  "silent a \<equiv> node_write a = None \<and> quiet a"

lemma adds_silent:
  assumes "adds silent w w'"
  shows "adds quiet w w'" "wrote w w' = []" "adds (only K) w w'"
proof -
  show "adds quiet w w'" using assms by (rule adds_mono) simp
  then show "adds (only K) w w'" by (rule adds_quiet_only)
  have "adds (\<lambda>a. node_write a = None) w w'" using assms by (rule adds_mono) simp
  then show "wrote w w' = []" by (rule wrote_none)
qed

lemma downgrade_policy_result:
  assumes "applyEngineDowngradePolicy cur w = ((blocked, reason), w1)"
  shows "adds silent w w1 \<and> Spec (cluster w1) = Spec (cluster w) \<and> Name (cluster w1) = Name (cluster w) \<and>
     Namespace (cluster w1) = Namespace (cluster w) \<and> Annotations (cluster w1) = Annotations (cluster w) \<and>
     blocked = (classifyEngineChange cur (Image (Spec (cluster w))) = engineChangeFeatureLineDowngrade) \<and>
     conditionTrue (cluster w1) CondDegraded = (conditionTrue (cluster w) CondDegraded \<or> blocked)"
proof (cases "classifyEngineChange cur (Image (Spec (cluster w))) = engineChangeFeatureLineDowngrade")
  case True
  with assms show ?thesis unfolding applyEngineDowngradePolicy_def Let_def
    by (simp only: simp_thms if_True prod.inject) (elim conjE, clarify, simp add: adds_event)
next
  case False
  have "\<exists>w2. w1 = w2 \<and> blocked = False \<and> adds silent w w2 \<and> cluster w2 = cluster w"
    using assms False unfolding applyEngineDowngradePolicy_def Let_def
    by (simp only: if_False prod.inject) (elim conjE, clarify, simp add: adds_event)
  with False show ?thesis by auto
qed

lemma smart_update_result:
  assumes "reconcileSmartUpdate E st w = ((ok, reason), w1)"
  shows "adds silent w w1 \<and> Spec (cluster w1) = Spec (cluster w) \<and> Name (cluster w1) = Name (cluster w) \<and>
     Namespace (cluster w1) = Namespace (cluster w) \<and> Annotations (cluster w1) = Annotations (cluster w) \<and>
     (conditionTrue (cluster w) CondDegraded \<longrightarrow> conditionTrue (cluster w1) CondDegraded)"
proof (cases "\<exists>cur. pendingEngineChange E w = Inr (cur, True)")
  case False
  with assms have "w1 = w" by (auto simp: reconcileSmartUpdate_def split: sum.splits prod.splits if_splits)
  then show ?thesis by simp
next
  case True
  then obtain cur b r where c: "pendingEngineChange E w = Inr (cur, True)"
    "applyEngineDowngradePolicy cur w = ((b, r), w1)"
    using assms by (auto simp: reconcileSmartUpdate_def split: prod.splits if_splits)
  from downgrade_policy_result [OF c(2)] show ?thesis by simp
qed

text \<open>The reasons to hold an image change.\<close>

definition held :: "env \<Rightarrow> ClusterState option \<Rightarrow> string \<Rightarrow> Cluster \<Rightarrow> bool" where
  "held E st cur c \<longleftrightarrow>
     classifyEngineChange cur (Image (Spec c)) = engineChangeFeatureLineDowngrade \<or> conditionTrue c CondDegraded \<or>
     (case st of None \<Rightarrow> True
      | Some s \<Rightarrow> GetUnassignedSlots s \<noteq> [] \<or> FailedPrimaries s \<noteq> [] \<or> \<not> IsReplicationInSync s) \<or>
     (\<exists>l. (\<lambda>tr. getLease E tr (LeaseName (Name c))) = (\<lambda>_. Inr l) \<and>
          range (\<lambda>tr. fst (leaseHeldByOther l '''' (wallNow E tr))) = {True})"

lemma held_blocks:
  assumes "pendingEngineChange E w = Inr (cur, True)" "held E st cur (cluster w)"
    and s: "reconcileSmartUpdate E st w = ((ok, reason), w1)"
  shows "\<not> ok"
proof -
  obtain b r w2 where d: "applyEngineDowngradePolicy cur w = ((b, r), w2)" by (metis surj_pair)
  note dr = downgrade_policy_result [OF d]
  have run: "backupRunning E w2" if "(\<lambda>tr. getLease E tr (LeaseName (Name (cluster w)))) = (\<lambda>_. Inr l)"
    "range (\<lambda>tr. fst (leaseHeldByOther l '''' (wallNow E tr))) = {True}" for l
  proof -
    have "getLease E (trace w2) (LeaseName (Name (cluster w))) = Inr l" using that(1) by metis
    moreover have "fst (leaseHeldByOther l '''' (wallNow E (trace w2)))" using that(2) by blast
    ultimately show ?thesis using dr by (simp add: backupRunning_def IsBackupRunning_def)
  qed
  show ?thesis
  proof (cases b)
    case False
    then have "\<not> fst (smartUpdateAllowed E st w2)"
      using assms(2) dr run unfolding held_def by (auto simp: smartUpdateAllowed_def split: option.splits)
    with s assms(1) d False show ?thesis by (auto simp: reconcileSmartUpdate_def split: prod.splits if_splits)
  qed (use s assms(1) d in \<open>auto simp: reconcileSmartUpdate_def\<close>)
qed

lemma rollNextNode_held:
  assumes "pendingEngineChange E w = Inr (cur, True)" "held E (getValkeyClusterState E nodes w) cur (cluster w)"
    and "rollNextNode E nodes h w = (r, w1)"
  shows "adds silent w w1 \<and> Spec (cluster w1) = Spec (cluster w) \<and>
     (conditionTrue (cluster w) CondDegraded \<longrightarrow> conditionTrue (cluster w1) CondDegraded)"
proof (cases "shouldGateEngineRoll (cluster w) \<or> midRollNode (cluster w) nodes h \<noteq> None")
  case True
  with assms(3) show ?thesis by (auto simp: rollNextNode_def cond_defs split: if_splits)
next
  case False
  obtain ok reason w2 where s: "reconcileSmartUpdate E (getValkeyClusterState E nodes w) w = ((ok, reason), w2)" by (metis surj_pair)
  have "\<not> ok" using held_blocks [OF assms(1,2) s] .
  let ?w = "setCondition CondProgressing ConditionTrue ''Reconciling'' (''engine roll deferred: '' @ reason) w2"
  obtain x where "writeStatus E ?w = (x, w1)"
    using assms(3) False s \<open>\<not> ok\<close> unfolding rollNextNode_def Let_def by (auto split: prod.splits)
  from writeStatus_no_write [OF this] smart_update_result [OF s] show ?thesis
    by (auto simp: cond_defs intro: adds_trans)
qed

text \<open>An engine change is held back while anything is wrong: as long as some node runs another image
  than the spec asks for, a pass stamps no node and starts no failover if the change goes to an older
  release line, the cluster is degraded, the scrape failed, a slot is unassigned, a primary has failed, a
  replica is out of sync, or a backup holds the lock.\<close>

theorem engine_roll_held:
  assumes "pendingEngineChange E w = Inr (cur, True)" "held E (getValkeyClusterState E nodes w) cur (cluster w)"
  shows "adds quiet w (snd (rollNextNode E nodes h w)) \<and> wrote w (snd (rollNextNode E nodes h w)) = []"
  using rollNextNode_held [OF assms, of h] adds_silent by (metis surjective_pairing)

theorem engine_roll_held_witness:
  "let E = calm \<lparr> listNodes := (\<lambda>_. Inr [sample_vnode ''c-0-0'' 0 0 '''']) \<rparr>;
       w = sample_world \<lparr> cluster := sample_cluster \<lparr> Spec := sample_spec \<lparr> Image := ''percona/valkey:8.0.0'' \<rparr> \<rparr> \<rparr>
   in wrote w (snd (rollNextNode E [sample_vnode ''c-0-0'' 0 0 ''''] ''h'' w)) = []"
proof -
  define E where "E = calm \<lparr> listNodes := (\<lambda>_. Inr [sample_vnode ''c-0-0'' 0 0 '''']) \<rparr>"
  define w where "w = sample_world \<lparr> cluster := sample_cluster \<lparr> Spec := sample_spec \<lparr> Image := ''percona/valkey:8.0.0'' \<rparr> \<rparr> \<rparr>"
  have p: "pendingEngineChange E w = Inr (''percona/valkey:9.1.0'', True)"
    by (simp add: pendingEngineChange_def E_def calm_def w_def sample_vnode_def)
  have "getValkeyClusterState E [sample_vnode ''c-0-0'' 0 0 ''''] w = None"
    by (simp add: getValkeyClusterState_def sample_vnode_def map_filter_simps)
  then have "held E (getValkeyClusterState E [sample_vnode ''c-0-0'' 0 0 ''''] w) ''percona/valkey:9.1.0'' (cluster w)"
    by (simp add: held_def)
  from engine_roll_held [OF p this, of "''h''"] show ?thesis unfolding Let_def E_def w_def by (rule conjunct2)
qed

subsection \<open>One node per pass\<close>

lemma buildValkeyNodeSpec_simps [simp]:
  "vn_Name (buildValkeyNodeSpec c key h) = NodeName (Name c) (nk_shard key) (nk_node key)"
  "ns_Image (vn_Spec (buildValkeyNodeSpec c key h)) = Image (Spec c)"
  "ns_ServerConfigHash (vn_Spec (buildValkeyNodeSpec c key h)) = h"
  by (simp_all add: buildValkeyNodeSpec_def stampTLSHash_def Let_def split: prod.split)

lemma createValkeyNode_result:
  assumes "createValkeyNode E key h w = (r, w1)"
  shows "\<exists>v. wrote w w1 = [v] \<and> vn_Name v = NodeName (Name (cluster w)) (nk_shard key) (nk_node key) \<and>
     vn_Spec v = vn_Spec (buildValkeyNodeSpec (cluster w) key h) \<and> adds (only {Creating}) w w1 \<and> cluster w1 = cluster w \<and> r \<noteq> Inl Panic \<and>
     vn_Annotations v = Map.empty"
proof -
  define d where "d = buildValkeyNodeSpec (cluster w) key h"
  define name where "name = NodeName (Name (cluster w)) (nk_shard key) (nk_node key)"
  define v where "v = \<lparr> vn_Name = name, vn_Labels = vn_Labels d, vn_Annotations = Map.empty, vn_Generation = 0,
                   vn_Deleting = False, vn_Spec = vn_Spec d, vn_PodIP = '''', vn_Ready = False, vn_ObservedGeneration = 0 \<rparr>"
  define e where "e = api E (trace w) (CreateNode v)"
  define w0 where "w0 = act (Write (CreateNode v) e) w"
  have a: "apiWrite E (CreateNode v) w = (e, w0)" by (simp only: apiWrite_def Let_def e_def w0_def)
  have "r \<noteq> Inl Panic \<and> (w1 = w0 \<or> (\<exists>res k m. w1 = onCreated res k m w0))"
    using assms
    unfolding createValkeyNode_def Let_def d_def [symmetric] name_def [symmetric] v_def [symmetric] CreateOrUpdate_def a prod.case
    by (cases e) auto
  moreover have w0: "wrote w w0 = [v]" "adds (only {Creating}) w w0" "cluster w0 = cluster w"
    by (simp_all add: w0_def wrote_def map_filter_simps only_kinds)
  moreover have "wrote w (onCreated res k m w0) = [v]" "adds (only {Creating}) w (onCreated res k m w0)" for res k m
    using w0(2) by (simp_all add: onCreated_def w0_def event_def wrote_def map_filter_simps adds_act_right)
  ultimately show ?thesis
    by (elim conjE disjE exE) (auto simp: v_def name_def d_def intro!: exI [of _ v])
qed

definition replicasFirst :: "Cluster \<Rightarrow> ValkeyNode list \<Rightarrow> ClusterState option \<Rightarrow> string \<Rightarrow> ValkeyNode \<Rightarrow> bool" where
  "replicasFirst c nodes st h n \<longleftrightarrow>
     (isLivePrimaryNode st n \<longrightarrow> (\<forall>m \<in> set nodes. nodeNeedsRoll m c h \<longrightarrow> isLivePrimaryNode st m))"

lemma nextRollCandidate_loop_Some:
  assumes "nextRollCandidate_loop c st h ns p = Some n"
  shows "p = Some n \<and> (\<forall>m \<in> set ns. nodeNeedsRoll m c h \<longrightarrow> isLivePrimaryNode st m) \<or>
         n \<in> set ns \<and> nodeNeedsRoll n c h \<and>
         (isLivePrimaryNode st n \<longrightarrow> (\<forall>m \<in> set ns. nodeNeedsRoll m c h \<longrightarrow> isLivePrimaryNode st m))"
  using assms
proof (induction ns arbitrary: p)
  case (Cons m ns)
  show ?case
  proof (cases "nodeNeedsRoll m c h \<and> \<not> isLivePrimaryNode st m")
    case True
    with Cons.prems show ?thesis by simp
  next
    case False
    then obtain p' where p: "nextRollCandidate_loop c st h ns p' = Some n" "p' = p \<or> p = None \<and> p' = Some m \<and> nodeNeedsRoll m c h"
      using Cons.prems by (auto split: if_splits)
    from Cons.IH [OF p(1)] p(2) False show ?thesis by auto
  qed
qed simp

lemma nextRollCandidate_Some:
  "nextRollCandidate c nodes st h = Some n \<Longrightarrow> n \<in> set nodes \<and> nodeNeedsRoll n c h \<and> replicasFirst c nodes st h n"
  using nextRollCandidate_loop_Some [of c st h "orderedByName nodes" None n]
  by (auto simp: nextRollCandidate_def orderedByName_def replicasFirst_def)

lemma nodeNeedsRoll_spec: "Spec c = Spec c' \<Longrightarrow> nodeNeedsRoll n c h = nodeNeedsRoll n c' h"
  by (simp add: nodeNeedsRoll_def)

lemma nextRollCandidate_spec:
  assumes "Spec c = Spec c'" shows "nextRollCandidate c nodes st h = nextRollCandidate c' nodes st h"
proof -
  have "nextRollCandidate_loop c st h ns p = nextRollCandidate_loop c' st h ns p" for ns p
    using nodeNeedsRoll_spec [OF assms] by (induction ns arbitrary: p) auto
  then show ?thesis by (simp add: nextRollCandidate_def)
qed

lemma stamps_shift:
  assumes "stamps E n st h w1 w2 v" "adds silent w w1" "adds P w1 w2"
    and "Spec (cluster w1) = Spec (cluster w)" "Name (cluster w1) = Name (cluster w)"
    "Namespace (cluster w1) = Namespace (cluster w)" "Annotations (cluster w1) = Annotations (cluster w)"
  shows "stamps E n st h w w2 v"
proof -
  have b: "buildValkeyNodeSpec (cluster w1) k h = buildValkeyNodeSpec (cluster w) k h" for k
    using assms by (intro buildValkeyNodeSpec_cong) auto
  have "set (added w1 w2) \<subseteq> set (added w w2)" using added_trans [OF assms(2,3)] by auto
  then have p: "promoted E s sh (added w1 w2) \<Longrightarrow> promoted E s sh (added w w2)" for s sh
    unfolding promoted_def by blast
  have r: "adds (only {Rolling}) w1 w2 \<Longrightarrow> adds (only {Rolling}) w w2"
    using adds_silent(3) [OF assms(2)] by (rule adds_trans)
  show ?thesis using assms(1) p r unfolding stamps_def b by (auto split: option.splits if_splits)
qed

lemma rollNextNode_result:
  assumes "rollNextNode E nodes h w = (r, w1)"
  shows "adds (only {Promotion, Rolling}) w w1 \<and> r \<noteq> Inl Panic \<and>
    (wrote w w1 = [] \<or>
     (\<exists>v n. wrote w w1 = [v] \<and> n \<in> set nodes \<and> nodeNeedsRoll n (cluster w) h \<and> midRollNode (cluster w) nodes h = None \<and>
        replicasFirst (cluster w) nodes (getValkeyClusterState E nodes w) h n \<and> stamps E n (getValkeyClusterState E nodes w) h w w1 v))"
proof (cases "shouldGateEngineRoll (cluster w) \<or> midRollNode (cluster w) nodes h \<noteq> None")
  case True
  with assms show ?thesis by (auto simp: rollNextNode_def wrote_def added_def map_filter_simps split: if_splits)
next
  case False
  define st where "st = getValkeyClusterState E nodes w"
  obtain ok reason w2 where s: "reconcileSmartUpdate E st w = ((ok, reason), w2)" by (metis surj_pair)
  note sr = smart_update_result [OF s]
  have s2: "adds silent w w2" using sr by simp
  show ?thesis
  proof (cases "ok \<and> nextRollCandidate (cluster w2) nodes st h \<noteq> None")
    case True
    then obtain n where n: "nextRollCandidate (cluster w2) nodes st h = Some n" by auto
    have roll: "rollNode E n st h w2 = (r, w1)"
      using assms False s True n unfolding rollNextNode_def st_def [symmetric] Let_def by auto
    note rr = rollNode_result [OF roll]
    have "nextRollCandidate (cluster w) nodes st h = Some n" using n nextRollCandidate_spec sr by metis
    note nr = nextRollCandidate_Some [OF this]
    have wr: "wrote w w1 = wrote w2 w1"
      using wrote_trans [OF s2, of "only {Promotion, Rolling}" w1] rr adds_silent(2) [OF s2] by simp
    have "adds (only {Promotion, Rolling}) w w1" using adds_silent(3) [OF s2] rr adds_trans by blast
    moreover have "stamps E n st h w2 w1 v \<Longrightarrow> stamps E n st h w w1 v" for v
      using stamps_shift [OF _ s2, of E n st h w1 v "only {Promotion, Rolling}"] rr sr by blast
    ultimately show ?thesis using rr wr nr False unfolding st_def [symmetric] by metis
  next
    case no: False
    have "adds silent w w1 \<and> r \<noteq> Inl Panic"
    proof (cases ok)
      case True
      with no assms False s s2 show ?thesis unfolding rollNextNode_def st_def [symmetric] Let_def by auto
    next
      case f: False
      let ?w = "setCondition CondProgressing ConditionTrue ''Reconciling'' (''engine roll deferred: '' @ reason) w2"
      obtain x where "writeStatus E ?w = (x, w1)" "r = written x"
        using assms False s f unfolding rollNextNode_def st_def [symmetric] Let_def by (auto split: prod.splits)
      with writeStatus_no_write [OF this(1)] s2 show ?thesis by (auto intro: adds_trans)
    qed
    then show ?thesis using adds_silent by blast
  qed
qed

lemma indexNodesByName_dom: "indexNodesByName nodes k = None \<longleftrightarrow> k \<notin> vn_Name ` set nodes"
proof -
  have "foldl (\<lambda>m n. m(vn_Name n \<mapsto> n)) f ns k = None \<longleftrightarrow> f k = None \<and> k \<notin> vn_Name ` set ns"
    for f :: "string \<rightharpoonup> ValkeyNode" and ns
    by (induction ns arbitrary: f) auto
  then show ?thesis by (simp add: indexNodesByName_def)
qed

lemma missingNode_Some: "missingNode c nodes keys = Some key \<Longrightarrow> key \<in> set keys \<and> keyName c key \<notin> vn_Name ` set nodes"
  by (auto simp: missingNode_def find_Some_iff indexNodesByName_dom)

lemma missingNode_None: "missingNode c nodes keys = None \<Longrightarrow> keyName c ` set keys \<subseteq> vn_Name ` set nodes"
  by (auto simp: missingNode_def find_None_iff indexNodesByName_dom)

lemma reconcileValkeyNodes_cases:
  assumes "reconcileValkeyNodes E nodes h w = (r, w1)"
  obtains keys key r1 where "desiredNodes (cluster w) = Some keys" "missingNode (cluster w) nodes keys = Some key"
      "createValkeyNode E key h w = (r1, w1)" "r \<noteq> Inr False"
    | keys r1 where "desiredNodes (cluster w) = Some keys" "missingNode (cluster w) nodes keys = None"
      "rollNextNode E nodes h w = (r1, w1)" "r \<noteq> Inr False"
    | "w1 = w" "r \<noteq> Inr False"
    | keys where "w1 = w" "r = Inr False" "desiredNodes (cluster w) = Some keys" "missingNode (cluster w) nodes keys = None"
      "\<not> anyRollPending (cluster w) nodes h" "\<forall>key \<in> set keys. \<exists>n. indexNodesByName nodes (keyName (cluster w) key) = Some n \<and> nodeConverged n (cluster w) h"
proof (cases "desiredNodes (cluster w)")
  case None
  with assms have "w1 = w" "r \<noteq> Inr False" by (auto simp: reconcileValkeyNodes_def Let_def)
  then show thesis by (rule that(3))
next
  case (Some keys)
  show thesis
  proof (cases "missingNode (cluster w) nodes keys")
    case key: (Some key)
    obtain r1 w2 where c: "createValkeyNode E key h w = (r1, w2)" by fastforce
    with assms Some key have "w2 = w1" "r \<noteq> Inr False" by (auto simp: reconcileValkeyNodes_def Let_def split: sum.splits)
    with that(1) Some key c show thesis by blast
  next
    case all: None
    show thesis
    proof (cases "anyRollPending (cluster w) nodes h")
      case True
      obtain r1 w2 where c: "rollNextNode E nodes h w = (r1, w2)" by fastforce
      with assms Some all True have "w2 = w1" "r \<noteq> Inr False" by (auto simp: reconcileValkeyNodes_def Let_def split: sum.splits)
      with that(2) Some all c show thesis by blast
    next
      case False
      define stale where "stale = list_ex (\<lambda>key. case indexNodesByName nodes (keyName (cluster w) key) of
         Some current \<Rightarrow> \<not> nodeConverged current (cluster w) h | None \<Rightarrow> False) keys"
      have run: "w1 = w" "r = Inr stale" using assms Some all False
        by (auto simp: reconcileValkeyNodes_def Let_def stale_def [symmetric] split: if_splits)
      show thesis
      proof (cases stale)
        case True
        with run that(3) show thesis by simp
      next
        case f: False
        have "\<exists>n. indexNodesByName nodes (keyName (cluster w) key) = Some n" if "key \<in> set keys" for key
          using all that by (auto simp: missingNode_def find_None_iff)
        with f have "\<forall>key \<in> set keys. \<exists>n. indexNodesByName nodes (keyName (cluster w) key) = Some n \<and> nodeConverged n (cluster w) h"
          by (fastforce simp: stale_def list_ex_iff split: option.splits)
        with that(4) run f Some all False show thesis by simp
      qed
    qed
  qed
qed

lemma stamps_needs_no_roll: "stamps E n st h w w1 v \<Longrightarrow> \<not> nodeNeedsRoll v (cluster w) h \<and> vn_Name v = vn_Name n"
  by (simp add: stamps_def nodeNeedsRoll_def)

text \<open>C37: Nodes are created and rolled one at a time.  A pass writes at most one node.  It creates one only
  if a desired node is missing, and under its name.  It stamps one only if all desired nodes exist and no
  stamped node is still settling; the node stamped is one that runs an outdated image or configuration, it
  then asks for the current ones, replicas go before primaries, and a live primary is stamped only after
  the engine accepted a graceful failover to its most advanced synced replica and this replica was seen in
  the primary role.\<close>

theorem roll_one_node:
  "let w' = snd (reconcileValkeyNodes E nodes h w); c = cluster w; st = getValkeyClusterState E nodes w in
   wrote w w' = [] \<or>
   (\<exists>v keys key. wrote w w' = [v] \<and> desiredNodes c = Some keys \<and> key \<in> set keys \<and>
      vn_Name v = keyName c key \<and> vn_Name v \<notin> vn_Name ` set nodes) \<or>
   (\<exists>v n keys. wrote w w' = [v] \<and> desiredNodes c = Some keys \<and>
      keyName c ` set keys \<subseteq> vn_Name ` set nodes \<and>
      midRollNode c nodes h = None \<and> n \<in> set nodes \<and> nodeNeedsRoll n c h \<and> replicasFirst c nodes st h n \<and>
      vn_Name v = vn_Name n \<and> \<not> nodeNeedsRoll v c h \<and> stamps E n st h w w' v)"
proof -
  obtain r w1 where run: "reconcileValkeyNodes E nodes h w = (r, w1)" by fastforce
  show ?thesis unfolding run Let_def snd_conv
  proof (cases rule: reconcileValkeyNodes_cases [OF run])
    case (1 keys key r1)
    from createValkeyNode_result [OF 1(3)] missingNode_Some [OF 1(2)] 1(1) show
      "wrote w w1 = [] \<or>
       (\<exists>v keys key. wrote w w1 = [v] \<and> desiredNodes (cluster w) = Some keys \<and> key \<in> set keys \<and>
          vn_Name v = keyName (cluster w) key \<and> vn_Name v \<notin> vn_Name ` set nodes) \<or> X" for X
      by (auto simp: keyName_def)
  next
    case (2 keys r1)
    with rollNextNode_result [OF 2(3)] missingNode_None [OF 2(2)] stamps_needs_no_roll show
      "wrote w w1 = [] \<or> X \<or>
       (\<exists>v n keys. wrote w w1 = [v] \<and> desiredNodes (cluster w) = Some keys \<and> keyName (cluster w) ` set keys \<subseteq> vn_Name ` set nodes \<and>
          midRollNode (cluster w) nodes h = None \<and> n \<in> set nodes \<and> nodeNeedsRoll n (cluster w) h \<and>
          replicasFirst (cluster w) nodes (getValkeyClusterState E nodes w) h n \<and> vn_Name v = vn_Name n \<and>
          \<not> nodeNeedsRoll v (cluster w) h \<and> stamps E n (getValkeyClusterState E nodes w) h w w1 v)" for X
      by metis
  qed simp_all
qed

interpretation nodes_step: phase "reconcileValkeyNodes E nodes h" "\<lambda>r. r = Inr False" "{Creating, Promotion, Rolling}"
proof
  fix w
  obtain r w1 where run: "reconcileValkeyNodes E nodes h w = (r, w1)" by fastforce
  show "adds (only {Creating, Promotion, Rolling}) w (snd (reconcileValkeyNodes E nodes h w))"
    unfolding run snd_conv
    by (cases rule: reconcileValkeyNodes_cases [OF run])
       (use createValkeyNode_result rollNextNode_result in \<open>fastforce intro: adds_only_mono\<close>)+
  show "adds quiet w (snd (reconcileValkeyNodes E nodes h w))" if "fst (reconcileValkeyNodes E nodes h w) = Inr False"
    using that unfolding run fst_conv snd_conv
    by (cases rule: reconcileValkeyNodes_cases [OF run]) simp_all
qed

lemma indexNodesByName_in:
  assumes "indexNodesByName nodes k = Some n" shows "n \<in> set nodes \<and> vn_Name n = k"
proof -
  have "foldl (\<lambda>m n. m(vn_Name n \<mapsto> n)) f ns k = Some n \<Longrightarrow> f k = Some n \<or> n \<in> set ns \<and> vn_Name n = k"
    for f :: "string \<rightharpoonup> ValkeyNode" and ns
    by (induction ns arbitrary: f) (fastforce split: if_splits)+
  from this [of Map.empty nodes] assms show ?thesis by (simp add: indexNodesByName_def)
qed

lemma desiredNodes_set:
  assumes "0 \<le> Shards_want (Spec c)" "0 \<le> Replicas (Spec c)"
  shows "\<exists>keys. desiredNodes c = Some keys \<and>
    set keys = {k. 0 \<le> nk_shard k \<and> nk_shard k < Shards_want (Spec c) \<and> 0 \<le> nk_node k \<and> nk_node k \<le> Replicas (Spec c)}"
proof -
  have "\<not> Shards_want (Spec c) * (1 + Replicas (Spec c)) < 0" using assms by (simp add: not_less)
  then obtain keys where k: "desiredNodes c = Some keys"
    "keys = concat (map (\<lambda>shard. map (\<lambda>node. \<lparr> nk_shard = shard, nk_node = node \<rparr>) [1..Replicas (Spec c)] @
                                         [\<lparr> nk_shard = shard, nk_node = 0 \<rparr>]) [0..Shards_want (Spec c) - 1])"
    by (simp add: desiredNodes_def Let_def)
  have "key \<in> set keys \<longleftrightarrow> 0 \<le> nk_shard key \<and> nk_shard key < Shards_want (Spec c) \<and> 0 \<le> nk_node key \<and> nk_node key \<le> Replicas (Spec c)" for key
    using assms unfolding k(2) by (cases key) force
  then show ?thesis using k(1) by auto
qed

text \<open>A pass over the nodes reports nothing left to do only on a converged cluster: all nodes of all
  shards exist, one for every shard index and node index, each runs the current image and configuration,
  is ready, and its status is up to date.\<close>

theorem nodes_converged:
  assumes "reconcileValkeyNodes E nodes h w = (Inr False, w1)"
    and "0 \<le> Shards_want (Spec (cluster w))" "0 \<le> Replicas (Spec (cluster w))"
    and "0 \<le> s" "s < Shards_want (Spec (cluster w))" "0 \<le> i" "i \<le> Replicas (Spec (cluster w))"
  shows "\<exists>n \<in> set nodes. vn_Name n = NodeName (Name (cluster w)) s i \<and> ns_Image (vn_Spec n) = Image (Spec (cluster w)) \<and>
           ns_ServerConfigHash (vn_Spec n) = h \<and> vn_Ready n \<and> vn_ObservedGeneration n = vn_Generation n"
proof (cases rule: reconcileValkeyNodes_cases [OF assms(1)])
  case (4 keys)
  from desiredNodes_set [OF assms(2,3)] 4(3) assms(4-) have "\<lparr> nk_shard = s, nk_node = i \<rparr> \<in> set keys" by auto
  with 4(6) obtain n where n: "indexNodesByName nodes (keyName (cluster w) \<lparr> nk_shard = s, nk_node = i \<rparr>) = Some n"
    "nodeConverged n (cluster w) h" by blast
  then show ?thesis using indexNodesByName_in [OF n(1)]
    by (auto simp: nodeConverged_def keyName_def split: if_splits)
qed auto

theorem nodes_converged_witness:
  "\<exists>n \<in> set [sample_vnode ''c-0-0'' 0 0 ''10.0.0.1'']. vn_Name n = NodeName ''c'' 0 0 \<and> ns_Image (vn_Spec n) = ''percona/valkey:9.1.0'' \<and>
     ns_ServerConfigHash (vn_Spec n) = ''h'' \<and> vn_Ready n \<and> vn_ObservedGeneration n = vn_Generation n"
proof -
  define w where "w = sample_world \<lparr> cluster := sample_cluster \<lparr> Spec := sample_spec \<lparr> Shards_want := 1, Replicas := 0 \<rparr> \<rparr> \<rparr>"
  have n: "NodeName ''c'' 0 0 = ''c-0-0''" by code_simp
  have r: "reconcileValkeyNodes calm [sample_vnode ''c-0-0'' 0 0 ''10.0.0.1''] ''h'' w = (Inr False, w)"
    by (simp add: reconcileValkeyNodes_def desiredNodes_def missingNode_def keyName_def indexNodesByName_def anyRollPending_def
        nodeNeedsRoll_def nodeConverged_def w_def sample_world_def sample_cluster_def sample_spec_def sample_vnode_def n Let_def)
  from nodes_converged [OF r, of 0 0] show ?thesis
    by (simp add: w_def sample_world_def sample_cluster_def sample_spec_def)
qed


end
