(* ===== verification/Network.thy ===== *)
theory Network
  imports Node_Roll
begin

text \<open>
  The network-facing objects of a cluster: \<^verbatim>\<open>service.go\<close>, \<^verbatim>\<open>expose.go\<close>, \<^verbatim>\<open>expose_announce.go\<close>, \<^verbatim>\<open>pdb.go\<close> and
  \<^verbatim>\<open>networkpolicy.go\<close> of \<^verbatim>\<open>src/pkg/controller/perconavalkeycluster\<close>.

  An \<open>Apply\<close> write stands for one call of \<^verbatim>\<open>controllerutil.CreateOrUpdate\<close>; the object it carries is what
  the mutation makes of the object read, a fresh one where none exists.  Where the read itself fails, the
  whole call fails.  Owner references are not modelled.
\<close>

subsection \<open>Services\<close>

definition currentService :: "env \<Rightarrow> string \<Rightarrow> world \<Rightarrow> Service" where
  "currentService E name w =
     (case getService E (trace w) name of
        Inr svc \<Rightarrow> svc
      | Inl _ \<Rightarrow> \<lparr> svc_Name = name, svc_Labels = Map.empty, svc_Annotations = Map.empty, svc_Type = ClusterIP, svc_ClusterIP = '''',
                  svc_PublishNotReady = False, svc_Selector = Map.empty, svc_Ports = [], svc_SourceRanges = [], svc_Ingress = [] \<rparr>)"

definition externalServicePorts :: "ServicePort list" where
  "externalServicePorts =
     [\<lparr> sp_Name = ''valkey'', sp_Port = ClientPort, sp_TargetPort = ClientPort, sp_NodePort = 0 \<rparr>,
      \<lparr> sp_Name = ''cluster-bus'', sp_Port = BusPortNumber, sp_TargetPort = BusPortNumber, sp_NodePort = 0 \<rparr>]"

definition upsertService :: "env \<Rightarrow> world \<Rightarrow> (go_error, unit) result \<times> world" where
  "upsertService E w =
     (let c = cluster w; name = HeadlessServiceName (Name c); old = currentService E name w;
          svc = old \<lparr> svc_Name := name, svc_Labels := Labels (Name c) ComponentValkey, svc_Type := ClusterIP,
                      svc_ClusterIP := (if svc_ClusterIP old = '''' then ''None'' else svc_ClusterIP old),
                      svc_PublishNotReady := True, svc_Selector := ClusterSelector (Name c), svc_Ports := externalServicePorts \<rparr>
      in case CreateOrUpdate E ''*v1.Service'' name (ApplyService svc) w of
           (Inl e, w1) \<Rightarrow> (Inl e, w1)
         | (Inr res, w1) \<Rightarrow> (Inr (), onCreated res ''ServiceCreated'' (''Created headless Service '' @ name) w1))"

definition clientServiceSuffix :: string where "clientServiceSuffix = ''-client''"
definition exposeAccessLabel :: string where "exposeAccessLabel = LabelComponent @ ''-access''"
definition exposeAccessValue :: string where "exposeAccessValue = ''external''"

definition clientServiceName :: "string \<Rightarrow> string" where
  "clientServiceName c = ResourcePrefix @ c @ clientServiceSuffix"

definition exposeServiceLabels :: "string \<Rightarrow> labels" where
  "exposeServiceLabels c = (Labels c ComponentValkey)(exposeAccessLabel \<mapsto> exposeAccessValue)"

definition mergeExposeAnnotations :: "labels \<Rightarrow> labels \<Rightarrow> labels" where
  "mergeExposeAnnotations existing desired = existing ++ desired"

fun ServiceType_String :: "ServiceType \<Rightarrow> string" where
  "ServiceType_String ClusterIP = ''ClusterIP''"
| "ServiceType_String NodePort = ''NodePort''"
| "ServiceType_String LoadBalancer = ''LoadBalancer''"

definition upsertExternalService ::
  "env \<Rightarrow> string \<Rightarrow> labels \<Rightarrow> ExposeSpec \<Rightarrow> world \<Rightarrow> (go_error, unit) result \<times> world" where
  "upsertExternalService E name selector expose w =
     (let old = currentService E name w;
          svc = old \<lparr> svc_Name := name, svc_Labels := exposeServiceLabels (Name (cluster w)),
                      svc_Annotations := mergeExposeAnnotations (svc_Annotations old) (exp_Annotations expose),
                      svc_Type := exp_Type expose, svc_Selector := selector, svc_Ports := externalServicePorts,
                      svc_SourceRanges := (if exp_Type expose = LoadBalancer then exp_SourceRanges expose else []) \<rparr>
      in case CreateOrUpdate E ''*v1.Service'' name (ApplyService svc) w of
           (Inl e, w1) \<Rightarrow> (Inl e, w1)
         | (Inr res, w1) \<Rightarrow> (Inr (), onCreated res ''ExposeServiceCreated''
                              (''Created external Service '' @ name @ '' ('' @ ServiceType_String (exp_Type expose) @ '')'') w1))"

definition prune_body :: "env \<Rightarrow> string set \<Rightarrow> Service \<Rightarrow> unit \<Rightarrow> world \<Rightarrow> (go_error, unit) result \<times> world" where
  "prune_body E keep svc u w =
     (if svc_Name svc \<in> keep then (Inr (), w)
      else case apiWrite E (DeleteService (svc_Name svc)) w of
             (None, w1) \<Rightarrow> (Inr (), w1)
           | (Some e, w1) \<Rightarrow> if apierrorsIsNotFound (Some e) then (Inr (), w1) else (Inl (Err (api_text e)), w1))"

definition pruneExternalServices :: "env \<Rightarrow> string set \<Rightarrow> world \<Rightarrow> (go_error, unit) result \<times> world" where
  "pruneExternalServices E keep w =
     (case listServices E (trace w) [LabelCluster \<mapsto> Name (cluster w), exposeAccessLabel \<mapsto> exposeAccessValue] of
        Inl e \<Rightarrow> (Inl (Err (api_text e)), w)
      | Inr svcs \<Rightarrow> for_loop (prune_body E keep) svcs () w)"

definition perPodPodSelector :: "string \<Rightarrow> nodeKey \<Rightarrow> labels" where
  "perPodPodSelector c key =
     [LabelCluster \<mapsto> c, LabelShardIndex \<mapsto> Itoa (nk_shard key), LabelNodeIndex \<mapsto> Itoa (nk_node key)]"

definition reconcileAggregateService :: "env \<Rightarrow> ExposeSpec \<Rightarrow> world \<Rightarrow> (go_error, unit) result \<times> world" where
  "reconcileAggregateService E expose w =
     (let name = clientServiceName (Name (cluster w))
      in case upsertExternalService E name (ClusterSelector (Name (cluster w))) expose w of
           (Inl e, w1) \<Rightarrow> (Inl e, w1)
         | (Inr _, w1) \<Rightarrow> pruneExternalServices E {name} w1)"

definition perPod_body :: "env \<Rightarrow> ExposeSpec \<Rightarrow> nodeKey \<Rightarrow> unit \<Rightarrow> world \<Rightarrow> (go_error, unit) result \<times> world" where
  "perPod_body E expose key u w =
     upsertExternalService E (perPodServiceName (keyName (cluster w) key)) (perPodPodSelector (Name (cluster w)) key) expose w"

definition reconcilePerPodServices :: "env \<Rightarrow> ExposeSpec \<Rightarrow> world \<Rightarrow> (go_error, unit) result \<times> world" where
  "reconcilePerPodServices E expose w =
     (case desiredNodes (cluster w) of
        None \<Rightarrow> (Inl Panic, w)
      | Some keys \<Rightarrow>
          (case for_loop (perPod_body E expose) keys () w of
             (Inl e, w1) \<Rightarrow> (Inl e, w1)
           | (Inr _, w1) \<Rightarrow> pruneExternalServices E (set (map (\<lambda>key. perPodServiceName (keyName (cluster w) key)) keys)) w1))"

definition reconcileExpose :: "env \<Rightarrow> world \<Rightarrow> (go_error, unit) result \<times> world" where
  "reconcileExpose E w =
     (case Expose (Spec (cluster w)) of
        None \<Rightarrow> pruneExternalServices E {} w
      | Some expose \<Rightarrow>
          if \<not> exposeExternal (Some expose) then pruneExternalServices E {} w
          else if exp_PerPod expose \<and> Mode (Spec (cluster w)) = ModeCluster then reconcilePerPodServices E expose w
          else reconcileAggregateService E expose w)"

subsection \<open>Announced addresses\<close>

definition valkeyPortName :: string where "valkeyPortName = ''valkey''"

definition servicePublishedClientPort :: "Service \<Rightarrow> int option" where
  "servicePublishedClientPort svc =
     Some (case find (\<lambda>p. sp_Name p = valkeyPortName) (svc_Ports svc) of Some p \<Rightarrow> sp_Port p | None \<Rightarrow> ClientPort)"

definition serviceClientNodePort :: "Service \<Rightarrow> int option" where
  "serviceClientNodePort svc =
     (case find (\<lambda>p. sp_Name p = valkeyPortName) (svc_Ports svc) of
        None \<Rightarrow> None
      | Some p \<Rightarrow> if sp_NodePort p = 0 then None else Some (sp_NodePort p))"

definition loadBalancerAnnounce :: "Service \<Rightarrow> string \<times> int option" where
  "loadBalancerAnnounce svc =
     (case find (\<lambda>(ip, hostname). ip \<noteq> '''' \<or> hostname \<noteq> '''') (svc_Ingress svc) of
        None \<Rightarrow> ('''', None)
      | Some (ip, hostname) \<Rightarrow> (if ip \<noteq> '''' then ip else hostname, servicePublishedClientPort svc))"

definition podNodeIP :: "env \<Rightarrow> ValkeyNode \<Rightarrow> world \<Rightarrow> (go_error, string) result" where
  "podNodeIP E node w =
     (case listHostIPs E (trace w) (perPodPodSelector (Name (cluster w)) (nodeKeyOf node)) of
        Inl e \<Rightarrow> Inl (Err (''list backing pod for '' @ vn_Name node @ '': '' @ e))
      | Inr ips \<Rightarrow> Inr (case find (\<lambda>ip. ip \<noteq> '''') ips of Some ip \<Rightarrow> ip | None \<Rightarrow> ''''))"

definition nodePortAnnounce :: "env \<Rightarrow> ValkeyNode \<Rightarrow> Service \<Rightarrow> world \<Rightarrow> (go_error, string \<times> int option) result" where
  "nodePortAnnounce E node svc w =
     (case serviceClientNodePort svc of
        None \<Rightarrow> Inr ('''', None)
      | Some nodePort \<Rightarrow>
          (case podNodeIP E node w of
             Inl e \<Rightarrow> Inl e
           | Inr hostIP \<Rightarrow> if hostIP = '''' then Inr ('''', None) else Inr (hostIP, Some nodePort)))"

definition resolveExternalAnnounce :: "env \<Rightarrow> ValkeyNode \<Rightarrow> world \<Rightarrow> (go_error, string \<times> int option) result" where
  "resolveExternalAnnounce E node w =
     (let name = perPodServiceName (vn_Name node)
      in case getService E (trace w) name of
           Inl e \<Rightarrow> if apierrorsIsNotFound (Some e) then Inr ('''', None)
                    else Inl (Err (''get per-pod service '' @ name @ '': '' @ api_text e))
         | Inr svc \<Rightarrow>
             (case svc_Type svc of
                LoadBalancer \<Rightarrow> Inr (loadBalancerAnnounce svc)
              | NodePort \<Rightarrow> nodePortAnnounce E node svc w
              | ClusterIP \<Rightarrow> Inr ('''', None)))"

text \<open>\<open>portsEqual\<close> is equality of options.\<close>

definition patchNodeAnnounce :: "env \<Rightarrow> ValkeyNode \<Rightarrow> string \<Rightarrow> int option \<Rightarrow> world \<Rightarrow> (go_error, unit) result \<times> world" where
  "patchNodeAnnounce E node host port w =
     (if ns_AnnounceHost (vn_Spec node) = host \<and> ns_AnnouncePort (vn_Spec node) = port then (Inr (), w)
      else case apiWrite E (PatchAnnounce (vn_Name node) host port) w of
             (Some e, w1) \<Rightarrow> (Inl (Err (''patch announce on '' @ vn_Name node @ '': '' @ api_text e)), w1)
           | (None, w1) \<Rightarrow> (Inr (), w1))"

definition announce_body :: "env \<Rightarrow> ValkeyNode \<Rightarrow> unit \<Rightarrow> world \<Rightarrow> (go_error, unit) result \<times> world" where
  "announce_body E node u w =
     (case resolveExternalAnnounce E node w of
        Inl e \<Rightarrow> (Inl e, w)
      | Inr (host, port) \<Rightarrow> if host = '''' then (Inr (), w) else patchNodeAnnounce E node host port w)"

definition reconcileExposeAnnounce :: "env \<Rightarrow> world \<Rightarrow> (go_error, unit) result \<times> world" where
  "reconcileExposeAnnounce E w =
     (if \<not> announceWanted (cluster w) then (Inr (), w)
      else case listNodes E (trace w) of
             Inl e \<Rightarrow> (Inl (Err (''list nodes for expose-announce: '' @ e)), w)
           | Inr nodes \<Rightarrow> for_loop (announce_body E) nodes () w)"

subsection \<open>Pod disruption budget\<close>

text \<open>A delete whose \<^verbatim>\<open>NotFound\<close> is ignored.\<close>

definition deleteIgnored :: "env \<Rightarrow> ApiWrite \<Rightarrow> world \<Rightarrow> (go_error, unit) result \<times> world" where
  "deleteIgnored E x w =
     (case apiWrite E x w of
        (None, w1) \<Rightarrow> (Inr (), w1)
      | (Some e, w1) \<Rightarrow> if apierrorsIsNotFound (Some e) then (Inr (), w1) else (Inl (Err (api_text e)), w1))"

definition deletePodDisruptionBudget :: "env \<Rightarrow> world \<Rightarrow> (go_error, unit) result \<times> world" where
  "deletePodDisruptionBudget E w = deleteIgnored E (DeletePDB (ClusterPDBName (Name (cluster w)))) w"

definition reconcilePodDisruptionBudget :: "env \<Rightarrow> world \<Rightarrow> (go_error, unit) result \<times> world" where
  "reconcilePodDisruptionBudget E w =
     (let c = cluster w; name = ClusterPDBName (Name c)
      in if PodDisruptionBudget (Spec c) = PDBDisabled then deletePodDisruptionBudget E w
         else case CreateOrUpdate E ''*v1.PodDisruptionBudget'' name
                     (ApplyPDB name (Labels (Name c) ComponentValkey) 1 (ClusterSelector (Name c))) w of
                (Inl e, w1) \<Rightarrow> (Inl e, w1)
              | (Inr _, w1) \<Rightarrow> (Inr (), w1))"

subsection \<open>Network policy\<close>

definition metricsPort :: int where "metricsPort = 9121"
definition AnnNetworkPolicyEnabled :: string where "AnnNetworkPolicyEnabled = ''valkey.percona.com/network-policy''"
definition AnnNetworkPolicyMonitoringNamespace :: string where
  "AnnNetworkPolicyMonitoringNamespace = ''valkey.percona.com/network-policy-monitoring-namespace''"
definition operatorPodNameLabelValue :: string where "operatorPodNameLabelValue = ''valkey-operator''"
definition prometheusPodNameLabelValue :: string where "prometheusPodNameLabelValue = ''prometheus''"
definition metadataNameLabel :: string where "metadataNameLabel = ''kubernetes.io/metadata.name''"
definition networkPolicySuffix :: string where "networkPolicySuffix = ''-netpol''"

definition networkPolicyName :: "string \<Rightarrow> string" where
  "networkPolicyName c = ResourcePrefix @ c @ networkPolicySuffix"

definition networkPolicyEnabled :: "Cluster \<Rightarrow> bool" where
  "networkPolicyEnabled c =
     (case NetworkPolicyOf (Spec c) of
        Some np \<Rightarrow> (case np_Enabled np of
                      Some b \<Rightarrow> b
                    | None \<Rightarrow> lookup (Annotations c) AnnNetworkPolicyEnabled = annEnabledValue)
      | None \<Rightarrow> lookup (Annotations c) AnnNetworkPolicyEnabled = annEnabledValue)"

definition monitoringNamespace :: "Cluster \<Rightarrow> string" where
  "monitoringNamespace c =
     (let named = (case NetworkPolicyOf (Spec c) of Some np \<Rightarrow> np_MonitoringNamespace np | None \<Rightarrow> '''')
      in if named \<noteq> '''' then named
         else let ns = lookup (Annotations c) AnnNetworkPolicyMonitoringNamespace
              in if ns \<noteq> '''' then ns else Namespace c)"

definition equalitySelector :: "(string \<times> string) list \<Rightarrow> LabelSelector" where
  "equalitySelector ls = \<lparr> ls_MatchLabels = ls, ls_MatchExpressions = [] \<rparr>"

definition port :: "Protocol \<Rightarrow> int \<Rightarrow> NetworkPolicyPort" where
  "port proto p = \<lparr> npp_Protocol = proto, npp_Port = p \<rparr>"

definition tcpPorts :: "int \<Rightarrow> NetworkPolicyPort list" where
  "tcpPorts p = [port TCP p]"

definition podPeer :: "(string \<times> string) list \<Rightarrow> NetworkPolicyPeer" where
  "podPeer podLabels = \<lparr> peer_Namespace = None, peer_Pod = Some (equalitySelector podLabels) \<rparr>"

definition prometheusPeer :: "string \<Rightarrow> NetworkPolicyPeer" where
  "prometheusPeer monitoringNS =
     \<lparr> peer_Namespace = Some (equalitySelector [(metadataNameLabel, monitoringNS)]),
       peer_Pod = Some (equalitySelector [(LabelAppName, prometheusPodNameLabelValue)]) \<rparr>"

definition operatorPodSelector :: "(string \<times> string) list" where
  "operatorPodSelector = [(LabelAppName, operatorPodNameLabelValue)]"

definition clusterValkeyPodSelector :: "string \<Rightarrow> (string \<times> string) list" where
  "clusterValkeyPodSelector c = [(LabelCluster, c), (LabelComponent, ComponentValkey)]"

text \<open>The selector \<^verbatim>\<open>naming.ClusterSelector\<close> as a list of labels.\<close>

definition clusterSelectorLabels :: "string \<Rightarrow> (string \<times> string) list" where
  "clusterSelectorLabels c = [(LabelCluster, c)]"

definition clientIngressPeers :: "Cluster \<Rightarrow> NetworkPolicyPeer list" where
  "clientIngressPeers c =
     (let nsSelectors = (case NetworkPolicyOf (Spec c) of Some np \<Rightarrow> np_ClientNamespaceSelectors np | None \<Rightarrow> []);
          podSelectors = (case NetworkPolicyOf (Spec c) of Some np \<Rightarrow> np_ClientPodSelectors np | None \<Rightarrow> [])
      in if nsSelectors = [] \<and> podSelectors = [] then [podPeer []]
         else if nsSelectors = [] then map (\<lambda>p. \<lparr> peer_Namespace = None, peer_Pod = Some p \<rparr>) podSelectors
         else if podSelectors = [] then map (\<lambda>n. \<lparr> peer_Namespace = Some n, peer_Pod = None \<rparr>) nsSelectors
         else concat (map (\<lambda>n. map (\<lambda>p. \<lparr> peer_Namespace = Some n, peer_Pod = Some p \<rparr>) podSelectors) nsSelectors))"

definition buildIngressRules :: "Cluster \<Rightarrow> NetworkPolicyRule list" where
  "buildIngressRules c =
     (let sameCluster = [podPeer (clusterSelectorLabels (Name c))]
      in [\<lparr> rule_Peers = clientIngressPeers c, rule_Ports = tcpPorts ClientPort \<rparr>,
          \<lparr> rule_Peers = [podPeer operatorPodSelector], rule_Ports = tcpPorts ClientPort \<rparr>,
          \<lparr> rule_Peers = sameCluster, rule_Ports = tcpPorts BusPortNumber \<rparr>,
          \<lparr> rule_Peers = sameCluster, rule_Ports = tcpPorts ClientPort \<rparr>,
          \<lparr> rule_Peers = [prometheusPeer (monitoringNamespace c)], rule_Ports = tcpPorts metricsPort \<rparr>])"

definition buildEgressRules :: "NetworkPolicyRule list" where
  "buildEgressRules =
     [\<lparr> rule_Peers = [], rule_Ports = tcpPorts 443 \<rparr>,
      \<lparr> rule_Peers = [], rule_Ports = [port UDP 53, port TCP 53] \<rparr>]"

definition buildNetworkPolicySpec :: "Cluster \<Rightarrow> NetworkPolicy" where
  "buildNetworkPolicySpec c =
     \<lparr> pol_PodSelector = clusterValkeyPodSelector (Name c), pol_Types = [PolicyTypeIngress, PolicyTypeEgress],
       pol_Ingress = buildIngressRules c, pol_Egress = buildEgressRules \<rparr>"

definition deleteNetworkPolicy :: "env \<Rightarrow> world \<Rightarrow> (go_error, unit) result \<times> world" where
  "deleteNetworkPolicy E w = deleteIgnored E (DeleteNetworkPolicy (networkPolicyName (Name (cluster w)))) w"

definition reconcileNetworkPolicy :: "env \<Rightarrow> world \<Rightarrow> (go_error, unit) result \<times> world" where
  "reconcileNetworkPolicy E w =
     (let c = cluster w; name = networkPolicyName (Name c)
      in if \<not> networkPolicyEnabled c then deleteNetworkPolicy E w
         else case CreateOrUpdate E ''*v1.NetworkPolicy'' name
                     (ApplyNetworkPolicy name (Labels (Name c) ComponentValkey) (buildNetworkPolicySpec c)) w of
                (Inl e, w1) \<Rightarrow> (Inl e, w1)
              | (Inr res, w1) \<Rightarrow> (Inr (), onCreated res ''NetworkPolicyCreated'' (''Created NetworkPolicy '' @ name) w1))"

subsection \<open>These steps change no topology\<close>

text \<open>A step that touches neither nodes nor the topology, nor the cluster object.\<close>

definition harmless :: "(world \<Rightarrow> 'r \<times> world) \<Rightarrow> bool" where
  "harmless f \<longleftrightarrow> (\<forall>w. adds silent w (snd (f w)) \<and> cluster (snd (f w)) = cluster w)"

lemma harmlessD: "harmless f \<Longrightarrow> f w = (r, w1) \<Longrightarrow> adds silent w w1 \<and> cluster w1 = cluster w"
  by (metis harmless_def snd_conv)

lemma harmlessI: "(\<And>w r w1. f w = (r, w1) \<Longrightarrow> adds silent w w1 \<and> cluster w1 = cluster w) \<Longrightarrow> harmless f"
  by (metis harmless_def prod.collapse)

named_theorems harmless_intros

lemma harmless_for_loop [harmless_intros]:
  assumes "\<And>x s. harmless (body x s)"
  shows "harmless (\<lambda>w. for_loop body (xs w) s w)"
proof (rule harmlessI)
  fix w r w1
  assume "for_loop body (xs w) s w = (r, w1)"
  moreover have "for_loop body ys s w = (r, w1) \<Longrightarrow> adds silent w w1 \<and> cluster w1 = cluster w" for ys s w
  proof (induction ys arbitrary: s w)
    case (Cons x xs)
    obtain r2 w2 where b: "body x s w = (r2, w2)" by fastforce
    note h = harmlessD [OF assms b]
    show ?case using Cons b h by (cases r2) (auto intro: adds_trans)
  qed simp
  ultimately show "adds silent w w1 \<and> cluster w1 = cluster w" by blast
qed

lemma harmless_return [harmless_intros]: "harmless (\<lambda>w. (r w, w))"
  by (simp add: harmless_def)

lemma harmless_if [harmless_intros]: "harmless f \<Longrightarrow> harmless g \<Longrightarrow> harmless (\<lambda>w. if P w then f w else g w)"
  by (simp add: harmless_def)

lemma harmless_apiWrite [harmless_intros]:
  assumes "\<And>w e. silent (Write (x w) e)"
  shows "harmless (\<lambda>w. apiWrite E (x w) w)"
  by (rule harmlessI) (use assms in \<open>auto simp: apiWrite_def Let_def\<close>)

lemma harmless_CreateOrUpdate [harmless_intros]:
  assumes "\<And>w e. silent (Write (x w) e)"
  shows "harmless (\<lambda>w. CreateOrUpdate E ty (n w) (x w) w)"
  by (rule harmlessI) (use assms in \<open>auto simp: CreateOrUpdate_def apiWrite_def Let_def split: option.splits\<close>)

lemma harmless_onCreated [harmless_intros]: "harmless (\<lambda>w. (r w, onCreated (res w) (k w) (m w) w))"
  using onCreated_adds by (simp add: harmless_def)

lemma harmless_seq:
  assumes "harmless f" "\<And>w0 r. harmless (g w0 r)"
  shows "harmless (\<lambda>w. case f w of (r, w1) \<Rightarrow> g w r w1)"
proof (rule harmlessI)
  fix w r w1
  assume a: "(case f w of (r, w1) \<Rightarrow> g w r w1) = (r, w1)"
  obtain r2 w2 where f: "f w = (r2, w2)" by fastforce
  with a have g: "g w r2 w2 = (r, w1)" by simp
  show "adds silent w w1 \<and> cluster w1 = cluster w"
    using harmlessD [OF assms(1) f] harmlessD [OF assms(2) g] by (auto intro: adds_trans)
qed

lemma harmless_bind [harmless_intros]:
  assumes "harmless f" "\<And>w0 x. harmless (g w0 x)"
  shows "harmless (\<lambda>w. case f w of (Inl e, w1) \<Rightarrow> (Inl (h w e), w1) | (Inr x, w1) \<Rightarrow> g w x w1)"
proof -
  have "harmless (\<lambda>w. case f w of (r, w1) \<Rightarrow> (case r of Inl e \<Rightarrow> (\<lambda>w1. (Inl (h w e), w1)) | Inr x \<Rightarrow> g w x) w1)"
    by (rule harmless_seq [OF assms(1)]) (auto simp: assms(2) harmless_return split: sum.split)
  moreover have "(case f w of (r, w1) \<Rightarrow> (case r of Inl e \<Rightarrow> (\<lambda>w1. (Inl (h w e), w1)) | Inr x \<Rightarrow> g w x) w1) =
      (case f w of (Inl e, w1) \<Rightarrow> (Inl (h w e), w1) | (Inr x, w1) \<Rightarrow> g w x w1)" for w
    by (auto split: prod.split sum.split)
  ultimately show ?thesis by simp
qed

lemma harmless_deleteIgnored [harmless_intros]:
  "(\<And>w e. silent (Write (x w) e)) \<Longrightarrow> harmless (\<lambda>w. deleteIgnored E (x w) w)"
  by (rule harmlessI) (auto simp: deleteIgnored_def apiWrite_def Let_def split: option.splits if_splits)

lemma harmless_services [harmless_intros]:
  "harmless (upsertService E)" "harmless (upsertExternalService E name selector expose)"
  unfolding upsertService_def upsertExternalService_def Let_def by (intro harmless_intros, simp)+

lemma harmless_prune [harmless_intros]: "harmless (pruneExternalServices E keep)"
proof -
  have "harmless (prune_body E keep svc u)" for svc u
    by (rule harmlessI) (auto simp: prune_body_def apiWrite_def Let_def split: option.splits if_splits)
  note l = harmlessD [OF harmless_for_loop [OF this]]
  show ?thesis by (rule harmlessI) (auto simp: pruneExternalServices_def dest: l split: sum.splits)
qed

lemma harmless_expose [harmless_intros]: "harmless (reconcileExpose E)"
proof (rule harmlessI)
  fix w r w1
  assume run: "reconcileExpose E w = (r, w1)"
  have a: "harmless (reconcileAggregateService E ex)" for ex
    unfolding reconcileAggregateService_def Let_def by (rule harmlessI)
      (auto dest!: harmlessD [OF harmless_services(2)] harmlessD [OF harmless_prune] intro: adds_trans split: prod.splits sum.splits)
  have "harmless (perPod_body E ex key u)" for ex key u
    by (rule harmlessI) (auto simp: perPod_body_def dest!: harmlessD [OF harmless_services(2)])
  note l = harmlessD [OF harmless_for_loop [OF this]]
  have p: "harmless (reconcilePerPodServices E ex)" for ex
    unfolding reconcilePerPodServices_def by (rule harmlessI)
      (auto dest!: l harmlessD [OF harmless_prune] intro: adds_trans split: option.splits prod.splits sum.splits)
  show "adds silent w w1 \<and> cluster w1 = cluster w"
    using run by (auto simp: reconcileExpose_def dest!: harmlessD [OF a] harmlessD [OF p] harmlessD [OF harmless_prune]
        split: option.splits if_splits)
qed

lemma harmless_announce [harmless_intros]: "harmless (reconcileExposeAnnounce E)"
proof -
  have "harmless (announce_body E node u)" for node u
    by (rule harmlessI)
       (auto simp: announce_body_def patchNodeAnnounce_def apiWrite_def Let_def split: sum.splits prod.splits option.splits if_splits)
  note l = harmlessD [OF harmless_for_loop [OF this]]
  show ?thesis
    by (rule harmlessI) (auto simp: reconcileExposeAnnounce_def dest!: l split: sum.splits if_splits)
qed

lemma harmless_pdb [harmless_intros]: "harmless (reconcilePodDisruptionBudget E)"
  unfolding reconcilePodDisruptionBudget_def deletePodDisruptionBudget_def Let_def by (intro harmless_intros) simp_all

lemma harmless_policy [harmless_intros]: "harmless (reconcileNetworkPolicy E)"
  unfolding reconcileNetworkPolicy_def deleteNetworkPolicy_def Let_def by (intro harmless_intros) simp_all

subsection \<open>What the network policy allows\<close>

text \<open>
  The meaning Kubernetes documents for a policy: a peer without namespace selector means pods of the
  policy's own namespace, an empty list of peers or ports means all of them.  Set-based expressions, which
  only the selectors of the spec may have, are interpreted by \<open>expr\<close>.  A connection needs the egress rules
  of its source and the ingress rules of its target.
\<close>

record Pod =
  pod_Namespace :: string
  pod_NamespaceLabels :: labels
  pod_Labels :: labels

definition selects :: "(string \<Rightarrow> labels \<Rightarrow> bool) \<Rightarrow> LabelSelector \<Rightarrow> labels \<Rightarrow> bool" where
  "selects expr s l \<longleftrightarrow>
     list_all (\<lambda>(k, v). l k = Some v) (ls_MatchLabels s) \<and> list_all (\<lambda>x. expr x l) (ls_MatchExpressions s)"

definition peer_matches :: "(string \<Rightarrow> labels \<Rightarrow> bool) \<Rightarrow> string \<Rightarrow> NetworkPolicyPeer \<Rightarrow> Pod \<Rightarrow> bool" where
  "peer_matches expr ns pr pod \<longleftrightarrow>
     (case peer_Namespace pr of None \<Rightarrow> pod_Namespace pod = ns | Some s \<Rightarrow> selects expr s (pod_NamespaceLabels pod)) \<and>
     (case peer_Pod pr of None \<Rightarrow> True | Some s \<Rightarrow> selects expr s (pod_Labels pod))"

definition rule_allows :: "(string \<Rightarrow> labels \<Rightarrow> bool) \<Rightarrow> string \<Rightarrow> NetworkPolicyRule \<Rightarrow> Pod \<Rightarrow> Protocol \<Rightarrow> int \<Rightarrow> bool" where
  "rule_allows expr ns rule pod proto p \<longleftrightarrow>
     (rule_Peers rule = [] \<or> list_ex (\<lambda>pr. peer_matches expr ns pr pod) (rule_Peers rule)) \<and>
     (rule_Ports rule = [] \<or> port proto p \<in> set (rule_Ports rule))"

definition ingress_allowed where
  "ingress_allowed expr c pod proto p \<longleftrightarrow>
     list_ex (\<lambda>rule. rule_allows expr (Namespace c) rule pod proto p) (pol_Ingress (buildNetworkPolicySpec c))"

definition egress_allowed where
  "egress_allowed expr c pod proto p \<longleftrightarrow>
     list_ex (\<lambda>rule. rule_allows expr (Namespace c) rule pod proto p) (pol_Egress (buildNetworkPolicySpec c))"

lemmas policy_defs = ingress_allowed_def egress_allowed_def buildNetworkPolicySpec_def buildIngressRules_def buildEgressRules_def
  rule_allows_def peer_matches_def tcpPorts_def port_def podPeer_def equalitySelector_def selects_def

text \<open>The cluster bus is open to the cluster's own pods only: the policy lets a pod reach port 16379 of a
  node exactly if the pod is in the cluster's namespace and carries the cluster's label, whatever client
  selectors the spec has.\<close>

theorem bus_ingress_own_cluster:
  "ingress_allowed expr c pod TCP 16379 \<longleftrightarrow> pod_Namespace pod = Namespace c \<and> pod_Labels pod LabelCluster = Some (Name c)"
  by (auto simp: policy_defs ClientPort_def BusPortNumber_def metricsPort_def clusterSelectorLabels_def Let_def)


subsection \<open>External services\<close>

text \<open>The names of the external services the spec asks for.\<close>

definition wantedServices :: "Cluster \<Rightarrow> string set" where
  "wantedServices c =
     (case Expose (Spec c) of
        None \<Rightarrow> {}
      | Some e \<Rightarrow>
          if \<not> exposeExternal (Some e) then {}
          else if exp_PerPod e \<and> Mode (Spec c) = ModeCluster
          then (case desiredNodes c of None \<Rightarrow> {} | Some keys \<Rightarrow> (\<lambda>key. perPodServiceName (keyName c key)) ` set keys)
          else {clientServiceName (Name c)})"

fun appliedService :: "Action \<Rightarrow> string option" where
  "appliedService (Write (ApplyService svc) None) = Some (svc_Name svc)"
| "appliedService _ = None"

fun deletedService :: "Action \<Rightarrow> string option" where
  "deletedService (Write (DeleteService n) _) = Some n"
| "deletedService _ = None"

definition applied :: "world \<Rightarrow> world \<Rightarrow> string set" where
  "applied w w' = set (List.map_filter appliedService (added w w'))"

definition deleted :: "world \<Rightarrow> world \<Rightarrow> string set" where
  "deleted w w' = set (List.map_filter deletedService (added w w'))"

lemma service_sets_refl [simp]: "applied w w = {}" "deleted w w = {}"
  by (simp_all add: applied_def deleted_def map_filter_simps)

lemma service_sets_trans:
  assumes "adds P w w'" "adds Q w' w''"
  shows "applied w w'' = applied w w' \<union> applied w' w''" "deleted w w'' = deleted w w' \<union> deleted w' w''"
  using added_trans [OF assms] by (auto simp: applied_def deleted_def map_filter_def)

lemma upsertExternalService_sets:
  assumes "upsertExternalService E name sel ex w = (r, w1)"
  shows "deleted w w1 = {} \<and> (r = Inr () \<longrightarrow> applied w w1 = {name})"
proof -
  define svc where "svc = (currentService E name w) \<lparr> svc_Name := name, svc_Labels := exposeServiceLabels (Name (cluster w)),
                      svc_Annotations := mergeExposeAnnotations (svc_Annotations (currentService E name w)) (exp_Annotations ex),
                      svc_Type := exp_Type ex, svc_Selector := sel, svc_Ports := externalServicePorts,
                      svc_SourceRanges := (if exp_Type ex = LoadBalancer then exp_SourceRanges ex else []) \<rparr>"
  define e where "e = api E (trace w) (ApplyService svc)"
  have n: "svc_Name svc = name" by (simp add: svc_def)
  have a: "apiWrite E (ApplyService svc) w = (e, act (Write (ApplyService svc) e) w)" by (simp only: apiWrite_def Let_def e_def)
  have "\<exists>res k m. w1 = onCreated res k m (act (Write (ApplyService svc) e) w) \<and> (r = Inr () \<longrightarrow> e = None)"
  proof (cases e)
    case None
    with assms show ?thesis unfolding upsertExternalService_def svc_def [symmetric] CreateOrUpdate_def a Let_def prod.case
      by (simp only: option.case prod.case sum.case prod.inject) blast
  next
    case (Some x)
    with assms have "w1 = act (Write (ApplyService svc) e) w" "r \<noteq> Inr ()"
      unfolding upsertExternalService_def svc_def [symmetric] CreateOrUpdate_def a Let_def prod.case by auto
    then show ?thesis by (intro exI [of _ OpNone]) (simp add: onCreated_def)
  qed
  then show ?thesis
    by (auto simp: applied_def deleted_def onCreated_def event_def map_filter_simps n split: if_splits)
qed

lemma prune_sets:
  assumes "pruneExternalServices E keep w = (r, w1)"
  shows "applied w w1 = {} \<and> deleted w w1 \<inter> keep = {} \<and>
     (r = Inr () \<longrightarrow> (\<exists>svcs. listServices E (trace w) [LabelCluster \<mapsto> Name (cluster w), exposeAccessLabel \<mapsto> exposeAccessValue] = Inr svcs \<and>
        deleted w w1 = svc_Name ` set svcs - keep))"
proof -
  have l: "applied w w1 = {} \<and> deleted w w1 \<subseteq> svc_Name ` set svcs - keep \<and> (r = Inr () \<longrightarrow> deleted w w1 = svc_Name ` set svcs - keep)"
    if "for_loop (prune_body E keep) svcs () w = (r, w1)" for svcs
    using that
  proof (induction svcs arbitrary: w)
    case (Cons svc svcs)
    obtain r2 w2 where b: "prune_body E keep svc () w = (r2, w2)" by fastforce
    have h: "applied w w2 = {} \<and> deleted w w2 = {svc_Name svc} - keep \<and> adds (\<lambda>_. True) w w2"
      using b by (auto simp: prune_body_def apiWrite_def Let_def applied_def deleted_def map_filter_simps split: option.splits if_splits)
    show ?case
    proof (cases r2)
      case (Inr x)
      with Cons.prems b have run: "for_loop (prune_body E keep) svcs () w2 = (r, w1)" by simp
      have "harmless (prune_body E keep svc u)" for svc u
        by (rule harmlessI) (auto simp: prune_body_def apiWrite_def Let_def split: option.splits if_splits)
      from harmlessD [OF harmless_for_loop [OF this] run] have "adds silent w2 w1" by simp
      note st = service_sets_trans [OF conjunct2 [OF conjunct2 [OF h]] this]
      then show ?thesis using h Cons.IH [OF run] by auto
    qed (use Cons.prems b h in auto)
  qed simp
  show ?thesis
    using assms l by (fastforce simp: pruneExternalServices_def split: sum.splits)
qed

lemma perPod_loop_sets:
  assumes "for_loop (perPod_body E ex) keys () w = (Inr (), w1)"
  shows "deleted w w1 = {} \<and> applied w w1 = (\<lambda>key. perPodServiceName (keyName (cluster w) key)) ` set keys \<and>
     adds silent w w1 \<and> cluster w1 = cluster w"
  using assms
proof (induction keys arbitrary: w)
  case (Cons key keys)
  obtain r2 w2 where b: "perPod_body E ex key () w = (r2, w2)" by fastforce
  with Cons.prems have run: "for_loop (perPod_body E ex) keys () w2 = (Inr (), w1)" and r2: "r2 = Inr ()"
    by (cases r2; simp)+
  have b': "upsertExternalService E (perPodServiceName (keyName (cluster w) key)) (perPodPodSelector (Name (cluster w)) key) ex w = (r2, w2)"
    using b by (simp add: perPod_body_def)
  note h = harmlessD [OF harmless_services(2) b'] and u = upsertExternalService_sets [OF b'] and IH = Cons.IH [OF run]
  have "adds silent w w2" "adds silent w2 w1" using h IH by simp_all
  from service_sets_trans [OF this] this h u IH r2 show ?case by (auto intro: adds_trans)
qed simp

text \<open>External access is what the spec asks for, no less and no more: a pass that succeeds has applied
  exactly the wanted external services and deleted exactly the other ones found, so switching between
  per-pod, aggregate and no exposure leaves nothing behind; no wanted service is deleted.\<close>

theorem expose_exact:
  assumes "reconcileExpose E w = (Inr (), w1)"
  shows "applied w w1 = wantedServices (cluster w) \<and>
    (\<exists>tr svcs. listServices E tr [LabelCluster \<mapsto> Name (cluster w), exposeAccessLabel \<mapsto> exposeAccessValue] = Inr svcs \<and>
       deleted w w1 = svc_Name ` set svcs - wantedServices (cluster w))"
proof -
  have step: "applied w w1 = keep \<and> (\<exists>tr svcs. listServices E tr [LabelCluster \<mapsto> Name (cluster w), exposeAccessLabel \<mapsto> exposeAccessValue] = Inr svcs \<and>
       deleted w w1 = svc_Name ` set svcs - keep)"
    if "applied w w2 = keep" "deleted w w2 = {}" "adds silent w w2" "cluster w2 = cluster w"
      "pruneExternalServices E keep w2 = (Inr (), w1)" for w2 keep
  proof -
    have "adds silent w2 w1" using harmlessD [OF harmless_prune that(5)] by simp
    from service_sets_trans [OF that(3) this] prune_sets [OF that(5)] that show ?thesis by auto
  qed
  show ?thesis
  proof (cases "exposeExternal (Expose (Spec (cluster w)))")
    case False
    then have "wantedServices (cluster w) = {}" "pruneExternalServices E {} w = (Inr (), w1)"
      using assms by (auto simp: wantedServices_def reconcileExpose_def split: option.splits)
    with step [of w "{}"] show ?thesis by simp
  next
    case True
    then obtain ex where ex: "Expose (Spec (cluster w)) = Some ex" "exposeExternal (Some ex)"
      by (cases "Expose (Spec (cluster w))") (auto simp: exposeExternal_def)
    show ?thesis
    proof (cases "exp_PerPod ex \<and> Mode (Spec (cluster w)) = ModeCluster")
      case pod: True
      with assms ex have r: "reconcilePerPodServices E ex w = (Inr (), w1)" by (simp add: reconcileExpose_def)
      then obtain keys where k: "desiredNodes (cluster w) = Some keys"
        by (cases "desiredNodes (cluster w)") (auto simp: reconcilePerPodServices_def)
      obtain r2 w2 where l: "for_loop (perPod_body E ex) keys () w = (r2, w2)" by fastforce
      with r k have p: "r2 = Inr ()" "pruneExternalServices E ((\<lambda>key. perPodServiceName (keyName (cluster w) key)) ` set keys) w2 = (Inr (), w1)"
        by (auto simp: reconcilePerPodServices_def split: sum.splits)
      from perPod_loop_sets [OF l [unfolded p(1)]] step [OF _ _ _ _ p(2)] ex pod k show ?thesis
        by (simp add: wantedServices_def)
    next
      case agg: False
      let ?n = "clientServiceName (Name (cluster w))"
      obtain r2 w2 where u: "upsertExternalService E ?n (ClusterSelector (Name (cluster w))) ex w = (r2, w2)" by fastforce
      with assms ex agg have p: "r2 = Inr ()" "pruneExternalServices E {?n} w2 = (Inr (), w1)"
        by (auto simp: reconcileExpose_def reconcileAggregateService_def Let_def split: sum.splits)
      from upsertExternalService_sets [OF u] harmlessD [OF harmless_services(2) u] step [OF _ _ _ _ p(2)] p(1) ex agg
      show ?thesis by (auto simp: wantedServices_def)
    qed
  qed
qed

theorem expose_exact_witness:
  "\<exists>w1. reconcileExpose calm (sample_world \<lparr> cluster := sample_cluster \<lparr> Spec := sample_spec \<lparr> Expose :=
      Some \<lparr> exp_Type = NodePort, exp_SourceRanges = [], exp_Annotations = Map.empty, exp_PerPod = False \<rparr> \<rparr> \<rparr> \<rparr>) = (Inr (), w1) \<and>
    applied (sample_world \<lparr> cluster := sample_cluster \<lparr> Spec := sample_spec \<lparr> Expose :=
      Some \<lparr> exp_Type = NodePort, exp_SourceRanges = [], exp_Annotations = Map.empty, exp_PerPod = False \<rparr> \<rparr> \<rparr> \<rparr>) w1 = {''valkey-c-client''}"
proof -
  define ex where "ex = \<lparr> exp_Type = NodePort, exp_SourceRanges = [], exp_Annotations = Map.empty, exp_PerPod = False \<rparr>"
  define w where "w = sample_world \<lparr> cluster := sample_cluster \<lparr> Spec := sample_spec \<lparr> Expose := Some ex \<rparr> \<rparr> \<rparr>"
  have e: "Expose (Spec (cluster w)) = Some ex" "exposeExternal (Some ex)" "\<not> exp_PerPod ex" "Name (cluster w) = ''c''"
    by (simp_all add: w_def ex_def exposeExternal_def sample_cluster_def)
  obtain w1 where r: "reconcileExpose calm w = (Inr (), w1)"
    using e by (simp add: reconcileExpose_def reconcileAggregateService_def upsertExternalService_def CreateOrUpdate_def apiWrite_def
        calm_def pruneExternalServices_def Let_def)
  have "wantedServices (cluster w) = {''valkey-c-client''}"
    using e by (simp add: wantedServices_def clientServiceName_def ResourcePrefix_def clientServiceSuffix_def)
  with expose_exact [OF r] r show ?thesis unfolding w_def ex_def by metis
qed

end
