(* ===== verification/Auth_TLS.thy ===== *)
theory Auth_TLS
  imports Network "HOL-Library.AList"
begin

text \<open>
  Passwords, ACL, TLS material and the server configuration of a cluster: \<^verbatim>\<open>auth.go\<close>, \<^verbatim>\<open>acl.go\<close>, \<^verbatim>\<open>tls.go\<close> and
  \<^verbatim>\<open>configmap.go\<close> of \<^verbatim>\<open>src/pkg/controller/perconavalkeycluster\<close>, and \<^verbatim>\<open>src/pkg/tls\<close>.

  Random numbers come from the environment and are reduced below the bound they are drawn for.  Token
  sets are sets.  The client factory is assumed to be configured, as it is outside unit tests.
\<close>

subsection \<open>Secrets\<close>

text \<open>
  \<^verbatim>\<open>CreateOrUpdate\<close> of a Secret whose mutation may fail: the object read, or a fresh one, is mutated and
  then written; the mutation also returns a value.  The flag of an error tells that the mutation failed.
\<close>

definition applySecret :: "env \<Rightarrow> string \<Rightarrow> (Secret \<Rightarrow> (go_error, Secret \<times> 'a) result) \<Rightarrow> world
    \<Rightarrow> (bool \<times> go_error, OperationResult \<times> 'a) result \<times> world" where
  "applySecret E name mutate w =
     (let fresh = \<lparr> sec_Name = name, sec_Labels = None, sec_Type = '''', sec_Data = None \<rparr>;
          run = (\<lambda>s. case mutate s of
                       Inl e \<Rightarrow> (Inl (True, e), w)
                     | Inr (s1, out) \<Rightarrow>
                         (case CreateOrUpdate E ''*v1.Secret'' name (ApplySecret s1) w of
                            (Inl e, w1) \<Rightarrow> (Inl (False, e), w1)
                          | (Inr res, w1) \<Rightarrow> (Inr (res, out), w1)))
      in case getSecret E (trace w) name of
           Inr s \<Rightarrow> run s
         | Inl (NotFound _) \<Rightarrow> run fresh
         | Inl e \<Rightarrow> (Inl (False, Err (''createOrUpdate *v1.Secret '' @ Namespace (cluster w) @ ''/'' @ name @ '': '' @ api_text e)), w))"

definition passwordLength :: nat where "passwordLength = 26"

definition passwordAlphabet :: string where
  "passwordAlphabet = ''abcdefghijklmnopqrstuvwxyzABCDEFGHIJKLMNOPQRSTUVWXYZ0123456789''"

text \<open>\<open>k\<close> numbers the draws of a step.\<close>

fun randomPassword :: "env \<Rightarrow> Action list \<Rightarrow> nat \<Rightarrow> nat \<Rightarrow> (go_error, string) result" where
  "randomPassword E tr k 0 = Inr ''''"
| "randomPassword E tr k (Suc n) =
     (case randomIndex E tr k of
        Inl e \<Rightarrow> Inl (Err (''generate password: '' @ e))
      | Inr idx \<Rightarrow>
          (case randomPassword E tr (Suc k) n of
             Inl e \<Rightarrow> Inl e
           | Inr rest \<Rightarrow> Inr (passwordAlphabet ! (idx mod length passwordAlphabet) # rest)))"


text \<open>Existing passwords are kept, missing or empty ones are generated.\<close>

fun fillPasswords :: "env \<Rightarrow> Action list \<Rightarrow> nat \<Rightarrow> string list \<Rightarrow> labels \<Rightarrow> conf \<Rightarrow> (go_error, labels \<times> conf) result" where
  "fillPasswords E tr k [] data out = Inr (data, out)"
| "fillPasswords E tr k (user # users) data out =
     (if lookup data user \<noteq> '''' then fillPasswords E tr k users data (out @ [(user, lookup data user)])
      else case randomPassword E tr k passwordLength of
             Inl e \<Rightarrow> Inl e
           | Inr pw \<Rightarrow> fillPasswords E tr (k + passwordLength) users (data(user \<mapsto> pw)) (out @ [(user, pw)]))"

definition prepareSecret :: "Cluster \<Rightarrow> Secret \<Rightarrow> Secret" where
  "prepareSecret c s =
     s \<lparr> sec_Labels := (case sec_Labels s of None \<Rightarrow> Some (Labels (Name c) ComponentValkey) | l \<Rightarrow> l),
         sec_Type := ''Opaque'', sec_Data := Some (nil_map (sec_Data s)) \<rparr>"

definition ensureSystemPasswords :: "env \<Rightarrow> world \<Rightarrow> (go_error, conf) result \<times> world" where
  "ensureSystemPasswords E w =
     (case applySecret E (SystemPasswordsSecretName (Name (cluster w)))
             (\<lambda>s. let s1 = prepareSecret (cluster w) s
                  in case fillPasswords E (trace w) 0 [SystemUserOperator, SystemUserExporter, SystemUserBackup] (nil_map (sec_Data s1)) [] of
                       Inl e \<Rightarrow> Inl e
                     | Inr (data, out) \<Rightarrow> Inr (s1 \<lparr> sec_Data := Some data \<rparr>, out)) w of
        (Inl (_, e), w1) \<Rightarrow> (Inl e, w1)
      | (Inr (_, out), w1) \<Rightarrow> (Inr out, w1))"

definition defaultUserPasswordKey :: string where "defaultUserPasswordKey = ''password''"

definition usesOperatorDefaultAuthSecret :: "Cluster \<Rightarrow> AuthSpec \<Rightarrow> string \<Rightarrow> string \<Rightarrow> bool" where
  "usesOperatorDefaultAuthSecret c auth secretName key \<longleftrightarrow>
     secretName = Name c @ usersSecretSuffix \<and> key = defaultUserPasswordKey \<and> ps_Keys (auth_PasswordSecret auth) = []"

definition ensureDefaultUserPassword :: "env \<Rightarrow> string \<Rightarrow> string \<Rightarrow> world \<Rightarrow> (go_error, string) result \<times> world" where
  "ensureDefaultUserPassword E secretName key w =
     (case applySecret E secretName
             (\<lambda>s. let s1 = prepareSecret (cluster w) s
                  in case fillPasswords E (trace w) 0 [key] (nil_map (sec_Data s1)) [] of
                       Inl e \<Rightarrow> Inl e
                     | Inr (data, out) \<Rightarrow> Inr (s1 \<lparr> sec_Data := Some data \<rparr>, conf_get out key)) w of
        (Inl (True, e), w1) \<Rightarrow> (Inl e, w1)
      | (Inl (False, e), w1) \<Rightarrow>
          (Inl (Err (''ensure default-user password Secret '' @ quoted secretName @ '': '' @ error_text e)), w1)
      | (Inr (_, out), w1) \<Rightarrow> (Inr out, w1))"

definition resolveRequirepass :: "env \<Rightarrow> world \<Rightarrow> (go_error, string) result \<times> world" where
  "resolveRequirepass E w =
     (case Auth (Spec (cluster w)) of
        None \<Rightarrow> (Inr '''', w)
      | Some auth \<Rightarrow>
          if auth_Enabled auth \<noteq> Some True then (Inr '''', w)
          else let secretName = ps_Name (auth_PasswordSecret auth)
               in if secretName = '''' then (Inl (Err ''auth enabled but passwordSecret.name is empty''), w)
                  else let key = (case ps_Keys (auth_PasswordSecret auth) of k # _ \<Rightarrow> k | [] \<Rightarrow> defaultUserPasswordKey)
                       in if usesOperatorDefaultAuthSecret (cluster w) auth secretName key
                          then ensureDefaultUserPassword E secretName key w
                          else case getSecret E (trace w) secretName of
                                 Inl e \<Rightarrow>
                                   (Inl (Err (if apierrorsIsNotFound (Some e)
                                              then ''auth password Secret '' @ quoted secretName @ '' not found''
                                              else ''get auth password Secret '' @ quoted secretName @ '': '' @ api_text e)), w)
                               | Inr s \<Rightarrow>
                                   let v = lookup (nil_map (sec_Data s)) key
                                   in if v = ''''
                                      then (Inl (Err (''auth password Secret '' @ quoted secretName @ '' missing key '' @ quoted key)), w)
                                      else (Inr v, w))"

subsection \<open>users.acl\<close>

definition systemUserPrefix :: string where "systemUserPrefix = ''_''"

fun passwordHashes :: "env \<Rightarrow> string \<Rightarrow> string \<Rightarrow> labels \<Rightarrow> string list \<Rightarrow> (go_error, string list) result" where
  "passwordHashes E user secretName data [] = Inr []"
| "passwordHashes E user secretName data (key # keys) =
     (if lookup data key = ''''
      then Inl (Err (''user '' @ quoted user @ '': password Secret '' @ quoted secretName @ '' missing key '' @ quoted key))
      else case passwordHashes E user secretName data keys of
             Inl e \<Rightarrow> Inl e
           | Inr hs \<Rightarrow> Inr (HashACLPassword (sha256 E) (lookup data key) # hs))"

definition fetchUserPasswordHashes :: "env \<Rightarrow> world \<Rightarrow> UserACLSpec \<Rightarrow> (go_error, string list) result" where
  "fetchUserPasswordHashes E w u =
     (let secretName = ps_Name (PasswordSecret u)
      in if secretName = '''' then Inl (Err (''user '' @ quoted (UserName u) @ '': passwordSecret.name is empty''))
         else let keys = (if ps_Keys (PasswordSecret u) = [] then [UserName u] else ps_Keys (PasswordSecret u))
              in case getSecret E (trace w) secretName of
                   Inl e \<Rightarrow>
                     Inl (Err (if apierrorsIsNotFound (Some e)
                               then ''user '' @ quoted (UserName u) @ '': password Secret '' @ quoted secretName @ '' not found''
                               else ''user '' @ quoted (UserName u) @ '': get password Secret '' @ quoted secretName @ '': '' @ api_text e))
                 | Inr s \<Rightarrow> passwordHashes E (UserName u) secretName (nil_map (sec_Data s)) keys)"

fun buildUserDefinedACLLines_loop :: "env \<Rightarrow> world \<Rightarrow> UserACLSpec list \<Rightarrow> (go_error, string list) result" where
  "buildUserDefinedACLLines_loop E w [] = Inr []"
| "buildUserDefinedACLLines_loop E w (u # us) =
     (if \<not> Enabled u then buildUserDefinedACLLines_loop E w us
      else if HasPrefix (UserName u) systemUserPrefix then buildUserDefinedACLLines_loop E w us
      else case (if \<not> Resetpass u \<and> \<not> Nopass u then fetchUserPasswordHashes E w u else Inr []) of
             Inl e \<Rightarrow> Inl e
           | Inr hashes \<Rightarrow>
               (case buildUserDefinedACLLines_loop E w us of
                  Inl e \<Rightarrow> Inl e
                | Inr ls \<Rightarrow> Inr (BuildUserACL u hashes # ls)))"

definition buildUserDefinedACLLines :: "env \<Rightarrow> world \<Rightarrow> (go_error, string list) result" where
  "buildUserDefinedACLLines E w = buildUserDefinedACLLines_loop E w (Users (Spec (cluster w)))"

record aclUserRules =
  acl_enabled :: string
  acl_passwords :: "string set"
  acl_commands :: "string set"

definition addToken :: "aclUserRules \<Rightarrow> string \<Rightarrow> aclUserRules" where
  "addToken r t =
     (if t = ''on'' \<or> t = ''off'' then r \<lparr> acl_enabled := t \<rparr>
      else if t = ''nopass'' then r \<lparr> acl_passwords := insert t (acl_passwords r) \<rparr>
      else if t \<noteq> '''' \<and> hd t \<in> set ''#><'' then r \<lparr> acl_passwords := insert t (acl_passwords r) \<rparr>
      else if t \<noteq> '''' \<and> hd t \<in> set ''+-'' then r \<lparr> acl_commands := insert t (acl_commands r) \<rparr>
      else r)"

definition parseACLLine :: "(string \<times> aclUserRules) list \<Rightarrow> string \<Rightarrow> (string \<times> aclUserRules) list" where
  "parseACLLine users line =
     (let fields = Fields line
      in if length fields < 2 \<or> hd fields \<noteq> ''user'' then users
         else AList.update (fields ! 1)
                (foldl addToken \<lparr> acl_enabled = '''', acl_passwords = {}, acl_commands = {} \<rparr> (drop 2 fields)) users)"

definition parseACLUsers :: "string \<Rightarrow> (string \<times> aclUserRules) list" where
  "parseACLUsers body = foldl parseACLLine [] (Split body (CHR 0x0A))"

definition normalizeBaselineDeny :: "string set \<Rightarrow> string set" where
  "normalizeBaselineDeny cmds =
     (if ''-@all'' \<notin> cmds \<or> card cmds \<le> 1 then cmds else cmds - {''-@all''})"

definition tokenSetsEqual :: "string set \<Rightarrow> string set \<Rightarrow> bool" where
  "tokenSetsEqual a b \<longleftrightarrow> card a = card b \<and> a \<subseteq> b"

definition equalACLRules :: "aclUserRules \<Rightarrow> aclUserRules \<Rightarrow> bool" where
  "equalACLRules want got =
     (if acl_enabled want \<noteq> acl_enabled got then False
      else if \<not> tokenSetsEqual (acl_passwords want) (acl_passwords got) then False
      else tokenSetsEqual (normalizeBaselineDeny (acl_commands want)) (normalizeBaselineDeny (acl_commands got)))"

text \<open>\<open>lines\<close> is the reply to \<open>ACL LIST\<close>.\<close>

definition nodeACLMatches :: "string list \<Rightarrow> (string \<times> aclUserRules) list \<Rightarrow> bool" where
  "nodeACLMatches lines want =
     (let got = parseACLUsers (Join lines [CHR 0x0A])
      in list_all (\<lambda>(name, wantRules). case map_of got name of None \<Rightarrow> False | Some gotRules \<Rightarrow> equalACLRules wantRules gotRules) want)"

subsection \<open>Live reload\<close>

definition reloadNodeAuth :: "env \<Rightarrow> string \<Rightarrow> string \<Rightarrow> world \<Rightarrow> string option \<times> world" where
  "reloadNodeAuth E addr requirepass w =
     (case command E addr (ConfigSet ''masterauth'' requirepass) w of
        (Some e, w1) \<Rightarrow> (Some (''CONFIG SET masterauth: '' @ e), w1)
      | (None, w1) \<Rightarrow> command E addr ACLLoad w1)"

text \<open>The counts of reachable, verified and pending nodes.\<close>

definition reload_body :: "env \<Rightarrow> (string \<times> aclUserRules) list \<Rightarrow> string \<Rightarrow> ValkeyNode \<Rightarrow> int \<times> int \<times> int \<Rightarrow> world
    \<Rightarrow> (go_error, int \<times> int \<times> int) result \<times> world" where
  "reload_body E want requirepass node counts w =
     (case counts of (reachable, reloaded, pending) \<Rightarrow>
        if vn_PodIP node = '''' then (Inr (reachable, reloaded, pending), w)
        else case dial E (trace w) node of
               None \<Rightarrow> (Inr (reachable + 1, reloaded, pending + 1), w)
             | Some (addr, _) \<Rightarrow>
                 (case reloadNodeAuth E addr requirepass w of
                    (Some _, w1) \<Rightarrow> (Inr (reachable + 1, reloaded, pending + 1), w1)
                  | (None, w1) \<Rightarrow>
                      (case aclList E (trace w1) addr of
                         Inl _ \<Rightarrow> (Inr (reachable + 1, reloaded, pending + 1), w1)
                       | Inr lines \<Rightarrow>
                           if \<not> nodeACLMatches lines want then (Inr (reachable + 1, reloaded, pending + 1), w1)
                           else (Inr (reachable + 1, reloaded + 1, pending), w1))))"

text \<open>\<open>Inr False\<close> is \<^verbatim>\<open>errAuthReloadPending\<close>.\<close>

definition liveReloadAuth :: "env \<Rightarrow> string \<Rightarrow> string \<Rightarrow> world \<Rightarrow> (go_error, bool) result \<times> world" where
  "liveReloadAuth E aclContent requirepass w =
     (case listNodes E (trace w) of
        Inl e \<Rightarrow> (Inl (Err (''auth reload: list nodes: '' @ e)), w)
      | Inr nodes \<Rightarrow>
          (case for_loop (reload_body E (parseACLUsers aclContent) requirepass) nodes (0, 0, 0) w of
             (Inl e, w1) \<Rightarrow> (Inl e, w1)
           | (Inr (reachable, reloaded, pending), w1) \<Rightarrow>
               if pending > 0 \<or> reloaded = 0 then (Inr False, w1)
               else (Inr True, event EventNormal ''AuthReloaded'' (''Applied auth/ACL change live to '' @ Itoa reloaded @ ''/'' @
                       Itoa reachable @ '' node(s) (ACL LOAD + CONFIG SET masterauth)'') w1)))"

definition annAuthSignature :: string where "annAuthSignature = ''valkey.percona.com/auth-signature''"

definition authSignature :: "env \<Rightarrow> string \<Rightarrow> string \<Rightarrow> string" where
  "authSignature E aclContent requirepass = sha256 E (aclContent @ [CHR 0x00] @ requirepass)"

definition annotate :: "string \<Rightarrow> string \<Rightarrow> world \<Rightarrow> world" where
  "annotate k v w = w \<lparr> cluster := (cluster w) \<lparr> Annotations := (Annotations (cluster w))(k \<mapsto> v) \<rparr> \<rparr>"

definition stampAuthSignature :: "env \<Rightarrow> string \<Rightarrow> world \<Rightarrow> (go_error, unit) result \<times> world" where
  "stampAuthSignature E signature w =
     (case apiWrite E (PatchAnnotation annAuthSignature signature) (annotate annAuthSignature signature w) of
        (Some e, w1) \<Rightarrow> (Inl (Err (''stamp auth signature: '' @ api_text e)), w1)
      | (None, w1) \<Rightarrow> (Inr (), w1))"

definition reconcileAuthReload :: "env \<Rightarrow> string \<Rightarrow> string \<Rightarrow> world \<Rightarrow> (go_error, unit) result \<times> world" where
  "reconcileAuthReload E aclContent requirepass w =
     (let signature = authSignature E aclContent requirepass;
          last = lookup (Annotations (cluster w)) annAuthSignature
      in if last = signature then (Inr (), w)
         else if last = '''' then stampAuthSignature E signature w
         else case liveReloadAuth E aclContent requirepass w of
                (Inl e, w1) \<Rightarrow> (Inl e, w1)
              | (Inr False, w1) \<Rightarrow> (Inr (), w1)
              | (Inr True, w1) \<Rightarrow> stampAuthSignature E signature w1)"

definition aclSecretType :: string where "aclSecretType = ''valkey.io/acl''"
definition ACLFileKey :: string where "ACLFileKey = ''users.acl''"

definition reportApplied :: "OperationResult \<Rightarrow> string \<Rightarrow> world \<Rightarrow> world" where
  "reportApplied res name w =
     (case res of
        OpCreated \<Rightarrow> event EventNormal ''UsersAclCreated'' (''Created ACL Secret '' @ name) w
      | OpUpdated \<Rightarrow> event EventNormal ''UsersAclUpdated'' (''Updated ACL Secret '' @ name) w
      | OpNone \<Rightarrow> w)"

definition reconcileUsersACL :: "env \<Rightarrow> world \<Rightarrow> (go_error, unit) result \<times> world" where
  "reconcileUsersACL E w =
     (case ensureSystemPasswords E w of
        (Inl e, w1) \<Rightarrow> (Inl e, w1)
      | (Inr passwords, w1) \<Rightarrow>
          (case buildUserDefinedACLLines E w1 of
             Inl e \<Rightarrow> (Inl e, w1)
           | Inr userLines \<Rightarrow>
               (case resolveRequirepass E w1 of
                  (Inl e, w2) \<Rightarrow> (Inl e, w2)
                | (Inr defaultUserPassword, w2) \<Rightarrow>
                    let c = cluster w2; name = ACLSecretName (Name c);
                        content = RenderUsersACL (sha256 E) (ex_Enabled (Exporter (Spec c))) passwords userLines defaultUserPassword
                    in case applySecret E name
                              (\<lambda>s. Inr (s \<lparr> sec_Name := name, sec_Labels := Some (Labels (Name c) ComponentValkey), sec_Type := aclSecretType,
                                          sec_Data := Some [ACLFileKey \<mapsto> content] \<rparr>, ())) w2 of
                         (Inl (_, e), w3) \<Rightarrow> (Inl e, w3)
                       | (Inr (res, _), w3) \<Rightarrow> reconcileAuthReload E content defaultUserPassword (reportApplied res name w3))))"

subsection \<open>TLS\<close>

definition TLSSecretKeyCA :: string where "TLSSecretKeyCA = ''ca.crt''"
definition TLSSecretKeyCert :: string where "TLSSecretKeyCert = ''tls.crt''"
definition TLSSecretKeyKey :: string where "TLSSecretKeyKey = ''tls.key''"

definition certKeys :: "string list" where "certKeys = [TLSSecretKeyCA, TLSSecretKeyCert, TLSSecretKeyKey]"

definition ValidateSecretData :: "string \<Rightarrow> labels \<Rightarrow> string option" where
  "ValidateSecretData name data =
     (case find (\<lambda>k. lookup data k = '''') certKeys of
        Some k \<Rightarrow> Some (''tls secret '' @ quoted name @ '' missing or empty key '' @ quoted k)
      | None \<Rightarrow> None)"

definition tlsHashInput :: "labels \<Rightarrow> string" where
  "tlsHashInput data =
     concat (map (\<lambda>k. k @ '':'' @ Itoa (int (length (lookup data k))) @ '':'' @ lookup data k) certKeys)"

definition ComputeTLSHash :: "env \<Rightarrow> Secret \<Rightarrow> (go_error, string) result" where
  "ComputeTLSHash E s =
     (case ValidateSecretData (sec_Name s) (nil_map (sec_Data s)) of
        Some e \<Rightarrow> Inl (Err e)
      | None \<Rightarrow> Inr (sha256 E (tlsHashInput (nil_map (sec_Data s)))))"

definition LoadSecret :: "env \<Rightarrow> string \<Rightarrow> world \<Rightarrow> (go_error, Secret) result" where
  "LoadSecret E name w =
     (case getSecret E (trace w) name of
        Inl e \<Rightarrow> Inl (Err (''get tls secret '' @ quoted name @ '': '' @ api_text e))
      | Inr s \<Rightarrow> Inr s)"

definition dedupe :: "string list \<Rightarrow> string list" where
  "dedupe xs = foldl (\<lambda>out s. if s \<in> set out then out else out @ [s]) [] xs"

definition DNSNames :: "Cluster \<Rightarrow> string list" where
  "DNSNames c =
     (let svc = HeadlessServiceName (Name c); ns = Namespace c;
          names = [svc, svc @ ''.'' @ ns, svc @ ''.'' @ ns @ ''.svc'', svc @ ''.'' @ ns @ ''.svc.cluster.local'',
                   ''*.'' @ svc @ ''.'' @ ns @ ''.svc'', ''*.'' @ svc @ ''.'' @ ns @ ''.svc.cluster.local''];
          pods = concat (map (\<lambda>shard. concat (map (\<lambda>node.
                   let pod = NodeWorkloadName (NodeName (Name c) shard node)
                   in [pod @ ''.'' @ svc @ ''.'' @ ns @ ''.svc'', pod @ ''.'' @ svc @ ''.'' @ ns @ ''.svc.cluster.local''])
                   [0..Replicas (Spec c)])) [0..Shards_want (Spec c) - 1])
      in dedupe (names @ pods))"

definition certificateSpec :: "Cluster \<Rightarrow> IssuerRef \<Rightarrow> CertificateSpec" where
  "certificateSpec c issuer =
     \<lparr> crt_SecretName = TLSSecretName (Name c), crt_DNSNames = DNSNames c, crt_IssuerName = iss_Name issuer,
       crt_IssuerKind = (if iss_Kind issuer = '''' then ''Issuer'' else iss_Kind issuer) \<rparr>"

text \<open>
  \<open>IsNoCertManagerCRD\<close> of the error decides the text of the error; of the error values of the model only
  \<open>NotFound\<close> satisfies it.
\<close>

definition EnsureCertificate :: "env \<Rightarrow> IssuerRef \<Rightarrow> world \<Rightarrow> (string \<times> bool, bool) result \<times> world" where
  "EnsureCertificate E issuer w =
     (let c = cluster w; name = TLSSecretName (Name c);
          obj = ApplyCertificate name (Labels (Name c) ComponentValkey) (certificateSpec c issuer)
      in if iss_Name issuer = '''' then (Inl (''tls.certManager.issuerRef.name is empty'', False), w)
         else case apiWrite E obj w of
                (Some e, w1) \<Rightarrow>
                  (Inl (''createOrUpdate Certificate '' @ Namespace c @ ''/'' @ name @ '': '' @ api_text e, apierrorsIsNotFound (Some e)), w1)
              | (None, w1) \<Rightarrow> (Inr (opResult E (trace w) obj = OpCreated), w1))"

definition computeTLSHash :: "env \<Rightarrow> TLSConfig \<Rightarrow> world \<Rightarrow> (go_error, string) result" where
  "computeTLSHash E tls w =
     (case LoadSecret E (tlsSecretName (cluster w)) w of
        Inl e \<Rightarrow> if tls_SecretName tls \<noteq> '''' then Inl e else Inr (lookup (Annotations (cluster w)) AnnTLSHash)
      | Inr s \<Rightarrow> ComputeTLSHash E s)"

text \<open>The annotation with the hash is set on the cluster object in memory only.\<close>

definition stampClusterTLSHash :: "string \<Rightarrow> world \<Rightarrow> world" where
  "stampClusterTLSHash hash w =
     (if hash = '''' then w
      else annotate AnnTLSHash hash
             (if lookup (Annotations (cluster w)) AnnTLSHash \<noteq> hash
              then event EventNormal ''TLSHashUpdated'' ''TLS material changed; stamped tlsHash to roll pods'' w else w))"

definition ensureCertManager :: "env \<Rightarrow> TLSConfig \<Rightarrow> world \<Rightarrow> (go_error, unit) result \<times> world" where
  "ensureCertManager E tls w =
     (case tls_CertManager tls of
        None \<Rightarrow> (Inr (), w)
      | Some issuer \<Rightarrow>
          (case EnsureCertificate E issuer w of
             (Inl (e, noCRD), w1) \<Rightarrow>
               (Inl (Err (if noCRD then ''cert-manager mode requires cert-manager installed (Certificate CRD): '' @ e
                          else ''ensure cert-manager Certificate: '' @ e)), w1)
           | (Inr created, w1) \<Rightarrow>
               (Inr (), if created then event EventNormal ''TLSCertificateProvisioned''
                                          (''Provisioned cert-manager Certificate '' @ TLSSecretName (Name (cluster w))) w1
                        else w1)))"

definition reconcileTLS :: "env \<Rightarrow> world \<Rightarrow> (go_error, unit) result \<times> world" where
  "reconcileTLS E w =
     (case TLSSpec (Spec (cluster w)) of
        None \<Rightarrow> (Inr (), w)
      | Some tls \<Rightarrow>
          (case ensureCertManager E tls w of
             (Inl e, w1) \<Rightarrow> (Inl e, w1)
           | (Inr _, w1) \<Rightarrow>
               (case computeTLSHash E tls w1 of
                  Inl e \<Rightarrow> (Inl e, w1)
                | Inr hash \<Rightarrow> (Inr (), stampClusterTLSHash hash w1))))"

subsection \<open>Server configuration\<close>

definition defaultDHParamsKey :: string where "defaultDHParamsKey = ''dh-params.pem''"
definition dhParamsMountPath :: string where "dhParamsMountPath = ''/etc/valkey/tls-dhparams''"

definition tlsHardeningInput :: "Cluster \<Rightarrow> string \<times> string \<times> string \<times> string" where
  "tlsHardeningInput c =
     (case TLSSpec (Spec c) of
        None \<Rightarrow> ('''', '''', '''', '''')
      | Some tls \<Rightarrow>
          (tls_AuthClients tls, tls_Ciphers tls, tls_CipherSuites tls,
           case tls_DHParamsSecret tls of
             None \<Rightarrow> ''''
           | Some ref \<Rightarrow> if ref_Name ref = '''' then ''''
                         else dhParamsMountPath @ ''/'' @ (if ref_Key ref = '''' then defaultDHParamsKey else ref_Key ref)))"

definition configInput :: "Cluster \<Rightarrow> ConfigInput" where
  "configInput c =
     \<lparr> UserConfig = ConfigSpec (Spec c), Persistence = (PersistenceSpec (Spec c) \<noteq> None), TLS = (TLSSpec (Spec c) \<noteq> None), ACL = True,
       Requirepass = '''', DisableCommands = [], TLSAuthClients = '''', TLSCiphers = '''', TLSCipherSuites = '''', TLSDHParamsFile = '''' \<rparr>"

definition applySecurityConfigInput :: "env \<Rightarrow> ConfigInput \<Rightarrow> world \<Rightarrow> (go_error, ConfigInput) result \<times> world" where
  "applySecurityConfigInput E inp w =
     (case resolveRequirepass E w of
        (Inl e, w1) \<Rightarrow> (Inl e, w1)
      | (Inr requirepass, w1) \<Rightarrow>
          (case tlsHardeningInput (cluster w) of
             (authClients, ciphers, cipherSuites, dhParamsFile) \<Rightarrow>
               (Inr (inp \<lparr> Requirepass := requirepass,
                           DisableCommands := (case DisableCommandsSpec (Spec (cluster w)) of Some cs \<Rightarrow> cs | None \<Rightarrow> []),
                           TLSAuthClients := authClients, TLSCiphers := ciphers, TLSCipherSuites := cipherSuites,
                           TLSDHParamsFile := dhParamsFile \<rparr>), w1)))"

definition ensureConfigDefaults :: "string \<Rightarrow> world \<Rightarrow> (go_error, unit) result \<times> world" where
  "ensureConfigDefaults own w =
     (case CheckNSetDefaults own (cluster w) of
        (Some e, c) \<Rightarrow> (Inl (Err (''re-apply defaults for config render: '' @ e)), w \<lparr> cluster := c \<rparr>)
      | (None, c) \<Rightarrow> (Inr (), w \<lparr> cluster := c \<rparr>))"

definition ConfigFileKey :: string where "ConfigFileKey = ''valkey.conf''"
definition readinessScriptKey :: string where "readinessScriptKey = ''readiness-check.sh''"
definition livenessScriptKey :: string where "livenessScriptKey = ''liveness-check.sh''"
definition probeScript :: string where "probeScript = ''#!/bin/sh'' @ eol @ ''valkey-cli -p 6379 ping'' @ eol"

definition upsertConfigMap :: "env \<Rightarrow> string \<Rightarrow> world \<Rightarrow> (go_error, string) result \<times> world" where
  "upsertConfigMap E own w =
     (case ensureConfigDefaults own w of
        (Inl e, w1) \<Rightarrow> (Inl e, w1)
      | (Inr _, w1) \<Rightarrow>
          (case applySecurityConfigInput E (configInput (cluster w1)) w1 of
             (Inl e, w2) \<Rightarrow> (Inl e, w2)
           | (Inr inp, w2) \<Rightarrow>
               let c = cluster w2; name = ClusterConfigMapName (Name c)
               in case CreateOrUpdate E ''*v1.ConfigMap'' name
                         (ApplyConfigMap name (Labels (Name c) ComponentValkey)
                            [(ConfigFileKey, RenderServerConfig inp), (readinessScriptKey, probeScript), (livenessScriptKey, probeScript)]) w2 of
                    (Inl e, w3) \<Rightarrow> (Inl e, w3)
                  | (Inr res, w3) \<Rightarrow>
                      (Inr (ServerConfigRollHash (sha256 E) inp), onCreated res ''ConfigMapCreated'' (''Created ConfigMap '' @ name) w3)))"

subsection \<open>These steps change no topology\<close>

lemma harmless_applySecret [harmless_intros]: "harmless (\<lambda>w. applySecret E (n w) (m w) w)"
proof (rule harmlessI)
  fix w r w1
  assume a: "applySecret E (n w) (m w) w = (r, w1)"
  have c: "adds silent w w2 \<and> cluster w2 = cluster w" if "CreateOrUpdate E ty nm (ApplySecret s) w = (x, w2)" for ty nm s x w2
    using that by (auto simp: CreateOrUpdate_def apiWrite_def Let_def split: option.splits)
  show "adds silent w w1 \<and> cluster w1 = cluster w"
    using a by (auto simp: applySecret_def Let_def dest!: c split: sum.splits api_error.splits prod.splits)
qed

lemma applySecret_result: "applySecret E n m w = (r, w1) \<Longrightarrow> adds silent w w1 \<and> cluster w1 = cluster w"
  using harmlessD [OF harmless_applySecret [where n = "\<lambda>_. n" and m = "\<lambda>_. m"]] by blast

lemma harmless_passwords [harmless_intros]: "harmless (ensureSystemPasswords E)" "harmless (ensureDefaultUserPassword E n k)"
  by (rule harmlessI, auto simp: ensureSystemPasswords_def ensureDefaultUserPassword_def dest!: applySecret_result
      split: prod.splits sum.splits bool.splits)+

lemma harmless_requirepass [harmless_intros]: "harmless (resolveRequirepass E)"
  by (rule harmlessI)
     (auto simp: resolveRequirepass_def Let_def dest!: harmlessD [OF harmless_passwords(2)] split: option.splits sum.splits if_splits)

text \<open>Steps that may also change annotations of the cluster object.\<close>

definition annotating :: "(world \<Rightarrow> 'r \<times> world) \<Rightarrow> bool" where
  "annotating f \<longleftrightarrow> (\<forall>w. adds silent w (snd (f w)) \<and> (\<exists>a. cluster (snd (f w)) = cluster w \<lparr> Annotations := a \<rparr>))"

lemma annotatingD: "annotating f \<Longrightarrow> f w = (r, w1) \<Longrightarrow> adds silent w w1 \<and> (\<exists>a. cluster w1 = cluster w \<lparr> Annotations := a \<rparr>)"
  unfolding annotating_def by (erule allE [of _ w]) simp

lemma annotatingI:
  assumes "\<And>w r w1. f w = (r, w1) \<Longrightarrow> adds silent w w1 \<and> (\<exists>a. cluster w1 = cluster w \<lparr> Annotations := a \<rparr>)"
  shows "annotating f"
  unfolding annotating_def
proof
  fix w
  show "adds silent w (snd (f w)) \<and> (\<exists>a. cluster (snd (f w)) = cluster w \<lparr> Annotations := a \<rparr>)"
    using assms [of w "fst (f w)" "snd (f w)"] by simp
qed

lemma unannotated [simp]: "\<exists>a. (c :: Cluster) = c \<lparr> Annotations := a \<rparr>"
  by (rule exI [of _ "Annotations c"]) simp

lemma annotate_simps [simp]:
  "trace (annotate k v w) = trace w" "cluster (annotate k v w) = cluster w \<lparr> Annotations := (Annotations (cluster w))(k \<mapsto> v) \<rparr>"
  "adds P (annotate k v w) w' = adds P w w'" "adds P w (annotate k v w') = adds P w w'"
  by (simp_all add: annotate_def)

lemma stamp_result:
  "stampAuthSignature E sig w = (r, w1) \<Longrightarrow>
     adds silent w w1 \<and> cluster w1 = cluster w \<lparr> Annotations := (Annotations (cluster w))(annAuthSignature \<mapsto> sig) \<rparr>"
  by (auto simp: stampAuthSignature_def apiWrite_def Let_def adds_def annotate_def split: option.splits)

lemma reload_node_result:
  "reloadNodeAuth E addr pw w = (r, w1) \<Longrightarrow> adds silent w w1 \<and> cluster w1 = cluster w"
  by (auto simp: reloadNodeAuth_def command_def Let_def intro!: adds_act_right split: option.splits)

lemma harmless_reload_body [harmless_intros]: "harmless (reload_body E want pw node counts)"
  by (rule harmlessI)
     (auto simp: reload_body_def dest!: reload_node_result split: prod.splits option.splits sum.splits if_splits)

lemma live_reload_result:
  assumes "liveReloadAuth E content pw w = (r, w1)"
  shows "adds silent w w1 \<and> cluster w1 = cluster w"
proof (cases "listNodes E (trace w)")
  case (Inr nodes)
  obtain x w2 where l: "for_loop (reload_body E (parseACLUsers content) pw) nodes (0, 0, 0) w = (x, w2)" by fastforce
  have h: "adds silent w w2 \<and> cluster w2 = cluster w"
    using harmlessD [OF harmless_for_loop [where xs = "\<lambda>_. nodes", OF harmless_reload_body] l] .
  have "w1 = w2 \<or> (\<exists>k m. w1 = event EventNormal k m w2)"
    using assms Inr l unfolding liveReloadAuth_def
    by (cases x) (simp_all only: sum.case prod.case, auto split: prod.splits if_splits)
  with h show ?thesis by (auto intro: adds_event)
qed (use assms in \<open>simp add: liveReloadAuth_def\<close>)

lemma annotating_reload: "annotating (reconcileAuthReload E content pw)"
  by (rule annotatingI)
     (auto simp: reconcileAuthReload_def Let_def dest!: stamp_result live_reload_result
       intro: adds_trans split: if_splits prod.splits sum.splits bool.splits)

lemma reportApplied_result [simp]: "adds silent w (reportApplied res n w)" "cluster (reportApplied res n w) = cluster w"
  by (auto simp: reportApplied_def intro: adds_event split: OperationResult.split)

lemma annotating_usersACL: "annotating (reconcileUsersACL E)"
proof (rule annotatingI)
  fix w r w1
  assume run: "reconcileUsersACL E w = (r, w1)"
  obtain x w2 where p: "ensureSystemPasswords E w = (x, w2)" by fastforce
  note hp = harmlessD [OF harmless_passwords(1) p]
  obtain y w3 where q: "resolveRequirepass E w2 = (y, w3)" by fastforce
  note hq = harmlessD [OF harmless_requirepass q]
  have three: "adds silent w w3 \<and> cluster w3 = cluster w" using hp hq by (auto intro: adds_trans)
  have fin: "adds silent w v \<and> (\<exists>a. cluster v = cluster w \<lparr> Annotations := a \<rparr>)"
    if s: "applySecret E n m w3 = (Inr (res, u), w4)" and f: "reconcileAuthReload E c pw (reportApplied res n w4) = (r, v)"
    for n and m :: "Secret \<Rightarrow> (go_error, Secret \<times> unit) result" and res u w4 c pw v
  proof -
    have "adds silent w w4" "cluster w4 = cluster w" using applySecret_result [OF s] three by (auto intro: adds_trans)
    moreover have "adds silent w4 (reportApplied res n w4)" by simp
    ultimately have "adds silent w (reportApplied res n w4)" "cluster (reportApplied res n w4) = cluster w"
      by (auto intro: adds_trans)
    with annotatingD [OF annotating_reload f] show ?thesis by (auto intro: adds_trans)
  qed
  show "adds silent w w1 \<and> (\<exists>a. cluster w1 = cluster w \<lparr> Annotations := a \<rparr>)"
  proof (cases "\<exists>pws ls. x = Inr pws \<and> buildUserDefinedACLLines E w2 = Inr ls")
    case False
    with run p have "w1 = w2" unfolding reconcileUsersACL_def by (auto split: sum.splits)
    with hp show ?thesis by simp
  next
    case True
    then obtain pws ls where ls: "x = Inr pws" "buildUserDefinedACLLines E w2 = Inr ls" by blast
    show ?thesis
    proof (cases y)
      case (Inl e)
      with run p q ls have "w1 = w3" unfolding reconcileUsersACL_def by auto
      with three show ?thesis by simp
    next
      case (Inr pw)
      define n where "n = ACLSecretName (Name (cluster w3))"
      define c where "c = RenderUsersACL (sha256 E) (ex_Enabled (Exporter (Spec (cluster w3)))) pws ls pw"
      define m :: "Secret \<Rightarrow> (go_error, Secret \<times> unit) result" where "m = (\<lambda>s. Inr (s \<lparr> sec_Name := n,
        sec_Labels := Some (Labels (Name (cluster w3)) ComponentValkey), sec_Type := aclSecretType, sec_Data := Some [ACLFileKey \<mapsto> c] \<rparr>, ()))"
      obtain z w4 where a: "applySecret E n m w3 = (z, w4)" by fastforce
      have run': "(case applySecret E n m w3 of (Inl (_, e), w3) \<Rightarrow> (Inl e, w3)
          | (Inr (res, _), w3) \<Rightarrow> reconcileAuthReload E c pw (reportApplied res n w3)) = (r, w1)"
        using run p q ls Inr unfolding reconcileUsersACL_def m_def c_def n_def by (simp add: Let_def)
      show ?thesis
      proof (cases z)
        case (Inl e)
        with run' a applySecret_result [OF a] three show ?thesis by (auto intro: adds_trans split: prod.splits)
      next
        case (Inr v)
        obtain res where v: "v = (res, ())" by (cases v) auto
        show ?thesis using fin [of n m res "()" w4 c pw w1] run' a Inr v by simp
      qed
    qed
  qed
qed

lemma annotating_tls: "annotating (reconcileTLS E)"
proof (rule annotatingI)
  fix w r w1
  assume run: "reconcileTLS E w = (r, w1)"
  have c: "adds silent w w2 \<and> cluster w2 = cluster w" if "ensureCertManager E tls w = (x, w2)" for tls x w2
    using that
    by (auto simp: ensureCertManager_def EnsureCertificate_def apiWrite_def Let_def intro!: adds_event adds_act_right
        split: option.splits if_splits)
  have s: "adds silent v (stampClusterTLSHash h v) \<and> (\<exists>a. cluster (stampClusterTLSHash h v) = cluster v \<lparr> Annotations := a \<rparr>)" for h v
    by (auto simp: stampClusterTLSHash_def intro: adds_event)
  show "adds silent w w1 \<and> (\<exists>a. cluster w1 = cluster w \<lparr> Annotations := a \<rparr>)"
  proof (cases "TLSSpec (Spec (cluster w))")
    case (Some tls)
    obtain x w2 where e: "ensureCertManager E tls w = (x, w2)" by fastforce
    then have "w1 = w2 \<or> (\<exists>h. w1 = stampClusterTLSHash h w2)"
      using run Some by (auto simp: reconcileTLS_def split: sum.splits)
    then show ?thesis
    proof (elim disjE exE)
      fix h
      assume "w1 = stampClusterTLSHash h w2"
      then show ?thesis using c [OF e] s [of w2 h] by (auto intro: adds_trans)
    qed (use c [OF e] in simp)
  qed (use run in \<open>simp add: reconcileTLS_def\<close>)
qed

subsection \<open>The signature is stamped after verification\<close>

text \<open>The node was dialled, took the password and the ACL, and then listed users that match.\<close>

definition verified :: "env \<Rightarrow> (string \<times> aclUserRules) list \<Rightarrow> string \<Rightarrow> ValkeyNode \<Rightarrow> Action list \<Rightarrow> bool" where
  "verified E want pw n as \<longleftrightarrow> (\<exists>tr tr' addr c lines. dial E tr n = Some (addr, c) \<and> aclList E tr' addr = Inr lines \<and>
     nodeACLMatches lines want \<and> Engine addr (ConfigSet ''masterauth'' pw) None \<in> set as \<and> Engine addr ACLLoad None \<in> set as)"

lemma verified_mono: "verified E want pw n as \<Longrightarrow> set as \<subseteq> set bs \<Longrightarrow> verified E want pw n bs"
  unfolding verified_def by blast

lemma reload_body_verified:
  assumes "reload_body E want pw n (a, b, p) w = (Inr (a', b', p'), w1)"
  shows "p \<le> p' \<and> (p' = p \<longrightarrow> vn_PodIP n = '''' \<or> verified E want pw n (added w w1))"
proof (cases "vn_PodIP n = '''' \<or> dial E (trace w) n = None")
  case True
  with assms show ?thesis by (auto simp: reload_body_def split: if_splits)
next
  case False
  then obtain addr c where d: "dial E (trace w) n = Some (addr, c)" "vn_PodIP n \<noteq> ''''" by auto
  obtain x w2 where rl: "reloadNodeAuth E addr pw w = (x, w2)" by fastforce
  have cmds: "Engine addr (ConfigSet ''masterauth'' pw) None \<in> set (added w w2) \<and> Engine addr ACLLoad None \<in> set (added w w2)"
    if "x = None"
    using rl that unfolding reloadNodeAuth_def
    by (auto simp: command_def Let_def split: option.splits)
  show ?thesis
    using assms d rl cmds unfolding reload_body_def prod.case
    by (cases x; cases "aclList E (trace w2) addr") (auto simp: verified_def split: if_splits)
qed

lemma reload_loop_verified:
  assumes "for_loop (reload_body E want pw) ns (a, b, p) w = (Inr (a', b', p'), w1)"
  shows "p \<le> p' \<and> (p' = p \<longrightarrow> (\<forall>n \<in> set ns. vn_PodIP n = '''' \<or> verified E want pw n (added w w1)))"
  using assms
proof (induction ns arbitrary: a b p w)
  case (Cons n ns)
  obtain r w2 where st: "reload_body E want pw n (a, b, p) w = (r, w2)" by fastforce
  with Cons.prems obtain s where r: "r = Inr s" and rest: "for_loop (reload_body E want pw) ns s w2 = (Inr (a', b', p'), w1)"
    by (cases r) auto
  obtain a2 b2 p2 where s: "s = (a2, b2, p2)" by (cases s)
  note one = reload_body_verified [OF st [unfolded r s]] and IH = Cons.IH [OF rest [unfolded s]]
  have "adds silent w w2" using harmlessD [OF harmless_reload_body st] by simp
  moreover have "adds silent w2 w1" using harmlessD [OF harmless_for_loop [where xs = "\<lambda>_. ns", OF harmless_reload_body] rest] by simp
  ultimately have "added w w1 = added w w2 @ added w2 w1" by (rule added_trans)
  then have sub: "set (added w w2) \<subseteq> set (added w w1)" "set (added w2 w1) \<subseteq> set (added w w1)" by auto
  show ?case
  proof (intro conjI impI)
    show "p \<le> p'" using one IH by simp
    assume "p' = p"
    with one IH have e: "p2 = p" "p' = p2" by simp_all
    then have "vn_PodIP n = '''' \<or> verified E want pw n (added w w1)"
      using one verified_mono [OF _ sub(1)] by blast
    moreover have "\<forall>m \<in> set ns. vn_PodIP m = '''' \<or> verified E want pw m (added w w1)"
      using IH e verified_mono [OF _ sub(2)] by blast
    ultimately show "\<forall>m \<in> set (n # ns). vn_PodIP m = '''' \<or> verified E want pw m (added w w1)" by simp
  qed
qed simp

lemma live_reload_verified:
  assumes "liveReloadAuth E content pw w = (Inr True, w1)" "listNodes E (trace w) = Inr nodes" "n \<in> set nodes" "vn_PodIP n \<noteq> ''''"
  shows "verified E (parseACLUsers content) pw n (added w w1)"
proof -
  obtain x w2 where l: "for_loop (reload_body E (parseACLUsers content) pw) nodes (0, 0, 0) w = (x, w2)" by fastforce
  have "adds silent w w2" using harmlessD [OF harmless_for_loop [where xs = "\<lambda>_. nodes", OF harmless_reload_body] l] by simp
  obtain a b p where x: "x = Inr (a, b, p)" "\<not> p > 0" "\<exists>k m. w1 = event EventNormal k m w2"
    using assms(1,2) l unfolding liveReloadAuth_def
    by (cases x) (simp_all only: sum.case prod.case, auto split: prod.splits if_splits)
  from reload_loop_verified [OF l [unfolded x(1)]] x(2) assms(3,4) have "verified E (parseACLUsers content) pw n (added w w2)"
    by auto
  moreover have "set (added w w2) \<subseteq> set (added w w1)"
    using x(3) \<open>adds silent w w2\<close> by (auto simp: event_def)
  ultimately show ?thesis by (rule verified_mono)
qed


definition sample_dial :: "Action list \<Rightarrow> ValkeyNode \<Rightarrow> (string \<times> string scrape_client) option" where
  "sample_dial _ v = Some (vn_PodIP v, \<lparr> ClusterMyID = Inl '''', ClusterMyShardID = Inl '''', InfoReplication = Inl '''',
     ClusterInfo = Inl '''', ClusterNodes = Inl '''' \<rparr>)"


subsection \<open>Passwords\<close>

lemma random_password:
  "randomPassword E tr k n = Inr pw \<Longrightarrow> length pw = n \<and> set pw \<subseteq> set passwordAlphabet"
proof (induction n arbitrary: k pw)
  case (Suc n)
  have "0 < length passwordAlphabet" by (simp add: passwordAlphabet_def)
  then have "passwordAlphabet ! (i mod length passwordAlphabet) \<in> set passwordAlphabet" for i by simp
  with Suc show ?case by (fastforce split: sum.splits)
qed simp

text \<open>A password that is kept, or a new one of full length over the alphabet.\<close>

definition goodPassword :: "labels \<Rightarrow> string \<Rightarrow> string \<Rightarrow> bool" where
  "goodPassword stored user pw =
     (if lookup stored user \<noteq> '''' then pw = lookup stored user
      else length pw = passwordLength \<and> set pw \<subseteq> set passwordAlphabet)"

lemma fill_passwords:
  assumes "fillPasswords E tr k users data out = Inr (data', out')" "distinct users" "set users \<inter> fst ` set out = {}"
  shows "map fst out' = map fst out @ users \<and> (\<forall>u. u \<notin> set users \<longrightarrow> data' u = data u \<and> map_of out' u = map_of out u) \<and>
    (\<forall>u \<in> set users. map_of out' u = Some (lookup data' u) \<and> goodPassword data u (lookup data' u))"
  using assms
proof (induction users arbitrary: k data out)
  case (Cons u us)
  obtain k' d pw where rest: "fillPasswords E tr k' us d (out @ [(u, pw)]) = Inr (data', out')"
    and d: "lookup d u = pw" "\<And>v. v \<noteq> u \<Longrightarrow> d v = data v" "goodPassword data u pw"
  proof (cases "lookup data u = ''''")
    case True
    with Cons.prems(1) obtain pw where pw: "randomPassword E tr k passwordLength = Inr pw" by (auto split: sum.splits)
    show thesis
      by (rule that [of "k + passwordLength" "data(u \<mapsto> pw)" pw])
         (use Cons.prems(1) True pw random_password [OF pw] in \<open>auto simp: lookup_def goodPassword_def split: sum.splits\<close>)
  next
    case False
    show thesis
      by (rule that [of k data "lookup data u"]) (use Cons.prems(1) False in \<open>auto simp: goodPassword_def\<close>)
  qed
  have "distinct us" "set us \<inter> fst ` set (out @ [(u, pw)]) = {}" using Cons.prems by auto
  note IH = Cons.IH [OF rest this]
  have u: "u \<notin> set us" "u \<notin> fst ` set out" using Cons.prems by auto
  have g: "goodPassword d v p = goodPassword data v p" if "v \<noteq> u" for v p
    using d(2) [OF that] by (simp add: goodPassword_def lookup_def)
  have "data' u = d u" "map_of out' u = map_of (out @ [(u, pw)]) u" using IH u(1) by auto
  moreover have "map_of (out @ [(u, pw)]) u = Some pw" using u(2) by (simp add: map_add_def map_of_eq_None_iff [THEN iffD2])
  ultimately have self: "map_of out' u = Some (lookup data' u)" "goodPassword data u (lookup data' u)"
    using d by (simp_all add: lookup_def)
  have "goodPassword data v (lookup data' v)" if "v \<in> set us" for v
    using IH g [of v] u(1) that by auto
  then show ?case
    using IH self u d(2) by (auto simp: map_add_def split: option.splits)
qed simp

lemma applySecret_stores:
  assumes "applySecret E n m w = (Inr (res, out), w1)"
  obtains s0 s1 where "m s0 = Inr (s1, out)" "added w w1 = [Write (ApplySecret s1) None]"
    "nil_map (sec_Data s0) = (case getSecret E (trace w) n of Inr s \<Rightarrow> nil_map (sec_Data s) | Inl _ \<Rightarrow> Map.empty)"
  using assms unfolding applySecret_def
  by (auto simp: Let_def CreateOrUpdate_def apiWrite_def added_def nil_map_def
      split: sum.splits api_error.splits prod.splits option.splits)

text \<open>System passwords are stable: \<open>ensureSystemPasswords\<close> returns one password for each system user, the stored
  one if there is one and else a new one of 26 characters of the alphabet, and what it returns is what it stored;
  other keys of the Secret are kept.\<close>

theorem system_passwords_stable:
  assumes "ensureSystemPasswords E w = (Inr out, w1)"
    and stored: "stored = (case getSecret E (trace w) (SystemPasswordsSecretName (Name (cluster w))) of
                             Inr s \<Rightarrow> nil_map (sec_Data s) | Inl _ \<Rightarrow> Map.empty)"
  shows "map fst out = [SystemUserOperator, SystemUserExporter, SystemUserBackup] \<and>
    (\<forall>(user, pw) \<in> set out. goodPassword stored user pw) \<and>
    (\<exists>s. added w w1 = [Write (ApplySecret s) None] \<and> nil_map (sec_Data s) = stored ++ map_of out)"
proof -
  define users where "users = [SystemUserOperator, SystemUserExporter, SystemUserBackup]"
  have u: "distinct users"
    by (simp add: users_def SystemUserOperator_def SystemUserExporter_def SystemUserBackup_def)
  obtain s0 data where "nil_map (sec_Data s0) = stored" and fill: "fillPasswords E (trace w) 0 users stored [] = Inr (data, out)"
    and wr: "added w w1 = [Write (ApplySecret (prepareSecret (cluster w) s0 \<lparr> sec_Data := Some data \<rparr>)) None]"
    using assms unfolding ensureSystemPasswords_def Let_def users_def [symmetric]
    by (auto elim!: applySecret_stores simp: prepareSecret_def nil_map_def split: sum.splits prod.splits)
  note f = fill_passwords [OF fill u, simplified]
  have "distinct (map fst out)" using f u by simp
  then have g: "goodPassword stored user pw" if "(user, pw) \<in> set out" for user pw
  proof -
    have "user \<in> set users" using that f by (metis fst_conv image_eqI set_map)
    with f map_of_is_SomeI [OF \<open>distinct (map fst out)\<close> that] show ?thesis by auto
  qed
  have "data k = (stored ++ map_of out) k" for k
  proof (cases "k \<in> set users")
    case True
    with f have g1: "map_of out k = Some (lookup data k)" "goodPassword stored k (lookup data k)" by auto
    then have "lookup data k \<noteq> ''''" by (auto simp: goodPassword_def passwordLength_def split: if_splits)
    then have "data k = Some (lookup data k)" by (auto simp: lookup_def split: option.splits)
    with g1 show ?thesis by (simp add: map_add_def)
  next
    case False
    with f show ?thesis by (auto simp: map_add_def)
  qed
  then have "data = stored ++ map_of out" by blast
  with f g wr show ?thesis by (auto simp: users_def nil_map_def)
qed


theorem system_passwords_stable_witness:
  "case ensureSystemPasswords (calm \<lparr> getSecret := (\<lambda>_ n. Inr \<lparr> sec_Name = n, sec_Labels = None, sec_Type = '''',
            sec_Data = Some [SystemUserBackup \<mapsto> ''kept''] \<rparr>) \<rparr>) sample_world of
     (Inr out, _) \<Rightarrow> conf_get out SystemUserBackup = ''kept''
   | _ \<Rightarrow> False"
proof -
  define E where "E = calm \<lparr> getSecret := (\<lambda>_ n. Inr \<lparr> sec_Name = n, sec_Labels = None, sec_Type = '''',
            sec_Data = Some [SystemUserBackup \<mapsto> ''kept''] \<rparr>) \<rparr>"
  have "randomIndex E tr k = Inr 0" for tr k by (simp add: E_def calm_def)
  then have rand: "randomPassword E tr k n = Inr (replicate n (hd passwordAlphabet))" for tr k n
    by (induction n arbitrary: k) (simp_all add: hd_conv_nth passwordAlphabet_def)
  have "\<exists>d o'. fillPasswords E tr k us data out = Inr (d, o')" for tr k us data out
    by (induction us arbitrary: k data out) (simp_all add: rand)
  then obtain d o' where "fillPasswords E (trace sample_world) 0 [SystemUserOperator, SystemUserExporter, SystemUserBackup]
      [SystemUserBackup \<mapsto> ''kept''] [] = Inr (d, o')" by blast
  note fill = this
  have env: "getSecret E tr n = Inr \<lparr> sec_Name = n, sec_Labels = None, sec_Type = '''', sec_Data = Some [SystemUserBackup \<mapsto> ''kept''] \<rparr>"
    "api E tr a = None" for tr n a by (simp_all add: E_def calm_def)
  obtain out w1 where run: "ensureSystemPasswords E sample_world = (Inr out, w1)"
    by (simp add: ensureSystemPasswords_def applySecret_def env prepareSecret_def nil_map_def CreateOrUpdate_def apiWrite_def
        Let_def fill del: fillPasswords.simps)
  note all = system_passwords_stable [OF run refl]
  then have "map fst out = [SystemUserOperator, SystemUserExporter, SystemUserBackup]" by simp
  then obtain a b p where out: "out = [(SystemUserOperator, a), (SystemUserExporter, b), (SystemUserBackup, p)]"
    by (auto simp: Cons_eq_map_conv map_eq_Cons_conv)
  have "p = ''kept''" using all by (simp add: out E_def nil_map_def goodPassword_def lookup_def)
  then show ?thesis
    using run unfolding E_def [symmetric]
    by (simp add: out conf_get_def SystemUserOperator_def SystemUserExporter_def SystemUserBackup_def)
qed

subsection \<open>A stale ACL can pass verification\<close>

lemma parseACLLine_distinct: "distinct (map fst us) \<Longrightarrow> distinct (map fst (parseACLLine us line))"
  by (simp add: parseACLLine_def Let_def distinct_update)

lemma parseACLUsers_distinct: "distinct (map fst (parseACLUsers body))"
proof -
  have "distinct (map fst us) \<Longrightarrow> distinct (map fst (foldl parseACLLine us ls))" for us ls
    by (induction ls arbitrary: us) (auto simp: parseACLLine_distinct)
  then show ?thesis by (simp add: parseACLUsers_def)
qed

lemma equalACLRules_refl [simp]: "equalACLRules r r"
  by (simp add: equalACLRules_def tokenSetsEqual_def)

text \<open>The check after a reload cannot see that a user was removed: a node that still runs the old file passes
  it for the new file with any set of users dropped, so a revoked user stays while the change is recorded as applied.\<close>

theorem stale_acl_verifies:
  "nodeACLMatches lines (filter (\<lambda>(user, _). user \<notin> revoked) (parseACLUsers (Join lines [CHR 0x0A])))"
  unfolding nodeACLMatches_def Let_def
  by (auto simp: list_all_iff map_of_is_SomeI [OF parseACLUsers_distinct] split: option.splits)

subsection \<open>The TLS hash\<close>

lemma show_nat_inj: "show_nat m = show_nat n \<Longrightarrow> m = n"
proof -
  have v: "foldl (\<lambda>a c. a * 10 + digit_val c) 0 (show_nat k) = k" for k
  proof (induction k rule: show_nat.induct)
    case (1 k)
    show ?case
    proof (cases "k < 10")
      case True
      then show ?thesis by (simp add: show_nat.simps [of k])
    next
      case False
      with 1 have "foldl (\<lambda>a c. a * 10 + digit_val c) 0 (show_nat (k div 10)) = k div 10" by simp
      with False show ?thesis by (simp add: show_nat.simps [of k] mult.commute)
    qed
  qed
  show "show_nat m = show_nat n \<Longrightarrow> m = n" by (metis v)
qed

lemma sized_cancel:
  assumes "show_nat (length x) @ '':'' @ x @ r = show_nat (length y) @ '':'' @ y @ s"
  shows "x = y \<and> r = s"
proof -
  have no: "\<forall>c \<in> set (show_nat n). c \<noteq> CHR '':''" for n using show_nat_digits by fastforce
  have "takeWhile (\<lambda>c. c \<noteq> CHR '':'') (show_nat n @ CHR '':'' # t) = show_nat n" for n t
    using no by (simp add: takeWhile_append2 takeWhile_tail)
  then have "show_nat (length x) = show_nat (length y)"
    using arg_cong [OF assms, of "takeWhile (\<lambda>c. c \<noteq> CHR '':'')"] by simp
  with show_nat_inj have "length x = length y" by blast
  with assms show ?thesis by simp
qed

text \<open>The text that is hashed determines the three entries of the TLS Secret: two Secrets have the same one
  exactly if they agree on the CA, the certificate and the key.\<close>

theorem tls_hash_input_exact:
  "tlsHashInput a = tlsHashInput b \<longleftrightarrow> map (lookup a) certKeys = map (lookup b) certKeys"
proof
  assume eq: "tlsHashInput a = tlsHashInput b"
  let ?f = "\<lambda>d k. show_nat (length (lookup d k)) @ '':'' @ lookup d k"
  have "?f a TLSSecretKeyCA @ TLSSecretKeyCert @ '':'' @ ?f a TLSSecretKeyCert @ TLSSecretKeyKey @ '':'' @ ?f a TLSSecretKeyKey
      = ?f b TLSSecretKeyCA @ TLSSecretKeyCert @ '':'' @ ?f b TLSSecretKeyCert @ TLSSecretKeyKey @ '':'' @ ?f b TLSSecretKeyKey"
    using eq by (simp add: tlsHashInput_def certKeys_def Itoa_def)
  from sized_cancel [OF this [unfolded append_assoc]] have ca: "lookup a TLSSecretKeyCA = lookup b TLSSecretKeyCA"
    and r: "?f a TLSSecretKeyCert @ TLSSecretKeyKey @ '':'' @ ?f a TLSSecretKeyKey =
      ?f b TLSSecretKeyCert @ TLSSecretKeyKey @ '':'' @ ?f b TLSSecretKeyKey" by simp_all
  from sized_cancel [OF r [unfolded append_assoc]] have crt: "lookup a TLSSecretKeyCert = lookup b TLSSecretKeyCert"
    and r: "?f a TLSSecretKeyKey = ?f b TLSSecretKeyKey" by simp_all
  from r sized_cancel [of "lookup a TLSSecretKeyKey" "[]" "lookup b TLSSecretKeyKey" "[]"]
  have "lookup a TLSSecretKeyKey = lookup b TLSSecretKeyKey" by simp
  with ca crt show "map (lookup a) certKeys = map (lookup b) certKeys" by (simp add: certKeys_def)
qed (simp add: tlsHashInput_def certKeys_def)

subsection \<open>The configuration step\<close>

lemma upsertConfigMap_result:
  assumes "upsertConfigMap E own w = (r, w1)"
  shows "adds silent w w1 \<and> cluster w1 = snd (CheckNSetDefaults own (cluster w))"
proof -
  have cu: "adds silent v v' \<and> cluster v' = cluster v" if "CreateOrUpdate E ty n (ApplyConfigMap n l d) v = (x, v')" for ty n l d x v v'
    using that by (auto simp: CreateOrUpdate_def apiWrite_def Let_def split: option.splits)
  have sec: "adds silent v v' \<and> cluster v' = cluster v" if "applySecurityConfigInput E inp v = (x, v')" for inp v x v'
    using that by (auto simp: applySecurityConfigInput_def dest!: harmlessD [OF harmless_requirepass] split: prod.splits sum.splits)
  obtain err c where d: "CheckNSetDefaults own (cluster w) = (err, c)" by fastforce
  show ?thesis
  proof (cases err)
    case None
    define v where "v = w \<lparr> cluster := c \<rparr>"
    obtain x v1 where s: "applySecurityConfigInput E (configInput (cluster v)) v = (x, v1)" by fastforce
    have v: "ensureConfigDefaults own w = (Inr (), v)" "adds P w v1 = adds P v v1" "cluster v = c" for P
      using d None by (simp_all add: ensureConfigDefaults_def v_def adds_def)
    have v1: "adds silent w v1" "cluster v1 = snd (CheckNSetDefaults own (cluster w))" using sec [OF s] v d by simp_all
    show ?thesis
    proof (cases x)
      case (Inl e)
      with assms v s have "w1 = v1" by (simp add: upsertConfigMap_def)
      with v1 show ?thesis by simp
    next
      case (Inr inp)
      define name where "name = ClusterConfigMapName (Name (cluster v1))"
      obtain y v2 where u: "CreateOrUpdate E ''*v1.ConfigMap'' name (ApplyConfigMap name (Labels (Name (cluster v1)) ComponentValkey)
          [(ConfigFileKey, RenderServerConfig inp), (readinessScriptKey, probeScript), (livenessScriptKey, probeScript)]) v1 = (y, v2)"
        by fastforce
      have "w1 = v2 \<or> (\<exists>a b m. w1 = onCreated a b m v2)"
        using assms unfolding upsertConfigMap_def v(1) s Inr Let_def name_def [symmetric] prod.case sum.case u by (cases y) auto
      then show ?thesis using cu [OF u] v1 by (auto intro: adds_trans)
    qed
  next
    case (Some e)
    with assms d have "w1 = w \<lparr> cluster := c \<rparr>" by (auto simp: upsertConfigMap_def ensureConfigDefaults_def)
    with d show ?thesis by (simp add: adds_def)
  qed
qed

end
