(* ===== verification/Version_Check.thy ===== *)
theory Version_Check
  imports Auth_TLS Version
begin

text \<open>
  The periodic engine version check: the version service client
  (\<^verbatim>\<open>src/pkg/version/service/service.go\<close>, \<^verbatim>\<open>types.go\<close>) and the poll of the cluster controller
  (\<^verbatim>\<open>src/pkg/controller/perconavalkeycluster/versioncheck.go\<close>).

  A point in time is an integer; 0 is Go's zero time.  The cron library, the HTTP transport and the JSON
  decoder are parameters, fields of the record \<open>operator\<close> together with the build and the platform of the
  operator.  A cron schedule is its \<^verbatim>\<open>Next\<close> function, which answers the zero time if the schedule
  never fires.  The package-level registry of schedules is passed explicitly.
\<close>

subsection \<open>The version service\<close>

record VersionSet =
  vs_Engine :: string
  vs_Exporter :: string
  vs_Backup :: string

record VSRequest =
  rq_Product :: string
  rq_OperatorVersion :: string
  rq_CrVersion :: string
  rq_CurrentEngine :: string
  rq_KubernetesVersion :: string
  rq_Platform :: string
  rq_Apply :: string

record VSResponse =
  Recommended :: VersionSet
  Latest :: VersionSet

text \<open>The status code and the body, or the error that reading the body ends with; a transport error is the text that
  says whether building or sending the request failed.\<close>

type_synonym http_response = "int \<times> (string, string) result"

record operator =
  gitVersion :: string
  rawVersion :: string
  platform :: string
  cronParse :: "string \<Rightarrow> (string, int \<Rightarrow> int) result"
  httpPost :: "Action list \<Rightarrow> string \<Rightarrow> VSRequest \<Rightarrow> (string, http_response) result"
  strictDecode :: "string \<Rightarrow> (string, VSResponse) result"
  lenientDecode :: "string \<Rightarrow> (string, VSResponse) result"

definition DefaultEndpoint :: string where "DefaultEndpoint = ''https://check.percona.com''"
definition versionPath :: string where "versionPath = ''/versions/v1/valkey-operator''"
definition ErrUnreachable :: string where "ErrUnreachable = ''version service unreachable''"
definition ErrServiceError :: string where "ErrServiceError = ''version service error''"

definition normalizeEndpoint :: "string \<Rightarrow> string" where
  "normalizeEndpoint endpoint =
     (let e = TrimSpace endpoint in if e = '''' then DefaultEndpoint else TrimRight e (CHR ''/''))"

definition parseResponse :: "operator \<Rightarrow> http_response \<Rightarrow> (string, VSResponse) result" where
  "parseResponse Op resp =
     (case resp of (status, body) \<Rightarrow>
        if status < 200 \<or> status \<ge> 300
        then Inl (ErrServiceError @ '': status '' @ Itoa status @ '': '' @ TrimSpace (case body of Inr b \<Rightarrow> take 512 b | Inl _ \<Rightarrow> ''''))
        else case body of
               Inl e \<Rightarrow> Inl (ErrServiceError @ '': read body: '' @ e)
             | Inr b \<Rightarrow>
                 let raw = take (2 ^ 20) b
                 in if TrimSpace raw = '''' then Inl (ErrServiceError @ '': empty response body'')
                    else case (case strictDecode Op raw of Inr wr \<Rightarrow> Inr wr | Inl _ \<Rightarrow> lenientDecode Op raw) of
                           Inl e \<Rightarrow> Inl (ErrServiceError @ '': decode body: '' @ e)
                         | Inr out \<Rightarrow>
                             if vs_Engine (Recommended out) = '''' \<and> vs_Engine (Latest out) = ''''
                             then Inl (ErrServiceError @ '': response carried no engine image'')
                             else Inr out)"

definition Resolve :: "operator \<Rightarrow> Action list \<Rightarrow> string \<Rightarrow> VSRequest \<Rightarrow> (string, VSResponse) result" where
  "Resolve Op tr endpoint req =
     (if rq_OperatorVersion req = '''' then Inl (ErrServiceError @ '': empty operatorVersion in request'')
      else let url = normalizeEndpoint endpoint @ versionPath
           in case httpPost Op tr url req of
                Inl e \<Rightarrow> Inl (ErrUnreachable @ '': '' @ e)
              | Inr resp \<Rightarrow> parseResponse Op resp)"

subsection \<open>The registry of schedules\<close>

datatype versionCheckAction = actionDisabled | actionRecommended | actionLatest | actionLiteral

definition UpgradeApplyRecommended :: string where "UpgradeApplyRecommended = ''Recommended''"
definition UpgradeApplyLatest :: string where "UpgradeApplyLatest = ''Latest''"

definition applyPolicy :: "Cluster \<Rightarrow> versionCheckAction" where
  "applyPolicy c =
     (let a = TrimSpace (up_Apply (Upgrade (Spec c)))
      in if a = '''' \<or> a = UpgradeApplyDisabled then actionDisabled
         else if a = UpgradeApplyRecommended then actionRecommended
         else if a = UpgradeApplyLatest then actionLatest
         else actionLiteral)"

record vcEntry =
  vc_schedule :: "int \<Rightarrow> int"
  vc_cronText :: string
  vc_lastPoll :: int

type_synonym vcRegistry = "string \<rightharpoonup> vcEntry"

definition vcKey :: "Cluster \<Rightarrow> string" where
  "vcKey c = Namespace c @ ''/'' @ Name c"

definition vc_remove :: "string \<Rightarrow> vcRegistry \<Rightarrow> vcRegistry" where
  "vc_remove key reg = reg(key := None)"

definition vc_sync :: "operator \<Rightarrow> string \<Rightarrow> string \<Rightarrow> int \<Rightarrow> vcRegistry \<Rightarrow> (string, vcRegistry) result" where
  "vc_sync Op key cronText now reg =
     (if (case reg key of Some existing \<Rightarrow> vc_cronText existing = cronText | None \<Rightarrow> False) then Inr reg
      else case cronParse Op cronText of
             Inl e \<Rightarrow> Inl (''invalid upgradeOptions.schedule '' @ quoted cronText @ '': '' @ e)
           | Inr parsed \<Rightarrow>
               let anchor = (case reg key of Some existing \<Rightarrow> vc_lastPoll existing | None \<Rightarrow> now)
               in Inr (reg(key \<mapsto> \<lparr> vc_schedule = parsed, vc_cronText = cronText, vc_lastPoll = anchor \<rparr>)))"

text \<open>The loop of \<^verbatim>\<open>due\<close> over the firings up to \<open>now\<close>; it may not return.\<close>

partial_function (option) due_loop :: "(int \<Rightarrow> int) \<Rightarrow> int \<Rightarrow> int \<Rightarrow> int \<Rightarrow> int option" where
  "due_loop fires now anchor latest =
     (let n = fires anchor in if n > now then Some latest else due_loop fires now n n)"

definition due :: "string \<Rightarrow> int \<Rightarrow> vcRegistry \<Rightarrow> (bool \<times> vcRegistry) option" where
  "due key now reg =
     (case reg key of
        None \<Rightarrow> Some (False, reg)
      | Some e \<Rightarrow>
          (case due_loop (vc_schedule e) now (vc_lastPoll e) 0 of
             None \<Rightarrow> None
           | Some l \<Rightarrow> if l = 0 then Some (False, reg) else Some (True, reg(key \<mapsto> e \<lparr> vc_lastPoll := l \<rparr>))))"

subsection \<open>The poll\<close>

definition vsProduct :: string where "vsProduct = ''valkey-operator''"

definition engineTagOf :: "string \<Rightarrow> string" where
  "engineTagOf img =
     (case after_last (CHR '':'') img of
        None \<Rightarrow> ''''
      | Some t \<Rightarrow> if t \<noteq> '''' \<and> \<not> Contains t ''/'' then t else '''')"

definition vsRequest :: "operator \<Rightarrow> Cluster \<Rightarrow> VSRequest" where
  "vsRequest Op c =
     \<lparr> rq_Product = vsProduct, rq_OperatorVersion = Version (gitVersion Op) (rawVersion Op), rq_CrVersion = CrVersion (Spec c),
       rq_CurrentEngine = engineTagOf (Image (Spec c)), rq_KubernetesVersion = '''', rq_Platform = platform Op,
       rq_Apply = TrimSpace (up_Apply (Upgrade (Spec c))) \<rparr>"

definition pickVersionSet :: "versionCheckAction \<Rightarrow> VSResponse \<Rightarrow> VersionSet option" where
  "pickVersionSet a resp =
     (case a of
        actionLatest \<Rightarrow> Some (Latest resp)
      | actionRecommended \<Rightarrow> Some (Recommended resp)
      | actionLiteral \<Rightarrow> Some (Recommended resp)
      | actionDisabled \<Rightarrow> None)"

text \<open>The spec with the images of the set; an empty image keeps the old one.\<close>

definition pinned :: "VersionSet \<Rightarrow> ClusterSpec \<Rightarrow> ClusterSpec" where
  "pinned vs s =
     s \<lparr> Image := (if vs_Engine vs \<noteq> '''' then vs_Engine vs else Image s),
         Exporter := (Exporter s) \<lparr> ex_Image := (if vs_Exporter vs \<noteq> '''' then vs_Exporter vs else ex_Image (Exporter s)) \<rparr>,
         Backup := (Backup s) \<lparr> bk_Image := (if vs_Backup vs \<noteq> '''' then vs_Backup vs else bk_Image (Backup s)) \<rparr> \<rparr>"

definition applyResolvedImages :: "env \<Rightarrow> VersionSet \<Rightarrow> world \<Rightarrow> (string, bool) result \<times> world" where
  "applyResolvedImages E vs w =
     (let s = Spec (cluster w);
          changed = (vs_Engine vs \<noteq> '''' \<and> vs_Engine vs \<noteq> Image s \<or>
                     vs_Exporter vs \<noteq> '''' \<and> vs_Exporter vs \<noteq> ex_Image (Exporter s) \<or>
                     vs_Backup vs \<noteq> '''' \<and> vs_Backup vs \<noteq> bk_Image (Backup s));
          t = pinned vs s
      in if \<not> changed then (Inr False, w)
         else case apiWrite E (PatchImages (Image t) (ex_Image (Exporter t)) (bk_Image (Backup t))) w of
                (Some e, w1) \<Rightarrow> (Inl (''patch resolved engine pins: '' @ api_text e), w1)
              | (None, w1) \<Rightarrow> (Inr True, w1 \<lparr> cluster := (cluster w1) \<lparr> Spec := t \<rparr> \<rparr>))"

definition pollAndApply :: "operator \<Rightarrow> env \<Rightarrow> world \<Rightarrow> (go_error, unit) result \<times> world" where
  "pollAndApply Op E w =
     (let c = cluster w; policy = up_Apply (Upgrade (Spec c)) in
      case Resolve Op (trace w) (up_VersionServiceEndpoint (Upgrade (Spec c))) (vsRequest Op c) of
        Inl e \<Rightarrow> (Inr (), event EventWarning ''VersionCheckFailed'' (''version-service poll failed (retrying next window): '' @ e) w)
      | Inr resp \<Rightarrow>
          (case pickVersionSet (applyPolicy c) resp of
             Some target \<Rightarrow>
               if vs_Engine target = ''''
               then (Inr (), event EventWarning ''VersionCheckFailed'' (''version service returned no engine pin for apply='' @ quoted policy) w)
               else (case applyResolvedImages E target w of
                       (Inl e, w1) \<Rightarrow> (Inl (Err (''apply resolved version-service images: '' @ e)), w1)
                     | (Inr True, w1) \<Rightarrow>
                         (Inr (), event EventNormal ''NewEnginePinResolved'' (''resolved new engine pin '' @ vs_Engine target @
                            '' (apply='' @ quoted policy @ ''); engine roll armed'') w1)
                     | (Inr False, w1) \<Rightarrow> (Inr (), w1))
           | None \<Rightarrow>
               (Inr (), event EventWarning ''VersionCheckFailed'' (''version service returned no engine pin for apply='' @ quoted policy) w)))"

definition reconcileVersionCheck :: "operator \<Rightarrow> env \<Rightarrow> vcRegistry \<Rightarrow> world \<Rightarrow> ((go_error, unit) result \<times> vcRegistry \<times> world) option" where
  "reconcileVersionCheck Op E reg w =
     (let c = cluster w; key = vcKey c; now = wallNow E (trace w)
      in if applyPolicy c = actionDisabled \<or> Deleting c then Some (Inr (), vc_remove key reg, w)
         else case vc_sync Op key (up_Schedule (Upgrade (Spec c))) now reg of
                Inl e \<Rightarrow> Some (Inl (Err e), reg, w)
              | Inr reg1 \<Rightarrow>
                  (case due key now reg1 of
                     None \<Rightarrow> None
                   | Some (False, reg2) \<Rightarrow> Some (Inr (), reg2, w)
                   | Some (True, reg2) \<Rightarrow> (case pollAndApply Op E w of (r, w1) \<Rightarrow> Some (r, reg2, w1))))"

subsection \<open>The check is due once per firing\<close>

lemma due_loop_returns:
  assumes "\<And>a. a < fires a"
  shows "\<exists>l. due_loop fires now anchor latest = Some l \<and>
    (if fires anchor \<le> now then anchor < l \<and> l \<le> now \<and> now < fires l \<and> (\<exists>k. l = (fires ^^ Suc k) anchor) else l = latest)"
proof (induction "nat (now - anchor)" arbitrary: anchor latest rule: less_induct)
  case less
  show ?case
  proof (cases "fires anchor \<le> now")
    case True
    define n where "n = fires anchor"
    have "nat (now - n) < nat (now - anchor)" using assms [of anchor] True by (simp add: n_def)
    from less [OF this, of n] obtain l where l: "due_loop fires now n n = Some l"
      "if fires n \<le> now then n < l \<and> l \<le> now \<and> now < fires l \<and> (\<exists>k. l = (fires ^^ Suc k) n) else l = n" by auto
    have "due_loop fires now anchor latest = Some l"
      using True l(1) by (subst due_loop.simps) (simp add: n_def)
    moreover have "\<exists>k. l = (fires ^^ Suc k) anchor"
    proof (cases "fires n \<le> now")
      case True
      with l(2) obtain k where "l = (fires ^^ Suc k) n" by auto
      then have "l = (fires ^^ Suc (Suc k)) anchor" by (simp add: n_def funpow_swap1)
      then show ?thesis by blast
    next
      case False
      with l(2) have "l = (fires ^^ Suc 0) anchor" by (simp add: n_def)
      then show ?thesis by blast
    qed
    moreover have "anchor < l \<and> l \<le> now \<and> now < fires l"
      using l(2) True assms [of anchor] by (auto simp: n_def split: if_splits)
    ultimately show ?thesis using True by auto
  next
    case False
    then show ?thesis by (subst due_loop.simps) simp
  qed
qed

lemma due_loop_diverges: "due_loop (\<lambda>_. 0) now anchor latest = None" if "0 \<le> now"
proof (rule ccontr)
  assume "due_loop (\<lambda>_. 0) now anchor latest \<noteq> None"
  then obtain l where ret: "due_loop (\<lambda>_. 0) now anchor latest = Some l" by blast
  have "now < 0" if "(\<lambda>_. 0) = (\<lambda>_. 0 :: int)"
    by (rule due_loop.raw_induct [where P = "\<lambda>fires now _ _ _. fires = (\<lambda>_. 0) \<longrightarrow> now < 0", OF _ ret, rule_format])
       (auto simp: Let_def split: if_splits)
  with \<open>0 \<le> now\<close> show False by simp
qed



text \<open>A schedule that never fires stops the operator: cron parses, for instance, the 30th of February, and
  its next firing is the zero time, with which \<open>due\<close> does not return, whatever the registry holds.\<close>

theorem version_check_hangs:
  "due key (int now) (reg(key \<mapsto> \<lparr> vc_schedule = (\<lambda>_. 0), vc_cronText = text, vc_lastPoll = anchor \<rparr>)) = None"
  by (simp add: due_def due_loop_diverges)

subsection \<open>A poll changes the images only\<close>

lemma applyResolvedImages_result:
  assumes "applyResolvedImages E vs w = (r, w1)"
  shows "adds silent w w1 \<and> (cluster w1 = cluster w \<or> r = Inr True \<and> cluster w1 = cluster w \<lparr> Spec := pinned vs (Spec (cluster w)) \<rparr>)"
  using assms by (auto simp: applyResolvedImages_def apiWrite_def Let_def split: if_splits option.splits)

lemma pollAndApply_result:
  assumes "pollAndApply Op E w = (r, w1)"
  shows "adds silent w w1 \<and> r \<noteq> Inl Panic \<and> (cluster w1 = cluster w \<or>
    (\<exists>resp vs. Resolve Op (trace w) (up_VersionServiceEndpoint (Upgrade (Spec (cluster w)))) (vsRequest Op (cluster w)) = Inr resp \<and>
       pickVersionSet (applyPolicy (cluster w)) resp = Some vs \<and> vs_Engine vs \<noteq> '''' \<and>
       cluster w1 = cluster w \<lparr> Spec := pinned vs (Spec (cluster w)) \<rparr>))"
proof (cases "Resolve Op (trace w) (up_VersionServiceEndpoint (Upgrade (Spec (cluster w)))) (vsRequest Op (cluster w))")
  case (Inl e)
  then have "\<exists>m. w1 = event EventWarning ''VersionCheckFailed'' m w" "r = Inr ()"
    using assms unfolding pollAndApply_def by (auto simp: Let_def)
  then show ?thesis by (auto intro: adds_event)
next
  case (Inr resp)
  show ?thesis
  proof (cases "\<exists>vs. pickVersionSet (applyPolicy (cluster w)) resp = Some vs \<and> vs_Engine vs \<noteq> []")
    case True
    then obtain vs where vs: "pickVersionSet (applyPolicy (cluster w)) resp = Some vs" "vs_Engine vs \<noteq> []" by blast
    obtain x w2 where a: "applyResolvedImages E vs w = (x, w2)" by fastforce
    have "(w1 = w2 \<or> (\<exists>m. w1 = event EventNormal ''NewEnginePinResolved'' m w2)) \<and> r \<noteq> Inl Panic"
      using assms Inr vs a unfolding pollAndApply_def by (cases x) (auto simp: Let_def split: bool.splits)
    then show ?thesis using applyResolvedImages_result [OF a] Inr vs by (auto intro: adds_event)
  next
    case False
    then have "\<exists>m. w1 = event EventWarning ''VersionCheckFailed'' m w" "r = Inr ()"
      using assms Inr unfolding pollAndApply_def by (auto simp: Let_def split: option.splits)
    then show ?thesis by (auto intro: adds_event)
  qed
qed


subsection \<open>The version check returns\<close>

definition advancing :: "vcRegistry \<Rightarrow> bool" where
  "advancing reg \<longleftrightarrow> (\<forall>k e a. reg k = Some e \<longrightarrow> a < vc_schedule e a)"

lemma due_returns:
  assumes "advancing reg"
  shows "\<exists>fired reg1. due key now reg = Some (fired, reg1) \<and> advancing reg1"
proof (cases "reg key")
  case (Some e)
  then have inc: "a < vc_schedule e a" for a using assms by (auto simp: advancing_def)
  obtain l where "due_loop (vc_schedule e) now (vc_lastPoll e) 0 = Some l" using due_loop_returns [OF inc] by blast
  with Some assms inc show ?thesis by (auto simp: due_def advancing_def)
qed (use assms in \<open>auto simp: due_def\<close>)

lemma versionCheck_returns:
  assumes "\<forall>cron f a. cronParse Op cron = Inr f \<longrightarrow> a < f a" "advancing reg"
  shows "\<exists>r reg1 w1. reconcileVersionCheck Op E reg w = Some (r, reg1, w1) \<and> advancing reg1"
proof -
  let ?c = "cluster w" and ?now = "wallNow E (trace w)"
  consider "applyPolicy ?c = actionDisabled \<or> Deleting ?c"
    | e where "\<not> (applyPolicy ?c = actionDisabled \<or> Deleting ?c)" "vc_sync Op (vcKey ?c) (up_Schedule (Upgrade (Spec ?c))) ?now reg = Inl e"
    | reg1 where "\<not> (applyPolicy ?c = actionDisabled \<or> Deleting ?c)" "vc_sync Op (vcKey ?c) (up_Schedule (Upgrade (Spec ?c))) ?now reg = Inr reg1"
    by (cases "vc_sync Op (vcKey ?c) (up_Schedule (Upgrade (Spec ?c))) ?now reg") blast+
  then show ?thesis
  proof cases
    case 1
    then show ?thesis using assms(2) by (simp add: reconcileVersionCheck_def Let_def advancing_def vc_remove_def)
  next
    case 2
    then show ?thesis using assms(2) by (simp add: reconcileVersionCheck_def Let_def)
  next
    case 3
    have "advancing reg1"
      using 3(2) assms by (auto simp: vc_sync_def advancing_def Let_def split: if_splits sum.splits option.splits)
    then obtain fired reg2 where "due (vcKey ?c) ?now reg1 = Some (fired, reg2)" "advancing reg2" using due_returns by blast
    then show ?thesis using 3 by (cases fired) (simp_all add: reconcileVersionCheck_def Let_def split: prod.split)
  qed
qed

end
