(* ===== verification/Controller.thy ===== *)
theory Controller
  imports Version_Check
begin

text \<open>
  The cluster controller: one pass over a cluster (\<^verbatim>\<open>controller.go\<close> in
  \<^verbatim>\<open>src/pkg/controller/perconavalkeycluster\<close>) and its deletion (\<^verbatim>\<open>finalizer.go\<close>).

  The result of a pass is an outcome: the delay to the next pass in seconds, 0 if none is asked for, or an
  error.  The stages return the outcome that ends the pass (\<open>Inl\<close>) or hand over to the next stage (\<open>Inr\<close>).
  \<open>Reconcile\<close> is \<open>None\<close> if the pass does not return, which the loop over the firings of a schedule allows.
  A panic is not turned into a status.
\<close>

subsection \<open>Outcomes\<close>

datatype outcome = Requeue int | Fails go_error

type_synonym 'a stage = "world \<Rightarrow> (outcome, 'a) result \<times> world"

definition requeueFast :: int where "requeueFast = 2"
definition requeueSteady :: int where "requeueSteady = 30"

definition fail :: "env \<Rightarrow> string \<Rightarrow> go_error \<Rightarrow> world \<Rightarrow> outcome \<times> world" where
  "fail E reason e w =
     (case e of
        Panic \<Rightarrow> (Fails Panic, w)
      | Err msg \<Rightarrow> (Fails e, snd (writeStatus E (setCondition CondReady ConditionFalse reason msg (event EventWarning reason msg w)))))"

definition degrade :: "env \<Rightarrow> string \<Rightarrow> go_error \<Rightarrow> world \<Rightarrow> outcome \<times> world" where
  "degrade E reason e w =
     (case e of
        Panic \<Rightarrow> (Fails Panic, w)
      | Err msg \<Rightarrow> (Fails e, snd (writeStatus E (setCondition CondReady ConditionFalse reason msg
                      (setCondition CondDegraded ConditionTrue reason msg (event EventWarning reason msg w))))))"

text \<open>The pattern of all stages: a step, its error path, and what follows its result.\<close>

definition ends :: "outcome \<times> world \<Rightarrow> (outcome, 'a) result \<times> world" where
  "ends res = (case res of (out, w) \<Rightarrow> (Inl out, w))"

definition attempt :: "(world \<Rightarrow> (go_error, 'a) result \<times> world) \<Rightarrow> (go_error \<Rightarrow> world \<Rightarrow> outcome \<times> world)
    \<Rightarrow> ('a \<Rightarrow> 'b stage) \<Rightarrow> 'b stage" where
  "attempt step failed k w = (case step w of (Inl e, w1) \<Rightarrow> ends (failed e w1) | (Inr x, w1) \<Rightarrow> k x w1)"

definition saveStatus :: "env \<Rightarrow> world \<Rightarrow> outcome \<times> world" where
  "saveStatus E w = (case writeStatus E w of (Some e, w1) \<Rightarrow> (Fails (Err e), w1) | (None, w1) \<Rightarrow> (Requeue requeueFast, w1))"

definition progressRequeue :: "env \<Rightarrow> string \<Rightarrow> world \<Rightarrow> outcome \<times> world" where
  "progressRequeue E msg w = saveStatus E (setCondition CondProgressing ConditionTrue ''AddingNodes'' msg w)"

subsection \<open>Stages\<close>

definition recover :: "env \<Rightarrow> ClusterState \<Rightarrow> ValkeyNode list \<Rightarrow> unit stage" where
  "recover E st nodes =
     attempt (promoteOrphanedReplicas E st) (degrade E ''QuorumLost'')
       (\<lambda>acted w. if acted then ends (progressRequeue E ''promoting orphaned replicas'' w)
         else attempt (forgetStaleNodes E st nodes) (fail E ''NodeForgetFailed'')
                (\<lambda>acted w. if acted then ends (progressRequeue E ''forgetting stale nodes'' w) else (Inr (), w)) w)"

definition scale :: "env \<Rightarrow> ClusterState \<Rightarrow> ValkeyNode list \<Rightarrow> unit stage" where
  "scale E st nodes =
     attempt (handleScaleIn E st nodes) (fail E ''DrainFailed'')
       (\<lambda>acted w. if acted then ends (progressRequeue E ''scaling in: draining/deleting excess shards'' w)
         else attempt (rebalanceSlots E st) (fail E ''RebalanceFailed'')
                (\<lambda>acted w. if acted
                   then ends (saveStatus E (setCondition CondProgressing ConditionTrue ''RebalancingSlots'' ''rebalancing slots across shards'' w))
                   else (Inr (), w)) w)"

definition allNodesReady :: "ValkeyNode list \<Rightarrow> bool" where
  "allNodesReady nodes \<longleftrightarrow> nodes \<noteq> [] \<and> list_all vn_Ready nodes"

definition bootstrapJoin :: "env \<Rightarrow> ClusterState \<Rightarrow> ValkeyNode list \<Rightarrow> unit stage" where
  "bootstrapJoin E st nodes =
     attempt (reformRestoreTarget E st nodes) (fail E ''ClusterMeet'')
       (\<lambda>progressed w. if progressed then ends (progressRequeue E ''re-forming restore-seeded cluster'' w)
         else attempt (meetIsolatedNodes E st) (fail E ''ClusterMeet'')
       (\<lambda>met w. if met > 0 then ends (progressRequeue E ''introducing nodes via CLUSTER MEET'' w)
         else attempt (assignSlotsToPendingPrimaries E st nodes) (fail E ''SlotsUnassigned'')
       (\<lambda>assigned w. if assigned > 0 then ends (progressRequeue E ''assigning slots to primaries'' w)
         else attempt (replicatePendingReplicas E st nodes) (fail E ''MissingReplicas'')
       (\<lambda>replicated w. if replicated > 0 then ends (progressRequeue E ''attaching replicas'' w)
         else if \<not> AllReachableClusterStateOK st \<and> allNodesReady nodes
         then (case repairStaleGossip E st w of
                 (met, w1) \<Rightarrow> if met > 0 then ends (progressRequeue E ''repairing stale gossip via CLUSTER MEET'' w1) else (Inr (), w1))
         else (Inr (), w)) w) w) w)"

text \<open>\<open>own\<close> is the \<^verbatim>\<open>major.minor\<close> of the operator.\<close>

definition reconcileInfra :: "env \<Rightarrow> string \<Rightarrow> ValkeyNode list stage" where
  "reconcileInfra E own =
     attempt (upsertService E) (fail E ''ServiceError'') (\<lambda>_.
     attempt (reconcileExpose E) (fail E ''ExposeError'') (\<lambda>_.
     attempt (reconcileExposeAnnounce E) (fail E ''ExposeError'') (\<lambda>_.
     attempt (reconcilePodDisruptionBudget E) (fail E ''PodDisruptionBudgetError'') (\<lambda>_.
     attempt (reconcileNetworkPolicy E) (fail E ''NetworkPolicyError'') (\<lambda>_.
     attempt (reconcileUsersACL E) (fail E ''UsersAclError'') (\<lambda>_.
     attempt (reconcileTLS E) (degrade E ''TLSError'') (\<lambda>_.
     attempt (upsertConfigMap E own) (fail E ''ConfigMapError'') (\<lambda>configHash.
     attempt (\<lambda>w. (case listNodes E (trace w) of Inl e \<Rightarrow> Inl (Err e) | Inr nodes \<Rightarrow> Inr nodes, w)) (fail E ''ValkeyNodeListError'') (\<lambda>nodes.
     attempt (reconcileValkeyNodes E nodes configHash) (fail E ''UpdatingNodes'') (\<lambda>requeue w.
       if requeue
       then ends (saveStatus E (setCondition CondReady ConditionFalse ''UpdatingNodes'' ''ValkeyNodes not yet converged''
              (setCondition CondProgressing ConditionTrue (progressingReason (cluster w)) ''creating/updating ValkeyNodes one-at-a-time'' w)))
       else (Inr nodes, w)))))))))))"

definition clusterHost :: "Cluster \<Rightarrow> string" where
  "clusterHost c = HeadlessServiceName (Name c) @ ''.'' @ Namespace c @ ''.svc''"

text \<open>What follows the version check: the stages, which end in a scrape of a converged cluster, and its verification.\<close>

definition andThen :: "'a stage \<Rightarrow> ('a \<Rightarrow> 'b stage) \<Rightarrow> 'b stage" where
  "andThen f k w = (case f w of (Inl out, w1) \<Rightarrow> (Inl out, w1) | (Inr x, w1) \<Rightarrow> k x w1)"

definition converge :: "env \<Rightarrow> string \<Rightarrow> ClusterState stage" where
  "converge E own =
     andThen (reconcileInfra E own) (\<lambda>nodes w.
       case getValkeyClusterState E nodes w of
         None \<Rightarrow> ends (saveStatus E (setCondition CondReady ConditionFalse ''Initializing'' ''no ready nodes to scrape yet''
                   (setCondition CondProgressing ConditionTrue ''Initializing'' ''waiting for node podIPs'' w)))
       | Some st \<Rightarrow>
           andThen (recover E st nodes) (\<lambda>_.
           andThen (bootstrapJoin E st nodes) (\<lambda>_.
           andThen (scale E st nodes) (\<lambda>_ w. (Inr st, w)))) w)"

definition reconcileTopology :: "env \<Rightarrow> string \<Rightarrow> world \<Rightarrow> outcome \<times> world" where
  "reconcileTopology E own w =
     (case converge E own w of
        (Inl out, w1) \<Rightarrow> (out, w1)
      | (Inr st, w1) \<Rightarrow>
          (case verifyAndMarkReady E st w1 of
             (Inl e, w2) \<Rightarrow> (Fails e, w2)
           | (Inr ready, w2) \<Rightarrow> (Requeue (if ready then requeueSteady else requeueFast), w2)))"

definition reconcileCluster :: "operator \<Rightarrow> env \<Rightarrow> vcRegistry \<Rightarrow> world \<Rightarrow> (outcome \<times> vcRegistry \<times> world) option" where
  "reconcileCluster Op E reg w =
     (let w0 = w \<lparr> cluster := (cluster w) \<lparr> Status := (Status (cluster w)) \<lparr> Host := clusterHost (cluster w) \<rparr> \<rparr> \<rparr>
      in case reconcileVersionCheck Op E reg w0 of
           None \<Rightarrow> None
         | Some (Inl e, reg1, w1) \<Rightarrow> (case fail E ''VersionCheckFailed'' e w1 of (out, w2) \<Rightarrow> Some (out, reg1, w2))
         | Some (Inr _, reg1, w1) \<Rightarrow>
             (case reconcileTopology E (MajorMinor (gitVersion Op) (rawVersion Op)) w1 of (out, w2) \<Rightarrow> Some (out, reg1, w2)))"

subsection \<open>The version gate\<close>

definition crVersionNewerThanOperator :: "operator \<Rightarrow> Cluster \<Rightarrow> bool \<times> string" where
  "crVersionNewerThanOperator Op c =
     (if CrVersion (Spec c) = '''' then (False, '''')
      else if CompareVersion (gitVersion Op) (rawVersion Op) (CrVersion (Spec c)) < 0
      then (True, ''spec.crVersion '' @ CrVersion (Spec c) @ '' is newer than operator '' @ MajorMinor (gitVersion Op) (rawVersion Op))
      else (False, ''''))"

text \<open>\<open>Some\<close> halts the pass, with the error of the status write.\<close>

definition reconcileVersionGate :: "operator \<Rightarrow> env \<Rightarrow> world \<Rightarrow> string option option \<times> world" where
  "reconcileVersionGate Op E w =
     (let c = cluster w; latest = LastObservedCrVersion (Status c); cr = CrVersion (Spec c);
          own = MajorMinor (gitVersion Op) (rawVersion Op)
      in case crVersionNewerThanOperator Op c of (newer, msg) \<Rightarrow>
         if newer then (case writeStatus E (setCondition CondReady ConditionFalse ''UnsupportedCRVersion'' msg w) of (e, w1) \<Rightarrow> (Some e, w1))
         else if latest \<noteq> '''' \<and> CompareMajorMinor cr latest < 0
         then let msg = ''refusing crVersion downgrade '' @ cr @ '' -> '' @ latest @ '' (crVersion is monotonic)'';
                  w0 = w \<lparr> cluster := c \<lparr> Spec := (Spec c) \<lparr> CrVersion := latest \<rparr> \<rparr> \<rparr>
              in (case writeStatus E (setCondition CondReady ConditionFalse ''CrVersionDowngradeRejected'' msg
                         (setCondition CondDegraded ConditionTrue ''CrVersionDowngradeRejected'' msg
                            (event EventWarning ''CrVersionDowngradeRejected'' msg w0))) of (e, w1) \<Rightarrow> (Some e, w1))
         else if cr \<notin> set (AcceptedCrVersions own)
         then let msg = ''spec.crVersion '' @ cr @ '' is more than one minor behind operator '' @ own @ '' (accepted: '' @
                     Join (AcceptedCrVersions own) '', '' @ ''); step crVersion up one minor at a time''
              in (case writeStatus E (setCondition CondReady ConditionFalse ''CrVersionTooOld'' msg
                         (setCondition CondDegraded ConditionTrue ''CrVersionTooOld'' msg
                            (event EventWarning ''CrVersionTooOld'' msg w))) of (e, w1) \<Rightarrow> (Some e, w1))
         else (None, w))"

subsection \<open>Deletion\<close>

definition addFinalizer :: "string \<Rightarrow> string list \<Rightarrow> string list" where
  "addFinalizer f fs = (if f \<in> set fs then fs else fs @ [f])"

definition ensureFinalizers :: "env \<Rightarrow> world \<Rightarrow> (go_error, unit) result \<times> world" where
  "ensureFinalizers E w =
     (let fs = Finalizers (cluster w);
          fs' = addFinalizer FinalizerDeleteSSL (addFinalizer FinalizerDeletePodsInOrder fs)
      in if fs' = fs then (Inr (), w)
         else case apiWrite E (WriteFinalizers fs') (w \<lparr> cluster := (cluster w) \<lparr> Finalizers := fs' \<rparr> \<rparr>) of
                (Some e, w1) \<Rightarrow> (Inl (Err (''add cluster finalizers: '' @ api_text e)), w1)
              | (None, w1) \<Rightarrow> (Inr (), w1))"

definition teardownShard :: "ValkeyNode \<Rightarrow> int" where
  "teardownShard node = fst (Atoi (lookup (vn_Labels node) LabelShardIndex))"

text \<open>Sorted by descending shard index, nodes of one shard by descending node index.\<close>

definition nextTeardownNode :: "ValkeyNode list \<Rightarrow> ValkeyNode option" where
  "nextTeardownNode nodes =
     (if nodes = [] then None
      else let ordered = sort_key (\<lambda>n. - teardownShard n) (sort_key (\<lambda>n. - nodeIndexOf n) nodes)
           in case find (\<lambda>n. \<not> vn_Deleting n) ordered of Some n \<Rightarrow> Some n | None \<Rightarrow> Some (hd ordered))"

text \<open>The keys that \<open>Labels\<close> sets.\<close>

definition labelKeys :: "string list" where
  "labelKeys = [LabelAppName, LabelAppInstance, LabelAppManagedBy, LabelCluster, LabelAppComponent, LabelComponent]"

definition operatorOwnedTLSSecret :: "Secret \<Rightarrow> string \<Rightarrow> bool" where
  "operatorOwnedTLSSecret s c \<longleftrightarrow>
     list_all (\<lambda>k. lookup (nil_map (sec_Labels s)) k = lookup (Labels c ComponentValkey) k) labelKeys"

definition cleanupTLS :: "env \<Rightarrow> world \<Rightarrow> (string, unit) result \<times> world" where
  "cleanupTLS E w =
     (case TLSSpec (Spec (cluster w)) of
        None \<Rightarrow> (Inr (), w)
      | Some tls \<Rightarrow>
          if tls_CertManager tls = None then (Inr (), w)
          else let name = TLSSecretName (Name (cluster w))
               in case getSecret E (trace w) name of
                    Inl e \<Rightarrow> if apierrorsIsNotFound (Some e) then (Inr (), w)
                             else (Inl (''teardown: get TLS Secret '' @ name @ '': '' @ api_text e), w)
                  | Inr s \<Rightarrow>
                      if \<not> operatorOwnedTLSSecret s (Name (cluster w)) then (Inr (), w)
                      else case apiWrite E (DeleteSecret name) w of
                             (Some e, w1) \<Rightarrow>
                               if apierrorsIsNotFound (Some e)
                               then (Inr (), event EventNormal ''TLSSecretCleanedUp'' (''deleted orphaned operator-issued TLS Secret '' @ name) w1)
                               else (Inl (''teardown: delete TLS Secret '' @ name @ '': '' @ api_text e), w1)
                           | (None, w1) \<Rightarrow>
                               (Inr (), event EventNormal ''TLSSecretCleanedUp'' (''deleted orphaned operator-issued TLS Secret '' @ name) w1))"

definition handleDeletion :: "env \<Rightarrow> world \<Rightarrow> outcome \<times> world" where
  "handleDeletion E w =
     (if FinalizerDeletePodsInOrder \<notin> set (Finalizers (cluster w)) \<and> FinalizerDeleteSSL \<notin> set (Finalizers (cluster w))
      then (Requeue 0, w)
      else case listNodes E (trace w) of
             Inl e \<Rightarrow> fail E ''ValkeyNodeListError'' (Err e) w
           | Inr nodes \<Rightarrow>
               (case nextTeardownNode nodes of
                  Some n \<Rightarrow>
                    if \<not> vn_Deleting n
                    then (case apiWrite E (DeleteNode (vn_Name n)) w of (e, w1) \<Rightarrow>
                            if e \<noteq> None \<and> \<not> apierrorsIsNotFound e
                            then (Fails (Err (''ordered teardown delete '' @ vn_Name n @ '': '' @ (case e of Some x \<Rightarrow> api_text x | None \<Rightarrow> ''''))), w1)
                            else (Requeue requeueFast, event EventNormal ''ValkeyNodeDeleted'' (''ordered teardown deleted ValkeyNode '' @ vn_Name n) w1))
                    else (Requeue requeueFast, w)
                | None \<Rightarrow>
                    (case cleanupTLS E w of
                       (Inl e, w1) \<Rightarrow> (Fails (Err (''teardown TLS cleanup: '' @ e)), w1)
                     | (Inr _, w1) \<Rightarrow>
                         let fs = filter (\<lambda>f. f \<noteq> FinalizerDeletePodsInOrder \<and> f \<noteq> FinalizerDeleteSSL) (Finalizers (cluster w1))
                         in case apiWrite E (WriteFinalizers fs) (w1 \<lparr> cluster := (cluster w1) \<lparr> Finalizers := fs \<rparr> \<rparr>) of
                              (Some e, w2) \<Rightarrow> (Fails (Err (''remove cluster finalizers: '' @ api_text e)), w2)
                            | (None, w2) \<Rightarrow> (Requeue 0, w2))))"

subsection \<open>A pass\<close>

definition Reconcile :: "operator \<Rightarrow> env \<Rightarrow> vcRegistry \<Rightarrow> world \<Rightarrow> (outcome \<times> vcRegistry \<times> world) option" where
  "Reconcile Op E reg w =
     (case getCluster E (trace w) of
        Some e \<Rightarrow> Some (if apierrorsIsNotFound (Some e) then Requeue 0 else Fails (Err (api_text e)), reg, w)
      | None \<Rightarrow>
          (case CheckNSetDefaults (MajorMinor (gitVersion Op) (rawVersion Op)) (cluster w) of
             (Some e, c) \<Rightarrow> (case fail E ''ConfigMapError'' (Err e) (w \<lparr> cluster := c \<rparr>) of (out, w1) \<Rightarrow> Some (out, reg, w1))
           | (None, c) \<Rightarrow>
               (case reconcileVersionGate Op E (w \<lparr> cluster := c \<rparr>) of
                  (Some None, w1) \<Rightarrow> Some (Requeue 0, reg, w1)
                | (Some (Some e), w1) \<Rightarrow> Some (Fails (Err e), reg, w1)
                | (None, w1) \<Rightarrow>
                    if Deleting (cluster w1) then (case handleDeletion E w1 of (out, w2) \<Rightarrow> Some (out, reg, w2))
                    else case ensureFinalizers E w1 of
                           (Inl e, w2) \<Rightarrow> (case fail E ''Reconciling'' e w2 of (out, w3) \<Rightarrow> Some (out, reg, w3))
                         | (Inr _, w2) \<Rightarrow> reconcileCluster Op E reg w2)))"

subsection \<open>One kind of change per pass\<close>

text \<open>The kinds of topology changes that may go together in one pass.\<close>

definition passKinds :: "kind set set" where
  "passKinds = {{Creating, Promotion, Rolling}, {Forgetting}, {Assigning}, {Attaching}, {Removing, Moving}}"

definition changes :: "world \<Rightarrow> world \<Rightarrow> kind set" where
  "changes w w' = \<Union> (set_option ` change ` set (added w w'))"

definition one_kind :: "world \<Rightarrow> world \<Rightarrow> bool" where
  "one_kind w w' \<longleftrightarrow> (\<exists>K \<in> passKinds. adds (only K) w w')"

lemma changes_only: "adds (only K) w w' \<Longrightarrow> changes w w' \<subseteq> K"
  using adds_added [of "only K" w w'] by (fastforce simp: changes_def only_def list_all_iff)

lemma changes_quiet: "adds quiet w w' \<Longrightarrow> changes w w' = {}"
  using adds_added [of quiet w w'] by (fastforce simp: changes_def list_all_iff)

lemma one_kind_phase: "adds (only K) w w' \<Longrightarrow> L \<in> passKinds \<Longrightarrow> K \<subseteq> L \<Longrightarrow> one_kind w w'"
  using adds_only_mono one_kind_def by blast

lemma one_kind_quiet: "adds quiet w w' \<Longrightarrow> one_kind w w'"
  by (rule one_kind_phase [of "{}" _ _ "{Forgetting}"]) (auto simp: passKinds_def intro: adds_quiet_only)

lemma one_kind_before: "adds quiet w v \<Longrightarrow> one_kind v w' \<Longrightarrow> one_kind w w'"
  unfolding one_kind_def using adds_trans adds_quiet_only by blast

lemma one_kind_after: "one_kind w v \<Longrightarrow> adds quiet v w' \<Longrightarrow> one_kind w w'"
  unfolding one_kind_def using adds_trans adds_quiet_only by blast

lemma report_silent:
  "adds silent w (snd (saveStatus E w))" "adds silent w (snd (fail E r e w))" "adds silent w (snd (degrade E r e w))"
  "adds silent w (snd (progressRequeue E m w))"
proof -
  have s: "adds silent w (snd (writeStatus E v))" if "adds silent w v" for v
    using writeStatus_no_write [of E v "fst (writeStatus E v)" "snd (writeStatus E v)"] that by (auto intro: adds_trans)
  then have "adds silent w (snd (saveStatus E v))" if "adds silent w v" for v
    using that s [of v] by (cases "writeStatus E v"; cases "fst (writeStatus E v)") (auto simp: saveStatus_def)
  then show "adds silent w (snd (saveStatus E w))" "adds silent w (snd (progressRequeue E m w))"
    by (simp_all add: progressRequeue_def)
  show "adds silent w (snd (fail E r e w))" "adds silent w (snd (degrade E r e w))"
    by (cases e; simp add: fail_def degrade_def s adds_event)+
qed

lemma saved_silent: "trace v = trace w \<Longrightarrow> adds silent w (snd (saveStatus E v))"
  using report_silent(1) [of v E] by (simp add: adds_def)

lemmas report_quiet = report_silent [THEN adds_silent(1)]
lemmas saved_quiet = saved_silent [THEN adds_silent(1)]

text \<open>The end of a pass that has more to do: it changes no topology and does not claim a steady state.\<close>

definition report :: "(world \<Rightarrow> outcome \<times> world) \<Rightarrow> bool" where
  "report f \<longleftrightarrow> (\<forall>w. adds quiet w (snd (f w)) \<and> fst (f w) \<noteq> Requeue requeueSteady)"

lemma reportD: "report f \<Longrightarrow> f w = (out, w1) \<Longrightarrow> adds quiet w w1 \<and> out \<noteq> Requeue requeueSteady"
  unfolding report_def by (erule allE [of _ w]) simp

lemma save_busy: "fst (saveStatus E v) \<noteq> Requeue requeueSteady"
  by (simp add: saveStatus_def requeueFast_def requeueSteady_def split: prod.split option.split)

lemma reports:
  "report (fail E r e)" "report (degrade E r e)" "report (progressRequeue E m)"
  "report (\<lambda>w. saveStatus E (setCondition t st r m w))"
  "report (\<lambda>w. saveStatus E (setCondition t st r m (setCondition t' st' (r' w) m' w)))"
  unfolding report_def progressRequeue_def
  by (simp_all add: report_quiet saved_quiet save_busy)
     (simp_all add: fail_def degrade_def split: go_error.split)

text \<open>
  A stage that hands over has changed nothing; any stage makes changes of one kind, and does not end the pass
  with the claim of a steady state.
\<close>

definition ends_well :: "world \<Rightarrow> (outcome, 'a) result \<times> world \<Rightarrow> bool" where
  "ends_well w res \<longleftrightarrow> one_kind w (snd res) \<and> (\<forall>x. fst res = Inr x \<longrightarrow> adds quiet w (snd res)) \<and>
     fst res \<noteq> Inl (Requeue requeueSteady)"

definition stage_ok :: "'a stage \<Rightarrow> bool" where
  "stage_ok f \<longleftrightarrow> (\<forall>w. ends_well w (f w))"

lemma stage_okD: "stage_ok f \<Longrightarrow> f w = (r, w1) \<Longrightarrow> ends_well w (r, w1)"
  unfolding stage_ok_def by metis

lemma ends_simps [simp]: "fst (ends res) = Inl (fst res)" "snd (ends res) = snd res"
  by (simp_all add: ends_def split: prod.split)

lemma ends_well_before: "adds quiet w v \<Longrightarrow> ends_well v res \<Longrightarrow> ends_well w res"
  using one_kind_before adds_trans unfolding ends_well_def by blast

lemma ends_well_report: "report f \<Longrightarrow> one_kind w v \<Longrightarrow> ends_well w (ends (f v))"
  using one_kind_after unfolding ends_well_def report_def by auto

lemma stage_return: "stage_ok (\<lambda>w. (Inr x, w))"
  by (simp add: stage_ok_def ends_well_def one_kind_quiet)

lemma stage_ends: "report f \<Longrightarrow> stage_ok (\<lambda>w. ends (f w))"
  by (simp add: stage_ok_def ends_well_report one_kind_quiet)

lemma stage_if: "stage_ok f \<Longrightarrow> stage_ok g \<Longrightarrow> stage_ok (\<lambda>w. if P then f w else g w)"
  by (cases P) simp_all

lemma stage_quiet:
  assumes "\<And>w. adds quiet w (snd (step w))" "\<And>e. report (failed e)" "\<And>x. stage_ok (k x)"
  shows "stage_ok (attempt step failed k)"
  unfolding stage_ok_def
proof
  fix w
  obtain r w1 where s: "step w = (r, w1)" by fastforce
  have q: "adds quiet w w1" using assms(1) [of w] s by simp
  show "ends_well w (attempt step failed k w)"
  proof (cases r)
    case (Inl e)
    then show ?thesis using s ends_well_report [OF assms(2) one_kind_quiet [OF q]] by (simp add: attempt_def)
  next
    case (Inr x)
    then show ?thesis using s ends_well_before [OF q, of "k x w1"] assms(3) [of x] by (simp add: attempt_def stage_ok_def)
  qed
qed

text \<open>A phase in its stage: if it did nothing, the rest of the stage runs, otherwise the pass ends.\<close>

lemma stage_phase:
  assumes ph: "phase step (\<lambda>r. r = Inr z) K" and K: "L \<in> passKinds" "K \<subseteq> L"
    and failed: "\<And>e. report (failed e)" and rest: "stage_ok (k z)"
    and stop: "\<And>w x w1. step w = (Inr x, w1) \<Longrightarrow> x \<noteq> z \<Longrightarrow> \<exists>f. k x = (\<lambda>v. ends (f v)) \<and> report f"
  shows "stage_ok (attempt step failed k)"
  unfolding stage_ok_def
proof
  fix w
  obtain r w1 where s: "step w = (r, w1)" by fastforce
  have c: "one_kind w w1" using phase.confined_eq [OF ph s] K one_kind_phase by blast
  consider e where "r = Inl e" | "r = Inr z" | x where "r = Inr x" "x \<noteq> z" by (cases r) auto
  then show "ends_well w (attempt step failed k w)"
  proof cases
    case 1
    then show ?thesis using s ends_well_report [OF failed c] by (simp add: attempt_def)
  next
    case 2
    with phase.idle [OF ph, of w] s have "adds quiet w w1" by simp
    from ends_well_before [OF this, of "k z w1"] s 2 rest show ?thesis by (simp add: attempt_def stage_ok_def)
  next
    case 3
    with s stop [of w x w1] obtain f where "k x = (\<lambda>v. ends (f v))" "report f" by blast
    with s 3 ends_well_report [OF _ c, of f] show ?thesis by (simp add: attempt_def)
  qed
qed

lemma stop_ends: "P \<Longrightarrow> report f \<Longrightarrow> \<exists>f'. (\<lambda>w. if P then ends (f w) else g w) = (\<lambda>v. ends (f' v)) \<and> report f'"
  by auto

lemma passKinds_intros:
  "{Creating, Promotion, Rolling} \<in> passKinds" "{Forgetting} \<in> passKinds" "{Assigning} \<in> passKinds" "{Attaching} \<in> passKinds"
  "{Removing, Moving} \<in> passKinds"
  by (simp_all add: passKinds_def)

lemma recover_ok: "stage_ok (recover E st nodes)"
  unfolding recover_def
  by (intro stage_phase [OF promoting.phase_axioms passKinds_intros(1)] stage_phase [OF forgetting.phase_axioms passKinds_intros(2)]
      stage_if stage_return stage_ends reports stop_ends) auto

lemma scale_ok: "stage_ok (scale E st nodes)"
  unfolding scale_def
  by (intro stage_phase [OF scaling_in.phase_axioms passKinds_intros(5)] stage_phase [OF rebalancing.phase_axioms passKinds_intros(5)]
      stage_if stage_return stage_ends reports stop_ends) auto

lemma repair_ok:
  "stage_ok (\<lambda>w. case repairStaleGossip E st w of
     (met, w1) \<Rightarrow> if met > 0 then ends (progressRequeue E m w1) else (Inr (), w1))"
  unfolding stage_ok_def
proof
  fix w
  obtain met w1 where r: "repairStaleGossip E st w = (met, w1)" by fastforce
  have q: "adds quiet w w1" using gossip_repair.idle [of w E st] r by simp
  show "ends_well w (case repairStaleGossip E st w of
       (met, w1) \<Rightarrow> if met > 0 then ends (progressRequeue E m w1) else (Inr (), w1))"
    using q r ends_well_report [OF reports(3) one_kind_quiet [OF q]] by (simp add: ends_well_def one_kind_quiet)
qed

lemma tallied_positive: "tallied K (0::int) 0 w res \<Longrightarrow> res = (Inr x, w1) \<Longrightarrow> x \<noteq> 0 \<Longrightarrow> 0 < x"
  by (auto simp: tallied_def)

lemma bootstrapJoin_ok: "stage_ok (bootstrapJoin E st nodes)"
  unfolding bootstrapJoin_def
  by (intro stage_phase [OF reforming.phase_axioms passKinds_intros(3)] stage_quiet meetIsolatedNodes_quiet
      stage_phase [OF assigning.phase_axioms passKinds_intros(3)] stage_phase [OF attaching.phase_axioms passKinds_intros(4)]
      stage_if stage_return stage_ends reports stop_ends repair_ok)
     (auto dest: tallied_positive [OF assign_tallied_all] tallied_positive [OF replicate_tallied_all])

lemma silent_step: "harmless f \<Longrightarrow> adds quiet w (snd (f w))"
  using harmlessD [of f w "fst (f w)" "snd (f w)"] adds_silent(1) by simp

lemma annotating_step: "annotating f \<Longrightarrow> adds quiet w (snd (f w))"
  using annotatingD [of f w "fst (f w)" "snd (f w)"] adds_silent(1) by simp

lemma list_step: "adds quiet w (snd (r w, w))"
  by simp

lemma upsertConfigMap_quiet: "adds quiet w (snd (upsertConfigMap E own w))"
  using upsertConfigMap_result [of E own w "fst (upsertConfigMap E own w)" "snd (upsertConfigMap E own w)"] adds_silent(1) by simp

lemmas infra_steps = harmless_services [THEN silent_step] harmless_expose [THEN silent_step] harmless_announce [THEN silent_step]
  harmless_pdb [THEN silent_step] harmless_policy [THEN silent_step] annotating_usersACL [THEN annotating_step]
  annotating_tls [THEN annotating_step] upsertConfigMap_quiet list_step

lemma reconcileInfra_ok: "stage_ok (reconcileInfra E own)"
  unfolding reconcileInfra_def
  by (intro stage_quiet infra_steps stage_phase [OF nodes_step.phase_axioms passKinds_intros(1)]
      stage_if stage_return stage_ends reports stop_ends) auto

subsection \<open>The pass as a whole\<close>

lemma adds_from: "trace v = trace w \<Longrightarrow> adds P v w' \<Longrightarrow> adds P w w'"
  by (simp add: adds_def)

lemma verify_traces: "trace (observeShards st w) = trace w" "trace (readyStatus w) = trace w"
  by (simp_all add: observeShards_def readyStatus_def Let_def setStatus_def)

lemma verify_silent: "adds silent w (snd (verifyAndMarkReady E st w))"
proof (cases "healthy st (cluster w)")
  case True
  obtain e w2 where s: "writeStatus E (readyStatus (observeShards st w)) = (e, w2)" by fastforce
  have "trace (readyStatus (observeShards st w)) = trace w" by (simp add: verify_traces)
  then have "adds silent w w2" using writeStatus_no_write [OF s] adds_from by blast
  then show ?thesis unfolding verify_healthy [OF True s] by (auto intro: adds_event split: option.split)
next
  case False
  then obtain reason msg where v: "verifyAndMarkReady E st w = notReady E reason msg (observeShards st w)"
    using verify_unhealthy by blast
  define v where "v = setCondition CondProgressing ConditionTrue
     (progressingReason (cluster (setCondition CondReady ConditionFalse reason msg (observeShards st w)))) msg
     (setCondition CondReady ConditionFalse reason msg (observeShards st w))"
  obtain e w2 where s: "writeStatus E v = (e, w2)" by fastforce
  have "trace v = trace w" by (simp add: v_def verify_traces)
  then have "adds silent w w2" using writeStatus_no_write [OF s] by (auto intro: adds_from)
  then show ?thesis unfolding v notReady_def Let_def v_def [symmetric] s by (simp split: option.split)
qed

lemma stage_andThen:
  assumes "stage_ok f" "\<And>x. stage_ok (k x)"
  shows "stage_ok (andThen f k)"
  unfolding stage_ok_def
proof
  fix w
  obtain r w1 where f: "f w = (r, w1)" by fastforce
  note ok = stage_okD [OF assms(1) f]
  show "ends_well w (andThen f k w)"
  proof (cases r)
    case (Inl out)
    then show ?thesis using f ok by (simp add: andThen_def ends_well_def)
  next
    case (Inr x)
    with ok have "adds quiet w w1" by (simp add: ends_well_def)
    from ends_well_before [OF this, of "k x w1"] f Inr assms(2) [of x] show ?thesis by (simp add: andThen_def stage_ok_def)
  qed
qed

lemma stage_option:
  assumes "stage_ok f" "\<And>x. stage_ok (g x)"
  shows "stage_ok (\<lambda>w. case opt w of None \<Rightarrow> f w | Some x \<Rightarrow> g x w)"
  using assms unfolding stage_ok_def by (auto split: option.split)

lemma converge_ok: "stage_ok (converge E own)"
  unfolding converge_def
  by (intro stage_andThen stage_option reconcileInfra_ok recover_ok bootstrapJoin_ok scale_ok stage_return stage_ends reports)

lemma converge_scraped: "converge E own w = (Inr st, w1) \<Longrightarrow> \<exists>nodes v. getValkeyClusterState E nodes v = Some st"
  by (auto simp: converge_def andThen_def ends_def split: prod.splits sum.splits option.splits)

lemma reconcileTopology_result:
  assumes "reconcileTopology E own w = (out, w1)"
  shows "one_kind w w1 \<and> (out = Requeue requeueSteady \<longrightarrow> adds quiet w w1 \<and>
    (\<exists>nodes v st u. getValkeyClusterState E nodes v = Some st \<and> verifyAndMarkReady E st u = (Inr True, w1)))"
proof -
  obtain r v where c: "converge E own w = (r, v)" by fastforce
  note ok = stage_okD [OF converge_ok c, unfolded ends_well_def fst_conv snd_conv]
  show ?thesis
  proof (cases r)
    case (Inl o2)
    with assms c ok show ?thesis by (auto simp: reconcileTopology_def)
  next
    case (Inr st)
    obtain x w2 where v: "verifyAndMarkReady E st v = (x, w2)" by fastforce
    have "adds quiet w w2" using ok Inr verify_silent [of v E st] v adds_silent(1) adds_trans by (metis snd_conv)
    moreover have "w1 = w2" "out = Requeue requeueSteady \<longrightarrow> x = Inr True"
      using assms c Inr v by (auto simp: reconcileTopology_def requeueSteady_def requeueFast_def split: sum.splits if_splits)
    ultimately show ?thesis using converge_scraped c Inr v one_kind_quiet by blast
  qed
qed

lemma finalizers_kept [simp]:
  "Finalizers (applyDerivedState c) = Finalizers c" "Finalizers (setConditionC t st r m c) = Finalizers c"
  by (simp_all add: applyDerivedState_def setConditionC_def Let_def split: option.split)

text \<open>Events and status writes, which touch nothing but the status.\<close>

fun statusOnly :: "Action \<Rightarrow> bool" where
  "statusOnly (Event _ _ _) = True"
| "statusOnly (Write (WriteStatus _) _) = True"
| "statusOnly _ = False"

lemma statusOnly_silent: "adds statusOnly w w1 \<Longrightarrow> adds silent w w1"
proof (erule adds_mono)
  show "silent a" if "statusOnly a" for a
    using that by (cases a rule: statusOnly.cases) auto
qed

lemma status_written:
  assumes "(case writeStatus E v of (e, w2) \<Rightarrow> (Some e, w2)) = (r, w1)"
  shows "r \<noteq> None \<and> adds statusOnly v w1 \<and> cluster w1 = applyDerivedState (cluster v)"
proof -
  obtain e w2 where s: "writeStatus E v = (e, w2)" by fastforce
  with assms have "r = Some e" "w1 = w2" by simp_all
  with s adds_writeStatus [OF adds_refl s, of statusOnly] writeStatus_cluster [of E v] show ?thesis by simp
qed

text \<open>The versions that stop the pass.\<close>

definition gated :: "operator \<Rightarrow> Cluster \<Rightarrow> bool" where
  "gated Op c \<longleftrightarrow> fst (crVersionNewerThanOperator Op c) \<or>
     (LastObservedCrVersion (Status c) \<noteq> '''' \<and> CompareMajorMinor (CrVersion (Spec c)) (LastObservedCrVersion (Status c)) < 0) \<or>
     CrVersion (Spec c) \<notin> set (AcceptedCrVersions (MajorMinor (gitVersion Op) (rawVersion Op)))"

lemma gate_open: "\<not> gated Op (cluster w) \<Longrightarrow> reconcileVersionGate Op E w = (None, w)"
  by (auto simp: gated_def reconcileVersionGate_def Let_def split: prod.split)

lemma gate_writes:
  assumes "gated Op (cluster w)" "reconcileVersionGate Op E w = (r, w1)"
  obtains v where "(case writeStatus E v of (e, w2) \<Rightarrow> (Some e, w2)) = (r, w1)" "adds statusOnly w v"
    "Finalizers (cluster v) = Finalizers (cluster w)" "\<not> conditionTrue (cluster v) CondReady"
proof -
  obtain newer msg where n: "crVersionNewerThanOperator Op (cluster w) = (newer, msg)" by fastforce
  define late where "late = (LastObservedCrVersion (Status (cluster w)) \<noteq> '''' \<and>
     CompareMajorMinor (CrVersion (Spec (cluster w))) (LastObservedCrVersion (Status (cluster w))) < 0)"
  note ev = adds_event [of statusOnly, OF adds_refl]
  show thesis
  proof (cases newer)
    case True
    show thesis
      by (rule that [of "setCondition CondReady ConditionFalse ''UnsupportedCRVersion'' msg w"])
         (use assms(2) n True in \<open>simp_all add: reconcileVersionGate_def Let_def\<close>)
  next
    case old: False
    show thesis
    proof (cases late)
      case True
      with assms(2) n old obtain m where "(case writeStatus E (setCondition CondReady ConditionFalse ''CrVersionDowngradeRejected'' m
           (setCondition CondDegraded ConditionTrue ''CrVersionDowngradeRejected'' m (event EventWarning ''CrVersionDowngradeRejected'' m
             (w \<lparr> cluster := (cluster w) \<lparr> Spec := (Spec (cluster w)) \<lparr> CrVersion := LastObservedCrVersion (Status (cluster w)) \<rparr> \<rparr> \<rparr>)))) of
           (e, w2) \<Rightarrow> (Some e, w2)) = (r, w1)"
        unfolding reconcileVersionGate_def late_def [symmetric] Let_def by auto
      then show thesis by (rule that) (simp_all add: adds_event)
    next
      case False
      with assms n old obtain m where "(case writeStatus E (setCondition CondReady ConditionFalse ''CrVersionTooOld'' m
           (setCondition CondDegraded ConditionTrue ''CrVersionTooOld'' m (event EventWarning ''CrVersionTooOld'' m w))) of
           (e, w2) \<Rightarrow> (Some e, w2)) = (r, w1)"
        unfolding reconcileVersionGate_def gated_def late_def [symmetric] Let_def by auto
      then show thesis by (rule that) (simp_all add: adds_event)
    qed
  qed
qed

lemma gate_shut:
  assumes "gated Op (cluster w)" "reconcileVersionGate Op E w = (r, w1)"
  shows "r \<noteq> None \<and> adds statusOnly w w1 \<and> Finalizers (cluster w1) = Finalizers (cluster w) \<and> \<not> conditionTrue (cluster w1) CondReady"
  by (rule gate_writes [OF assms]) (use status_written in \<open>fastforce intro: adds_trans\<close>)

lemma ensureFinalizers_silent: "ensureFinalizers E w = (r, w1) \<Longrightarrow> adds silent w w1"
  by (auto simp: ensureFinalizers_def apiWrite_def Let_def intro!: adds_act_right split: if_splits option.splits)

lemma versionCheck_silent: "reconcileVersionCheck Op E reg w = Some (r, reg1, w1) \<Longrightarrow> adds silent w w1"
  by (auto simp: reconcileVersionCheck_def Let_def dest!: pollAndApply_result split: if_splits sum.splits option.splits prod.splits bool.splits)

lemma handleDeletion_kind:
  assumes "handleDeletion E w = (out, w1)"
  shows "adds (only {Removing}) w w1 \<and> out \<noteq> Requeue requeueSteady"
proof -
  have f: "adds (only {Removing}) w v \<and> o' \<noteq> Requeue requeueSteady" if "fail E r e w = (o', v)" for r e o' v
    using reportD [OF reports(1) that] adds_quiet_only by blast
  have c: "adds silent w v" if "cleanupTLS E w = (x, v)" for x v
    using that by (auto simp: cleanupTLS_def apiWrite_def Let_def intro!: adds_event adds_act_right
        split: option.splits if_splits sum.splits)
  show ?thesis
    using assms unfolding handleDeletion_def requeueSteady_def requeueFast_def
    by (auto simp: apiWrite_def Let_def only_kinds dest!: f [unfolded requeueSteady_def] c
        intro!: adds_event adds_act_right intro: adds_silent(3)
        split: if_splits sum.splits option.splits prod.splits)
qed

lemma reconcileCluster_result:
  assumes "reconcileCluster Op E reg w = Some (out, reg1, w1)"
  shows "one_kind w w1 \<and> (out = Requeue requeueSteady \<longrightarrow> adds quiet w w1 \<and>
    (\<exists>nodes v st u. getValkeyClusterState E nodes v = Some st \<and> verifyAndMarkReady E st u = (Inr True, w1)))"
proof -
  define w0 where "w0 = w \<lparr> cluster := (cluster w) \<lparr> Status := (Status (cluster w)) \<lparr> Host := clusterHost (cluster w) \<rparr> \<rparr> \<rparr>"
  obtain r reg2 w2 where v: "reconcileVersionCheck Op E reg w0 = Some (r, reg2, w2)"
    using assms unfolding reconcileCluster_def w0_def [symmetric] Let_def by (auto split: option.splits)
  have q: "adds quiet w w2" using versionCheck_silent [OF v] adds_silent(1) by (simp add: w0_def)
  show ?thesis
  proof (cases r)
    case (Inl e)
    with assms v have "fail E ''VersionCheckFailed'' e w2 = (out, w1)"
      unfolding reconcileCluster_def w0_def [symmetric] Let_def by (auto split: prod.splits)
    from reportD [OF reports(1) this] q have "adds quiet w w1" "out \<noteq> Requeue requeueSteady" by (auto intro: adds_trans)
    then show ?thesis by (simp add: one_kind_quiet)
  next
    case (Inr x)
    with assms v have "reconcileTopology E (MajorMinor (gitVersion Op) (rawVersion Op)) w2 = (out, w1)"
      unfolding reconcileCluster_def w0_def [symmetric] Let_def by (auto split: prod.splits)
    from reconcileTopology_result [OF this] q show ?thesis using one_kind_before adds_trans by blast
  qed
qed

text \<open>The ways a pass can go.\<close>

lemma Reconcile_cases:
  assumes "Reconcile Op E reg w = Some (out, reg1, w1)"
  obtains (absent) e where "getCluster E (trace w) = Some e" "w1 = w" "reg1 = reg" "out \<noteq> Requeue requeueSteady"
    | (invalid) e c where "fail E ''ConfigMapError'' (Err e) (w \<lparr> cluster := c \<rparr>) = (out, w1)" "reg1 = reg"
        "CheckNSetDefaults (MajorMinor (gitVersion Op) (rawVersion Op)) (cluster w) = (Some e, c)"
    | (gated) c r where "reconcileVersionGate Op E (w \<lparr> cluster := c \<rparr>) = (r, w1)" "gated Op c" "reg1 = reg" "out \<noteq> Requeue requeueSteady"
        "CheckNSetDefaults (MajorMinor (gitVersion Op) (rawVersion Op)) (cluster w) = (None, c)"
    | (deleting) c where "handleDeletion E (w \<lparr> cluster := c \<rparr>) = (out, w1)" "\<not> gated Op c" "Deleting c" "reg1 = reg"
        "CheckNSetDefaults (MajorMinor (gitVersion Op) (rawVersion Op)) (cluster w) = (None, c)"
    | (unfinalized) c e v where "ensureFinalizers E (w \<lparr> cluster := c \<rparr>) = (Inl e, v)" "fail E ''Reconciling'' e v = (out, w1)" "reg1 = reg"
        "CheckNSetDefaults (MajorMinor (gitVersion Op) (rawVersion Op)) (cluster w) = (None, c)"
    | (running) c v where "ensureFinalizers E (w \<lparr> cluster := c \<rparr>) = (Inr (), v)" "reconcileCluster Op E reg v = Some (out, reg1, w1)"
        "\<not> gated Op c" "\<not> Deleting c" "CheckNSetDefaults (MajorMinor (gitVersion Op) (rawVersion Op)) (cluster w) = (None, c)"
proof (cases "getCluster E (trace w)")
  case (Some e)
  with assms show thesis
    by (intro absent) (auto simp: Reconcile_def requeueSteady_def split: if_splits)
next
  case None
  obtain d c where d: "CheckNSetDefaults (MajorMinor (gitVersion Op) (rawVersion Op)) (cluster w) = (d, c)" by fastforce
  show thesis
  proof (cases d)
    case (Some e)
    with assms None d show thesis by (intro invalid) (auto simp: Reconcile_def split: prod.splits)
  next
    case d0: None
    obtain g v where g: "reconcileVersionGate Op E (w \<lparr> cluster := c \<rparr>) = (g, v)" by fastforce
    show thesis
    proof (cases "gated Op c")
      case True
      with gate_shut [of Op "w \<lparr> cluster := c \<rparr>" E g v] g have "g \<noteq> None" by simp
      with assms None d d0 g True show thesis
        by (intro gated [of c g]) (auto simp: Reconcile_def requeueSteady_def split: option.splits)
    next
      case False
      with gate_open [of Op "w \<lparr> cluster := c \<rparr>" E] g have gv: "g = None" "v = w \<lparr> cluster := c \<rparr>" by simp_all
      show thesis
      proof (cases "Deleting c")
        case True
        with assms None d d0 g gv False show thesis by (intro deleting) (auto simp: Reconcile_def split: prod.splits)
      next
        case nd: False
        obtain f u where f: "ensureFinalizers E (w \<lparr> cluster := c \<rparr>) = (f, u)" by fastforce
        show thesis
        proof (cases f)
          case (Inl e)
          with assms None d d0 g gv nd f have "fail E ''Reconciling'' e u = (out, w1)" "reg1 = reg"
            unfolding Reconcile_def by (auto split: prod.splits)
          with Inl f d d0 show thesis by (intro unfinalized) auto
        next
          case (Inr x)
          with assms None d d0 g gv nd f have "reconcileCluster Op E reg u = Some (out, reg1, w1)"
            unfolding Reconcile_def by auto
          with Inr f d d0 False nd show thesis by (intro running) auto
        qed
      qed
    qed
  qed
qed

lemma Reconcile_result:
  assumes "Reconcile Op E reg w = Some (out, reg1, w1)"
  shows "one_kind w w1 \<and> (out = Requeue requeueSteady \<longrightarrow> adds quiet w w1 \<and>
    (\<exists>nodes v st u. getValkeyClusterState E nodes v = Some st \<and> verifyAndMarkReady E st u = (Inr True, w1)))"
  using assms
proof (cases rule: Reconcile_cases)
  case (absent e)
  then show ?thesis by (simp add: one_kind_quiet)
next
  case (invalid e c)
  from reportD [OF reports(1) invalid(1)] show ?thesis by (simp add: one_kind_quiet)
next
  case (gated c r)
  then have "adds statusOnly w w1" using gate_shut [of Op "w \<lparr> cluster := c \<rparr>" E r w1] by simp
  with gated show ?thesis using statusOnly_silent adds_silent(1) one_kind_quiet by blast
next
  case (deleting c)
  from handleDeletion_kind [OF deleting(1)] show ?thesis
    using one_kind_phase [OF _ passKinds_intros(5), of "{Removing}"] by simp
next
  case (unfinalized c e v)
  from ensureFinalizers_silent [OF unfinalized(1)] have "adds quiet w v" by (simp add: adds_silent(1))
  with reportD [OF reports(1) unfinalized(2)] show ?thesis using adds_trans one_kind_quiet by blast
next
  case (running c v)
  from ensureFinalizers_silent [OF running(1)] have q: "adds quiet w v" by (simp add: adds_silent(1))
  from reconcileCluster_result [OF running(2)] one_kind_before [OF q] adds_trans [OF q] show ?thesis by blast
qed

text \<open>C1: A pass makes topology changes of one kind.  Whatever the engine, the API server and the clock answer,
  the accepted commands and writes of one pass over a cluster create or roll nodes (with the failover that
  precedes the roll of a primary), or promote replicas, or forget nodes, or assign slots, or attach replicas, or
  remove nodes and move slots, and never mix them.\<close>

theorem pass_one_kind:
  "\<exists>K \<in> {{Creating, Promotion, Rolling}, {Forgetting}, {Assigning}, {Attaching}, {Removing, Moving}}.
     case Reconcile Op E reg w of Some (out, reg1, w1) \<Rightarrow> changes w w1 \<subseteq> K | None \<Rightarrow> True"
proof (cases "Reconcile Op E reg w")
  case (Some res)
  obtain out reg1 w1 where res: "res = (out, reg1, w1)" by (cases res)
  from Reconcile_result [OF Some [unfolded res]] show ?thesis
    unfolding one_kind_def passKinds_def Some res option.case prod.case using changes_only by meson
qed auto

text \<open>C3: A rejected version stops everything, deletion included: if the version the cluster asks for is newer
  than the operator, older than the one last served, or outside the window, the pass writes only the status and
  events, the cluster is not ready, and its finalizers stay.  The gate comes before the deletion branch, so the
  deletion of such a cluster never completes.\<close>

theorem gate_stops_deletion:
  assumes "getCluster E (trace w) = None" "CheckNSetDefaults (MajorMinor (gitVersion Op) (rawVersion Op)) (cluster w) = (None, c)"
    and "gated Op c"
  shows "\<exists>out w1. Reconcile Op E reg w = Some (out, reg, w1) \<and> adds statusOnly w w1 \<and>
    Finalizers (cluster w1) = Finalizers (cluster w) \<and> \<not> conditionTrue (cluster w1) CondReady"
proof -
  obtain r w1 where g: "reconcileVersionGate Op E (w \<lparr> cluster := c \<rparr>) = (r, w1)" by fastforce
  note s = gate_shut [of Op "w \<lparr> cluster := c \<rparr>" E r w1, simplified, OF assms(3) g]
  then obtain e where "r = Some e" by blast
  then obtain out where "Reconcile Op E reg w = Some (out, reg, w1)"
    using assms g by (cases e) (auto simp: Reconcile_def)
  moreover have "Finalizers c = Finalizers (cluster w)" using assms(2) by (auto simp: CheckNSetDefaults_def Let_def)
  ultimately show ?thesis using s by auto
qed

subsection \<open>A sample operator\<close>

definition sample_operator :: operator where
  "sample_operator = \<lparr> gitVersion = '''', rawVersion = ''0.1.0'', platform = '''', cronParse = (\<lambda>_. Inr (\<lambda>a. a + 60)),
     httpPost = (\<lambda>_ _ _. Inl ''''), strictDecode = (\<lambda>_. Inl ''''), lenientDecode = (\<lambda>_. Inl '''') \<rparr>"

lemma gate_stops_deletion_witness:
  "\<exists>out w1. Reconcile sample_operator calm Map.empty (sample_world \<lparr> cluster := sample_cluster \<lparr> Deleting := True, Finalizers := [FinalizerDeleteSSL],
       Spec := sample_spec \<lparr> CrVersion := ''0.2'' \<rparr> \<rparr> \<rparr>) = Some (out, Map.empty, w1) \<and> Finalizers (cluster w1) = [FinalizerDeleteSSL] \<and>
     \<not> conditionTrue (cluster w1) CondReady"
proof -
  define w where "w = sample_world \<lparr> cluster := sample_cluster \<lparr> Deleting := True, Finalizers := [FinalizerDeleteSSL],
       Spec := sample_spec \<lparr> CrVersion := ''0.2'' \<rparr> \<rparr> \<rparr>"
  define c where "c = snd (CheckNSetDefaults (MajorMinor (gitVersion sample_operator) (rawVersion sample_operator)) (cluster w))"
  have "CheckNSetDefaults (MajorMinor (gitVersion sample_operator) (rawVersion sample_operator)) (cluster w) = (None, c)"
    by (simp add: c_def w_def CheckNSetDefaults_def defaulting validateBackupStorages_def sample_cluster_def sample_spec_def)
  moreover have "CrVersion (Spec c) = ''0.2''"
    by (simp add: c_def w_def CheckNSetDefaults_def defaulting sample_cluster_def sample_spec_def)
  then have "gated sample_operator c"
    by (simp add: gated_def crVersionNewerThanOperator_def sample_operator_def CompareVersion_def MajorMinor_def majorMinor_def Version_def
      showMajorMinor_def go_eval wrap64_def sign_def)
  moreover have "getCluster calm (trace w) = None" "Finalizers (cluster w) = [FinalizerDeleteSSL]"
    by (simp_all add: calm_def w_def)
  ultimately show ?thesis using gate_stops_deletion [of calm w sample_operator c Map.empty] unfolding w_def [symmetric] by auto
qed

subsection \<open>Teardown\<close>

definition teardownBefore :: "ValkeyNode \<Rightarrow> ValkeyNode \<Rightarrow> bool" where
  "teardownBefore a b \<longleftrightarrow> teardownShard b < teardownShard a \<or> teardownShard a = teardownShard b \<and> nodeIndexOf b \<le> nodeIndexOf a"

lemma nextTeardownNode_result:
  assumes "nextTeardownNode nodes = Some n"
  shows "n \<in> set nodes \<and> (vn_Deleting n \<longrightarrow> list_all vn_Deleting nodes) \<and>
    (\<forall>m \<in> set nodes. \<not> vn_Deleting m \<longrightarrow> teardownBefore n m)"
proof -
  define ordered where "ordered = sort_key (\<lambda>n. - teardownShard n) (sort_key (\<lambda>n. - nodeIndexOf n) nodes)"
  have s: "sorted_wrt teardownBefore ordered"
    using sorted_sort_key_lex [of "\<lambda>n. - teardownShard n" "\<lambda>n. - nodeIndexOf n" nodes]
    unfolding ordered_def by (rule sorted_wrt_mono_rel [rotated]) (auto simp: teardownBefore_def)
  have set: "set ordered = set nodes" by (simp add: ordered_def)
  have eq: "find (\<lambda>n. \<not> vn_Deleting n) ordered = Some n \<or> find (\<lambda>n. \<not> vn_Deleting n) ordered = None \<and> n = hd ordered \<and> nodes \<noteq> []"
    using assms by (simp add: nextTeardownNode_def Let_def ordered_def split: if_splits option.splits)
  then show ?thesis
  proof
    assume f: "find (\<lambda>n. \<not> vn_Deleting n) ordered = Some n"
    then have "n \<in> set nodes" "\<not> vn_Deleting n" unfolding find_Some_iff set [symmetric] by auto
    moreover have "teardownBefore n m" if "m \<in> set nodes" "\<not> vn_Deleting m" for m
      using find_sorted_wrt [OF s f] that set by (cases "m = n") (simp_all add: teardownBefore_def)
    ultimately show ?thesis by blast
  next
    assume f: "find (\<lambda>n. \<not> vn_Deleting n) ordered = None \<and> n = hd ordered \<and> nodes \<noteq> []"
    then have all: "list_all vn_Deleting nodes" using set unfolding find_None_iff list_all_iff by blast
    have "ordered \<noteq> []" using set f by auto
    then have "n \<in> set nodes" using f set by (metis hd_in_set)
    with all show ?thesis by (simp add: list_all_iff)
  qed
qed

lemma nextTeardownNode_None: "nextTeardownNode nodes = None \<longleftrightarrow> nodes = []"
  by (auto simp: nextTeardownNode_def Let_def split: option.splits)

definition deletions :: "world \<Rightarrow> world \<Rightarrow> string list" where
  "deletions w w' = List.map_filter (\<lambda>a. case a of Write (DeleteNode n) _ \<Rightarrow> Some n | _ \<Rightarrow> None) (added w w')"

definition spares :: "Action \<Rightarrow> bool" where
  "spares a \<longleftrightarrow> (case a of Write (DeleteNode _) _ \<Rightarrow> False | _ \<Rightarrow> True)"

lemma spares_simps [simp]: "spares (Event t r m)" "spares (Write (DeleteSecret n) e)" "spares (Write (WriteFinalizers fs) e)"
  by (simp_all add: spares_def)

lemma deletions_spares: "adds spares w w' \<Longrightarrow> deletions w w' = []"
  by (auto simp: adds_iff deletions_def list_all_iff map_filter_def filter_empty_conv spares_def split: Action.splits ApiWrite.splits)

definition finalized :: "Cluster \<Rightarrow> bool" where
  "finalized c \<longleftrightarrow> FinalizerDeletePodsInOrder \<notin> set (Finalizers c) \<and> FinalizerDeleteSSL \<notin> set (Finalizers c)"

lemma cleanupTLS_spares: "cleanupTLS E w = (x, v) \<Longrightarrow> adds spares w v \<and> cluster v = cluster w"
  by (auto simp: cleanupTLS_def apiWrite_def Let_def intro!: adds_event adds_act_right
        split: option.splits if_splits sum.splits)

lemma handleDeletion_delete:
  assumes "\<not> finalized (cluster w)" "listNodes E (trace w) = Inr nodes" "nextTeardownNode nodes = Some n" "\<not> vn_Deleting n"
  shows "deletions w (snd (handleDeletion E w)) = [vn_Name n] \<and> cluster (snd (handleDeletion E w)) = cluster w"
  using assms by (auto simp: handleDeletion_def finalized_def apiWrite_def Let_def deletions_def added_def event_def act_def map_filter_simps)

lemma handleDeletion_last:
  assumes "\<not> finalized (cluster w)" "listNodes E (trace w) = Inr []" "handleDeletion E w = (out, w1)"
  shows "deletions w w1 = [] \<and> (out = Requeue 0 \<longrightarrow> finalized (cluster w1))"
proof -
  obtain x v where c: "cleanupTLS E w = (x, v)" by fastforce
  note s = cleanupTLS_spares [OF c]
  have n: "nextTeardownNode [] = None" by (simp add: nextTeardownNode_None)
  define fs where "fs = filter (\<lambda>f. f \<noteq> FinalizerDeletePodsInOrder \<and> f \<noteq> FinalizerDeleteSSL) (Finalizers (cluster v))"
  define v1 where "v1 = v \<lparr> cluster := (cluster v) \<lparr> Finalizers := fs \<rparr> \<rparr>"
  define v2 where "v2 = act (Write (WriteFinalizers fs) (api E (trace v1) (WriteFinalizers fs))) v1"
  have v2: "adds spares w v2" "finalized (cluster v2)"
    using s by (auto simp: v2_def v1_def finalized_def fs_def intro: adds_act_right)
  have "(out, w1) = (case x of Inl e \<Rightarrow> (Fails (Err (''teardown TLS cleanup: '' @ e)), v)
     | Inr _ \<Rightarrow> (case api E (trace v1) (WriteFinalizers fs) of Some e \<Rightarrow> (Fails (Err (''remove cluster finalizers: '' @ api_text e)), v2)
        | None \<Rightarrow> (Requeue 0, v2)))"
    using assms(1) unfolding assms(3) [symmetric] handleDeletion_def c assms(2) finalized_def
    by (auto simp: n apiWrite_def Let_def v2_def v1_def fs_def split: sum.split option.split)
  then show ?thesis using s v2 by (auto simp: deletions_spares split: sum.splits option.splits)
qed

text \<open>C4: Teardown is ordered, one node per pass.  On a cluster under deletion that still has a finalizer of the
  operator, a pass deletes exactly one node as long as a node is not yet being deleted, and that node comes last in
  the order of shard and node index among those; it touches no finalizer.  While all are being deleted it waits
  and changes nothing.  It reports the end of the deletion only when no node is left and the finalizers are gone.\<close>

theorem teardown_ordered:
  assumes "handleDeletion E w = (out, w1)" "listNodes E (trace w) = Inr nodes" "\<not> finalized (cluster w)"
  shows "if list_all vn_Deleting nodes
    then deletions w w1 = [] \<and> (nodes \<noteq> [] \<longrightarrow> w1 = w) \<and> (out = Requeue 0 \<longrightarrow> nodes = [] \<and> finalized (cluster w1))
    else cluster w1 = cluster w \<and> (\<exists>n \<in> set nodes. \<not> vn_Deleting n \<and> deletions w w1 = [vn_Name n] \<and>
           (\<forall>m \<in> set nodes. \<not> vn_Deleting m \<longrightarrow> teardownBefore n m))"
proof (cases "nextTeardownNode nodes")
  case None
  then have "nodes = []" by (simp add: nextTeardownNode_None)
  with handleDeletion_last [OF assms(3) _ assms(1)] assms(2) show ?thesis by simp
next
  case (Some n)
  note r = nextTeardownNode_result [OF Some]
  have ne: "nodes \<noteq> []" using Some nextTeardownNode_None [of nodes] by auto
  show ?thesis
  proof (cases "vn_Deleting n")
    case True
    then have "out = Requeue requeueFast" "w1 = w"
      using assms Some by (auto simp: handleDeletion_def finalized_def)
    with True r ne show ?thesis by (simp add: requeueFast_def deletions_def map_filter_simps)
  next
    case False
    with handleDeletion_delete [OF assms(3,2) Some] r assms(1) show ?thesis by (auto simp: list_all_iff)
  qed
qed

text \<open>The nodes an API server lists that removes deleted ones at once.\<close>

definition present :: "ValkeyNode list \<Rightarrow> Action list \<Rightarrow> ValkeyNode list" where
  "present ns tr = filter (\<lambda>n. Write (DeleteNode (vn_Name n)) None \<notin> set tr) ns"

definition teardown_env :: "env" where
  "teardown_env = calm \<lparr> listNodes := (\<lambda>tr. Inr (present [sample_vnode ''c-0-0'' 0 0 ''10.0.0.1'', sample_vnode ''c-1-0'' 1 0 ''10.0.0.2''] tr)) \<rparr>"

lemma teardown_ordered_witness:
  "\<exists>out w1. handleDeletion teardown_env (sample_world \<lparr> cluster := sample_cluster \<lparr> Finalizers := [FinalizerDeleteSSL] \<rparr> \<rparr>) = (out, w1) \<and>
     (\<exists>n. deletions (sample_world \<lparr> cluster := sample_cluster \<lparr> Finalizers := [FinalizerDeleteSSL] \<rparr> \<rparr>) w1 = [n])"
proof -
  define w where "w = sample_world \<lparr> cluster := sample_cluster \<lparr> Finalizers := [FinalizerDeleteSSL] \<rparr> \<rparr>"
  obtain out w1 where run: "handleDeletion teardown_env w = (out, w1)" by fastforce
  have "listNodes teardown_env (trace w) = Inr [sample_vnode ''c-0-0'' 0 0 ''10.0.0.1'', sample_vnode ''c-1-0'' 1 0 ''10.0.0.2'']"
    by (simp add: teardown_env_def w_def sample_world_def present_def)
  moreover have "\<not> finalized (cluster w)" by (simp add: w_def finalized_def)
  ultimately have "\<exists>n. deletions w w1 = [n]" using teardown_ordered [OF run] by (auto simp: sample_vnode_def split: if_splits)
  with run show ?thesis unfolding w_def by blast
qed

text \<open>The cluster after a number of passes.\<close>

definition teardown :: "env \<Rightarrow> nat \<Rightarrow> world \<Rightarrow> world" where
  "teardown E k w = ((\<lambda>w. snd (handleDeletion E w)) ^^ k) w"

lemma teardown_pass:
  assumes "\<And>tr x. api E tr x = None" "\<And>tr. listNodes E tr = Inr (present ns tr)"
    and "\<forall>tr n e. getSecret E tr n = Inl e \<longrightarrow> apierrorsIsNotFound (Some e)" "list_all (\<lambda>n. \<not> vn_Deleting n) ns"
    and w1: "w1 = snd (handleDeletion E w)" and "\<not> finalized (cluster w)"
  shows "finalized (cluster w1) \<or> present ns (trace w) \<noteq> [] \<and> length (present ns (trace w1)) < length (present ns (trace w))"
proof (cases "nextTeardownNode (present ns (trace w))")
  case None
  then have e: "present ns (trace w) = []" by (simp add: nextTeardownNode_None)
  obtain x v where c: "cleanupTLS E w = (x, v)" by fastforce
  have "x = Inr ()" using c assms(1,3)
    by (auto simp: cleanupTLS_def apiWrite_def Let_def split: option.splits if_splits sum.splits)
  then have "fst (handleDeletion E w) = Requeue 0"
    using assms c None e by (auto simp: handleDeletion_def finalized_def apiWrite_def Let_def)
  then have "handleDeletion E w = (Requeue 0, w1)" using w1 by (simp add: prod_eq_iff)
  from handleDeletion_last [OF assms(6) _ this] assms(2) e show ?thesis by simp
next
  case (Some n)
  note r = nextTeardownNode_result [OF Some]
  have "\<not> vn_Deleting n" using r assms(4) by (auto simp: present_def list_all_iff)
  then have "Write (DeleteNode (vn_Name n)) None \<in> set (trace w1) \<and> set (trace w) \<subseteq> set (trace w1)"
    using assms Some by (auto simp: handleDeletion_def finalized_def apiWrite_def Let_def event_def act_def)
  then have "present ns (trace w1) = filter (\<lambda>m. Write (DeleteNode (vn_Name m)) None \<notin> set (trace w1)) (present ns (trace w))"
    "n \<in> set (present ns (trace w))" "n \<notin> set (present ns (trace w1))"
    using r by (auto simp: present_def intro!: filter_cong)
  then show ?thesis by (metis (no_types, lifting) length_filter_less list.set(1) empty_iff mem_Collect_eq set_filter)
qed

lemma teardown_done: "finalized (cluster w) \<Longrightarrow> teardown E k w = w"
  by (induction k) (auto simp: teardown_def handleDeletion_def finalized_def)

text \<open>C5: Teardown completes: if the API server accepts every write and removes deleted nodes, one pass for each
  node and one more remove the finalizers, from any state of the cluster.\<close>

theorem teardown_completes:
  assumes "\<And>tr x. api E tr x = None" "\<And>tr. listNodes E tr = Inr (present ns tr)"
    and "\<forall>tr n e. getSecret E tr n = Inl e \<longrightarrow> apierrorsIsNotFound (Some e)" "list_all (\<lambda>n. \<not> vn_Deleting n) ns"
  shows "finalized (cluster (teardown E (Suc (length ns)) w))"
proof -
  have "finalized (cluster (teardown E (Suc k) w))" if "length (present ns (trace w)) \<le> k" for k w
    using that
  proof (induction k arbitrary: w)
    case 0
    then show ?case
      using teardown_pass [where w = w, OF assms refl] teardown_done [of w E 1] by (cases "finalized (cluster w)") (auto simp: teardown_def)
  next
    case (Suc k)
    define v where "v = snd (handleDeletion E w)"
    have step: "teardown E (Suc (Suc k)) w = teardown E (Suc k) v"
      unfolding teardown_def v_def funpow_Suc_right by simp
    show ?case
    proof (cases "finalized (cluster w)")
      case True
      then show ?thesis using teardown_done by simp
    next
      case False
      from teardown_pass [OF assms v_def this] show ?thesis
        unfolding step using Suc teardown_done [of v E "Suc k"] by auto
    qed
  qed
  moreover have "length (present ns (trace w)) \<le> length ns" by (simp add: present_def)
  ultimately show ?thesis by blast
qed

lemma teardown_completes_witness:
  "finalized (cluster (teardown teardown_env 3 (sample_world \<lparr> cluster := sample_cluster \<lparr> Finalizers := [FinalizerDeleteSSL] \<rparr> \<rparr>)))"
  using teardown_completes [of teardown_env "[sample_vnode ''c-0-0'' 0 0 ''10.0.0.1'', sample_vnode ''c-1-0'' 1 0 ''10.0.0.2'']"]
  by (simp add: teardown_env_def calm_def sample_vnode_def apierrorsIsNotFound_def numeral_3_eq_3)
subsection \<open>A pass returns\<close>

text \<open>Every pass returns, provided that every cron schedule the parser yields has a later next firing; the
  registry then keeps only such schedules.\<close>

theorem reconcile_returns:
  assumes "\<forall>cron f a. cronParse Op cron = Inr f \<longrightarrow> a < f a" "advancing reg"
  shows "\<exists>out reg1 w1. Reconcile Op E reg w = Some (out, reg1, w1) \<and> advancing reg1"
proof -
  have *: "\<exists>out reg1 w1. reconcileCluster Op E reg w = Some (out, reg1, w1) \<and> advancing reg1" for w
    using versionCheck_returns [OF assms, of E "w \<lparr> cluster := (cluster w) \<lparr> Status := (Status (cluster w)) \<lparr> Host := clusterHost (cluster w) \<rparr> \<rparr> \<rparr>"]
    by (auto simp: reconcileCluster_def Let_def split: prod.splits sum.splits)
  show ?thesis
    using assms(2) * unfolding Reconcile_def by (auto split: option.splits prod.splits sum.splits)
qed

lemma reconcile_returns_witness: "\<exists>out reg1 w1. Reconcile sample_operator calm Map.empty sample_world = Some (out, reg1, w1)"
  using reconcile_returns [of sample_operator Map.empty calm sample_world] by (force simp: sample_operator_def advancing_def)

end
