(* ===== verification/Steady_Pass.thy ===== *)
theory Steady_Pass
  imports Controller
begin

text \<open>
  The end of the reconcile loop: a pass that asks for the slow re-verification has changed nothing and has seen a
  healthy cluster.  The theory runs \<open>Reconcile\<close> of
  \<^verbatim>\<open>pkg/controller/perconavalkeycluster/controller.go\<close> step by step on a one-shard cluster whose single
  primary owns every slot, from the replies of its node to the conditions of the resource, so the property is
  known not to be vacuous: such a pass exists.
\<close>

definition healthy_line :: parsedNodeLine where
  "healthy_line = \<lparr> pl_id = ''id'', pl_addr = ''10.0.0.1:6379'', pl_busPort = 16379,
     pl_flags = [''myself'', ''master''], pl_primaryID = ''-'', pl_configEpoch = 1, pl_slots = [SlotRange 0 16383] \<rparr>"

definition healthy_client :: "string scrape_client" where
  "healthy_client = \<lparr> ClusterMyID = Inr ''id'', ClusterMyShardID = Inr ''s0'', InfoReplication = Inr ''role:master'',
     ClusterInfo = Inr ''cluster_state:ok'', ClusterNodes = Inr (''txt:'' @ renderNodeLine (''0'', ''0'', ''connected'') healthy_line @ [newline]) \<rparr>"

definition healthy_env where "healthy_env = calm \<lparr> sha256 := (\<lambda>_. ''h''), listNodes := (\<lambda>_. Inr [sample_vnode ''c-0-0'' 0 0 ''10.0.0.1'']),
   dial := (\<lambda>_ v. Some (vn_PodIP v, healthy_client)) \<rparr>"

definition healthy_cluster where "healthy_cluster = sample_cluster \<lparr> Finalizers := [FinalizerDeletePodsInOrder, FinalizerDeleteSSL],
    Spec := sample_spec \<lparr> Shards_want := 1, Replicas := 0 \<rparr> \<rparr>"

lemma env_simps [simp]:
  "api healthy_env tr x = None" "getCluster healthy_env tr = None" "getSecret healthy_env tr n = Inl (NotFound n)"
  "getService healthy_env tr n = Inl (NotFound n)" "listServices healthy_env tr l = Inr []" "sha256 healthy_env txt = ''h''"
  "randomIndex healthy_env tr k = Inr 0" "listNodes healthy_env tr = Inr [sample_vnode ''c-0-0'' 0 0 ''10.0.0.1'']"
  "dial healthy_env tr v = Some (vn_PodIP v, healthy_client)" "slotMigrations healthy_env tr a = Inr []" "opResult healthy_env tr x' = OpCreated"
  by (simp_all add: healthy_env_def calm_def)

definition settledC :: Cluster where "settledC = snd (CheckNSetDefaults ''0.1'' healthy_cluster)"

lemma settledC: "CheckNSetDefaults ''0.1'' healthy_cluster = (None, settledC)"
  by (simp add: settledC_def CheckNSetDefaults_def healthy_cluster_def sample_cluster_def sample_spec_def validateBackupStorages_def  defaulting)

lemma settledC_simps [simp]: "Expose (Spec settledC) = None" "Users (Spec settledC) = []" "TLSSpec (Spec settledC) = None" "Name settledC = ''c''" "Namespace settledC = ''ns''"
  "Annotations settledC = Map.empty" "Deleting settledC = False" "Finalizers settledC = [FinalizerDeletePodsInOrder, FinalizerDeleteSSL]"
  "Shards_want (Spec settledC) = 1" "Replicas (Spec settledC) = 0" "Image (Spec settledC) = ''percona/valkey:9.1.0''" "CrVersion (Spec settledC) = ''0.1''"
  "PodDisruptionBudget (Spec settledC) = PDBManaged" "NetworkPolicyOf (Spec settledC) = None" "up_Apply (Upgrade (Spec settledC)) = ''Disabled''"
  "LastObservedCrVersion (Status settledC) = ''''"
  by (simp_all add: settledC_def CheckNSetDefaults_def healthy_cluster_def sample_cluster_def sample_spec_def validateBackupStorages_def UpgradeApplyDisabled_def defaulting)

lemma healthy_reply_parsed: "ParseClusterNodes (''txt:'' @ renderNodeLine (''0'', ''0'', ''connected'') healthy_line @ [newline])
   = [(toNodeState healthy_line) \<lparr> peers := peerTable [healthy_line] \<rparr>]"
proof -
  have w: "wf_line healthy_line"
    by (simp add: wf_line_def healthy_line_def token_def isSpace_def int64_def slots_in_range_def maxSlot_def TotalSlots_def)
  have "token ''0''" "token ''connected''" by (simp_all add: token_def isSpace_def)
  with w ParseClusterNodes_rendered [of "[((''0'', ''0'', ''connected''), healthy_line)]"] show ?thesis by simp
qed

definition healthy_node :: NodeState where
  "healthy_node = \<lparr> ID = ''id'', ShardID = ''s0'', Addr = ''10.0.0.1'', BusPort = 16379, Flags = [''myself'', ''master''], PrimaryID = '''',
            ConfigEpoch = 1, LinkUp = False, NodeRole = RolePrimary, Offset = -1, NodeSlots = [SlotRange 0 16383],
            KnownNodes = 0, ClusterStateOK = True, ClusterSize = 0, CurrentEpoch = 0, peers = peerTable [healthy_line], client = True \<rparr>"

lemma healthy_replies: "ParseClusterInfo ''cluster_state:ok'' = (''ok'', 0, 0)" "ParseInfoReplicationTyped ''role:master'' = (RolePrimary, False, -1, 0)"
   "parseClusterSizeEpoch ''cluster_state:ok'' = (0, 0)"
  by code_simp+

lemma healthy_node_scraped: "ScrapeNode ''10.0.0.1'' healthy_client = Inr healthy_node"
  unfolding ScrapeNode_def healthy_client_def nodeStateFromScrape_def scrape_client.simps sum.case healthy_reply_parsed healthy_replies prod.case
  by (simp add: overlayMyself.simps toNodeState_def healthy_node_def) (simp add: healthy_line_def noPrimary_def flagMaster_def)

definition healthy_state where "healthy_state = NewClusterState [Some healthy_node]"

abbreviation "vn \<equiv> sample_vnode ''c-0-0'' 0 0 ''10.0.0.1''"

lemma healthy_scrape: "getValkeyClusterState healthy_env [vn] w = Some healthy_state"
  by (simp add: getValkeyClusterState_def map_filter_simps sample_vnode_def healthy_node_scraped healthy_state_def)

lemma vn_position: "nodePosition_of vn = Some \<lparr> np_shard = 0, np_node = 0 \<rparr>"
  by (simp add: nodePosition_of_def sample_vnode_def ClusterTopologyLabels_def lookup_def LabelShardIndex_def LabelNodeIndex_def LabelCluster_def labelPrefix_def Atoi_Itoa int64_def)

lemma vn_shard: "Atoi (lookup (vn_Labels vn) LabelShardIndex) = (0, None)"
  by (simp add: sample_vnode_def ClusterTopologyLabels_def lookup_def LabelShardIndex_def LabelNodeIndex_def LabelCluster_def labelPrefix_def Atoi_Itoa int64_def)

lemma vn_positions: "positionsByIP [vn] = [''10.0.0.1'' \<mapsto> \<lparr> np_shard = 0, np_node = 0 \<rparr>]"
  by (simp add: positionsByIP_def positionsByIP_add_def vn_position) (simp add: sample_vnode_def)

lemma healthy_state_eval: "FailedPrimaries healthy_state = []" "PendingNodes healthy_state = []" "IsReplicationInSync healthy_state" "GetUnassignedSlots healthy_state = []"
   "AllReachableClusterStateOK healthy_state"  "PlanRebalanceMove healthy_state 1 = None" "length (slotOwningShards healthy_state) = 1" "countReadyShards healthy_state 1 = 1"
   "StaleNodeIDs healthy_state (backingNodeIDs healthy_state [vn]) = []"  "drainingShardPrimaries healthy_state [''10.0.0.1'' \<mapsto> \<lparr> np_shard = 0, np_node = 0 \<rparr>] 1 = []"
 by code_simp+

lemma vn_wanted: "excessShardNodes [vn] 1 = []" "\<not> surplusReplica 1 1 vn"
  by (simp_all add: excessShardNodes_def vn_shard surplusReplica_def vn_position)

lemma sample_version: "MajorMinor (gitVersion sample_operator) (rawVersion sample_operator) = ''0.1''"
  by (simp add: sample_operator_def MajorMinor_def majorMinor_def Version_def showMajorMinor_def go_eval)

lemma not_gated: "\<not> gated sample_operator settledC"
  by (simp add: gated_def crVersionNewerThanOperator_def sample_operator_def CompareVersion_def AcceptedCrVersions_def MajorMinor_def majorMinor_def Version_def showMajorMinor_def go_eval)

abbreviation "H \<equiv> healthy_env"

lemma no_promotion: "promoteOrphanedReplicas H healthy_state w = (Inr False, w)"
  by (simp add: promoteOrphanedReplicas_def healthy_state_eval)

lemma no_forget: "forgetStaleNodes H healthy_state [vn] w = (Inr False, w)"
  by (simp add: forgetStaleNodes_def healthy_state_eval)

lemma no_reform: "reformRestoreTarget H healthy_state [vn] w = (Inr False, w)"
  by (simp add: reformRestoreTarget_def healthy_state_eval)

lemma no_meet: "meetIsolatedNodes H healthy_state w = (Inr 0, w)"
  by (simp add: meetIsolatedNodes_def isolatedPendingNodes_def healthy_state_eval)

lemma no_assign: "assignSlotsToPendingPrimaries H healthy_state [vn] w = (Inr 0, w)"
  by (simp add: assignSlotsToPendingPrimaries_def healthy_state_eval)

lemma no_replicate: "replicatePendingReplicas H healthy_state [vn] w = (Inr 0, w)"
  by (simp add: replicatePendingReplicas_def healthy_state_eval Let_def)

lemma no_scaleIn: "Spec (cluster w) = Spec settledC \<Longrightarrow> handleScaleIn H healthy_state [vn] w = (Inr False, w)"
  by (simp add: handleScaleIn_def healthy_state_eval vn_wanted vn_positions Let_def deleteExcessReplicas_def deleteDrainedShardNodes_def)

lemma no_rebalance: "Spec (cluster w) = Spec settledC \<Longrightarrow> rebalanceSlots H healthy_state w = (Inr False, w)"
  by (simp add: rebalanceSlots_def healthy_state_eval)

lemma verifies: "Spec (cluster w) = Spec settledC \<Longrightarrow> \<exists>w1. verifyAndMarkReady H healthy_state w = (Inr True, w1)"
proof -
  assume a: "Spec (cluster w) = Spec settledC"
  have h: "healthy healthy_state (cluster w)" by (simp add: healthy_def a healthy_state_eval)
  obtain e w2 where s: "writeStatus H (readyStatus (observeShards healthy_state w)) = (e, w2)" by fastforce
  then have "e = None" by (auto simp: writeStatus_def k8s_WriteStatus_def apiWrite_def Let_def)
  with verify_healthy [OF h s] show ?thesis by simp
qed

lemma no_roll: "Spec (cluster w) = Spec settledC \<Longrightarrow> Name (cluster w) = ''c'' \<Longrightarrow> reconcileValkeyNodes H [vn] ''h'' w = (Inr False, w)"
proof -
  have n: "NodeName ''c'' 0 0 = ''c-0-0''" by code_simp
  assume "Spec (cluster w) = Spec settledC" "Name (cluster w) = ''c''"
  then show ?thesis
  by (simp add: reconcileValkeyNodes_def desiredNodes_def missingNode_def keyName_def indexNodesByName_def anyRollPending_def
        nodeNeedsRoll_def nodeConverged_def sample_vnode_def n Let_def)
qed

lemma service_applied: "upsertService H w = (Inr (), snd (upsertService H w))"
  by (simp add: upsertService_def CreateOrUpdate_def apiWrite_def Let_def)

lemma not_exposed: "Spec (cluster w) = Spec settledC \<Longrightarrow> reconcileExpose H w = (Inr (), w)"
  by (simp add: reconcileExpose_def pruneExternalServices_def)

lemma not_announced: "Spec (cluster w) = Spec settledC \<Longrightarrow> reconcileExposeAnnounce H w = (Inr (), w)"
  by (simp add: reconcileExposeAnnounce_def announceWanted_def)

lemma budget_applied: "reconcilePodDisruptionBudget H w = (Inr (), snd (reconcilePodDisruptionBudget H w))"
  by (simp add: reconcilePodDisruptionBudget_def deletePodDisruptionBudget_def deleteIgnored_def CreateOrUpdate_def apiWrite_def Let_def)

lemma policy_applied: "reconcileNetworkPolicy H w = (Inr (), snd (reconcileNetworkPolicy H w))"
  by (simp add: reconcileNetworkPolicy_def deleteNetworkPolicy_def deleteIgnored_def CreateOrUpdate_def apiWrite_def Let_def)

lemma no_tls: "Spec (cluster w) = Spec settledC \<Longrightarrow> reconcileTLS H w = (Inr (), w)"
  by (simp add: reconcileTLS_def)

lemma random_zero: "randomPassword H tr k n = Inr (replicate n (hd passwordAlphabet))" for tr k n
    by (induction n arbitrary: k) (simp_all add: hd_conv_nth passwordAlphabet_def)

lemma fill_succeeds: "\<exists>d o'. fillPasswords H tr k us data out = Inr (d, o')" for tr k us data out
    by (induction us arbitrary: k data out) (simp_all add: random_zero)

lemma apply_succeeds: 
  assumes "\<And>s. \<exists>s1 x. m s = Inr (s1, x)"
  shows "\<exists>r x w1. applySecret H n m w = (Inr (r, x), w1)"
proof -
  obtain s1 x where "m \<lparr> sec_Name = n, sec_Labels = None, sec_Type = '''', sec_Data = None \<rparr> = Inr (s1, x)" using assms by blast
  then show ?thesis by (simp add: applySecret_def CreateOrUpdate_def apiWrite_def Let_def)
qed

lemma systemPasswords_succeed: "\<exists>o' w1. ensureSystemPasswords H w = (Inr o', w1)"
proof -
  define m where "m = (\<lambda>s. let s1 = prepareSecret (cluster w) s
                  in case fillPasswords H (trace w) 0 [SystemUserOperator, SystemUserExporter, SystemUserBackup] (nil_map (sec_Data s1)) [] of
                       Inl e \<Rightarrow> Inl e
                     | Inr (data, out) \<Rightarrow> Inr (s1 \<lparr> sec_Data := Some data \<rparr>, out))"
  have "\<exists>s1 x. m s = Inr (s1, x)" for s
    using fill_succeeds [of "trace w" 0 "[SystemUserOperator, SystemUserExporter, SystemUserBackup]" "nil_map (sec_Data (prepareSecret (cluster w) s))" "[]"]
    by (auto simp: m_def Let_def simp del: fillPasswords.simps)
  from apply_succeeds [of m "SystemPasswordsSecretName (Name (cluster w))" w, OF this] obtain r x w1 where "applySecret H (SystemPasswordsSecretName (Name (cluster w))) m w = (Inr (r, x), w1)" by blast
  then show ?thesis unfolding ensureSystemPasswords_def m_def [symmetric] by simp
qed

lemma settledC_auth [simp]: "Auth (Spec settledC) = Some \<lparr> auth_Enabled = Some True, auth_PasswordSecret = \<lparr> ps_Name = ''c-users'', ps_Keys = [] \<rparr> \<rparr>"
  by (simp add: settledC_def CheckNSetDefaults_def healthy_cluster_def sample_cluster_def sample_spec_def namedSecret_def usersSecretSuffix_def defaulting)

lemma requirepass_succeeds: "\<exists>o' w1. resolveRequirepass H w = (Inr o', w1)" if a: "Spec (cluster w) = Spec settledC" "Name (cluster w) = ''c''"
proof -
  define m where "m = (\<lambda>s. let s1 = prepareSecret (cluster w) s
                  in case fillPasswords H (trace w) 0 [defaultUserPasswordKey] (nil_map (sec_Data s1)) [] of
                       Inl e \<Rightarrow> Inl e
                     | Inr (data, out) \<Rightarrow> Inr (s1 \<lparr> sec_Data := Some data \<rparr>, conf_get out defaultUserPasswordKey))"
  have "\<exists>s1 x. m s = Inr (s1, x)" for s
    using fill_succeeds [of "trace w" 0 "[defaultUserPasswordKey]" "nil_map (sec_Data (prepareSecret (cluster w) s))" "[]"]
    by (auto simp: m_def Let_def simp del: fillPasswords.simps)
  from apply_succeeds [of m "''c-users''" w, OF this] obtain r x w1 where "applySecret H ''c-users'' m w = (Inr (r, x), w1)" by blast
  then have "ensureDefaultUserPassword H ''c-users'' defaultUserPasswordKey w = (Inr x, w1)"
    unfolding ensureDefaultUserPassword_def m_def [symmetric] by simp
  then show ?thesis
    by (simp add: resolveRequirepass_def a usesOperatorDefaultAuthSecret_def usersSecretSuffix_def)
qed

lemma authReload_succeeds: "\<exists>w1. reconcileAuthReload H content pw w = (Inr (), w1)" if "Annotations (cluster w) = Map.empty"
  using that by (simp add: reconcileAuthReload_def Let_def authSignature_def lookup_def stampAuthSignature_def apiWrite_def)

text \<open>The fields of the sample cluster the steps read; they stay as they are through the pass.\<close>

definition fits :: "world \<Rightarrow> bool" where
  "fits w \<longleftrightarrow> Spec (cluster w) = Spec settledC \<and> Name (cluster w) = ''c''"

lemma acl_applied: "\<exists>w1. reconcileUsersACL H w = (Inr (), w1)" if a: "fits w" "Annotations (cluster w) = Map.empty"
proof -
  obtain o1 w1 where s1: "ensureSystemPasswords H w = (Inr o1, w1)" using systemPasswords_succeed by blast
  have h1: "cluster w1 = cluster w" using harmlessD [OF harmless_passwords(1) s1] by simp
  obtain o2 w2 where s2: "resolveRequirepass H w1 = (Inr o2, w2)" using requirepass_succeeds a h1 by (fastforce simp: fits_def)
  have h2: "cluster w2 = cluster w" using harmlessD [OF harmless_requirepass s2] h1 by simp
  have s3: "buildUserDefinedACLLines H w1 = Inr []" using a by (simp add: buildUserDefinedACLLines_def h1 fits_def)
  define content where "content = RenderUsersACL (sha256 H) (ex_Enabled (Exporter (Spec settledC))) o1 [] o2"
  define f where "f = (\<lambda>s. s \<lparr> sec_Name := ACLSecretName ''c'', sec_Labels := Some (Labels ''c'' ComponentValkey), sec_Type := aclSecretType,
                                          sec_Data := Some [ACLFileKey \<mapsto> content] \<rparr> :: Secret)"
  obtain w3 where s4: "applySecret H (ACLSecretName ''c'') (\<lambda>s. Inr (f s, ())) w2 = (Inr (OpCreated, ()), w3)"
    by (simp add: applySecret_def CreateOrUpdate_def apiWrite_def Let_def)
  have h3: "cluster w3 = cluster w" using applySecret_result [OF s4] h2 by simp
  have "reconcileUsersACL H w = reconcileAuthReload H content o2 (reportApplied OpCreated (ACLSecretName ''c'') w3)"
    using s4 a h2 unfolding reconcileUsersACL_def s1 f_def by (simp add: Let_def content_def fits_def s2 s3)
  then show ?thesis using authReload_succeeds [of "reportApplied OpCreated (ACLSecretName ''c'') w3"] h3 a by simp
qed

lemma fits_defaults: "fits w \<Longrightarrow> CheckNSetDefaults ''0.1'' (cluster w) = (None, cluster w)"
proof -
  assume a: "fits w"
  have "Spec settledC = defaulted ''0.1'' ''c'' (Spec healthy_cluster)"
    by (simp add: settledC_def CheckNSetDefaults_defaulted) (simp add: healthy_cluster_def sample_cluster_def)
  then have "defaulted ''0.1'' ''c'' (Spec settledC) = Spec settledC" by (simp add: defaulted_idem)
  moreover have "Spec settledC = Spec (cluster w)" using a by (simp add: fits_def)
  then have "cluster w \<lparr> Spec := Spec settledC \<rparr> = cluster w" by (simp only:) simp
  ultimately have "CheckNSetDefaults ''0.1'' (cluster w) = (validateBackupStorages (Spec settledC), cluster w)"
    using a by (simp add: CheckNSetDefaults_defaulted fits_def)
  moreover have "validateBackupStorages (Spec settledC) = None"
    using settledC by (auto simp: CheckNSetDefaults_def Let_def settledC_def)
  ultimately show ?thesis by simp
qed

lemma config_applied: "\<exists>w1. upsertConfigMap H ''0.1'' w = (Inr ''h'', w1) \<and> fits w1" if a: "fits w"
proof -
  have d: "ensureConfigDefaults ''0.1'' w = (Inr (), w)" by (simp add: ensureConfigDefaults_def fits_defaults a)
  obtain o2 w2 where s2: "resolveRequirepass H w = (Inr o2, w2)" using requirepass_succeeds a by (fastforce simp: fits_def)
  obtain inp where s3: "applySecurityConfigInput H (configInput (cluster w)) w = (Inr inp, w2)"
    unfolding applySecurityConfigInput_def s2 by (cases "tlsHardeningInput (cluster w)") simp
  have "\<exists>w3. CreateOrUpdate H ''*v1.ConfigMap'' n x w2 = (Inr OpCreated, w3)" for n x
    by (simp add: CreateOrUpdate_def apiWrite_def Let_def)
  then obtain w3 where cu: "CreateOrUpdate H ''*v1.ConfigMap'' (ClusterConfigMapName (Name (cluster w2)))
      (ApplyConfigMap (ClusterConfigMapName (Name (cluster w2))) (Labels (Name (cluster w2)) ComponentValkey)
         [(ConfigFileKey, RenderServerConfig inp), (readinessScriptKey, probeScript), (livenessScriptKey, probeScript)]) w2
      = (Inr OpCreated, w3)" by blast
  obtain w4 where s: "upsertConfigMap H ''0.1'' w = (Inr ''h'', w4)"
    unfolding upsertConfigMap_def d prod.case sum.case s3 Let_def cu by (simp add: ServerConfigRollHash_def)
  from upsertConfigMap_result [OF s] fits_defaults [OF a] a have "fits w4" by (simp add: fits_def)
  with s show ?thesis by blast
qed

subsection \<open>The whole pass\<close>

lemma healthy_infra: "\<exists>w1. reconcileInfra H ''0.1'' w = (Inr [vn], w1) \<and> fits w1" if a: "fits w" "Annotations (cluster w) = Map.empty"
proof -
  obtain w1 where s1: "upsertService H w = (Inr (), w1)" using service_applied by blast
  have c1: "cluster w1 = cluster w" using harmlessD [OF harmless_services(1) s1] by simp
  have s2: "reconcileExpose H w1 = (Inr (), w1)" "reconcileExposeAnnounce H w1 = (Inr (), w1)"
    using a c1 by (simp_all add: not_exposed not_announced fits_def)
  obtain w2 where s3: "reconcilePodDisruptionBudget H w1 = (Inr (), w2)" using budget_applied by blast
  have c2: "cluster w2 = cluster w" using harmlessD [OF harmless_pdb s3] c1 by simp
  obtain w3 where s4: "reconcileNetworkPolicy H w2 = (Inr (), w3)" using policy_applied by blast
  have c3: "cluster w3 = cluster w" using harmlessD [OF harmless_policy s4] c2 by simp
  obtain w4 where s5: "reconcileUsersACL H w3 = (Inr (), w4)" using acl_applied [of w3] a c3 by (auto simp: fits_def)
  obtain an where c4: "cluster w4 = cluster w \<lparr> Annotations := an \<rparr>" using annotatingD [OF annotating_usersACL s5] c3 by auto
  have f4: "fits w4" using a c4 by (simp add: fits_def)
  have s6: "reconcileTLS H w4 = (Inr (), w4)" using f4 by (simp add: no_tls fits_def)
  obtain w5 where s7: "upsertConfigMap H ''0.1'' w4 = (Inr ''h'', w5)" and f5: "fits w5" using config_applied [OF f4] by blast
  have s8: "reconcileValkeyNodes H [vn] ''h'' w5 = (Inr False, w5)" using f5 by (simp add: no_roll fits_def)
  show ?thesis
    using f5 by (simp add: reconcileInfra_def attempt_def s1 s2 s3 s4 s5 s6 s7 s8)
qed

lemmas healthy_stages = recover_def bootstrapJoin_def scale_def attempt_def andThen_def no_promotion no_forget no_reform no_meet no_assign
  no_replicate no_scaleIn no_rebalance healthy_state_eval

lemma healthy_topology: "\<exists>w1. reconcileTopology H ''0.1'' w = (Requeue requeueSteady, w1)" if a: "fits w" "Annotations (cluster w) = Map.empty"
proof -
  obtain w1 where s: "reconcileInfra H ''0.1'' w = (Inr [vn], w1)" and f: "fits w1" using healthy_infra [OF a] by blast
  then have "converge H ''0.1'' w = (Inr healthy_state, w1)"
    by (simp add: converge_def healthy_stages healthy_scrape fits_def)
  with verifies [of w1] f show ?thesis by (auto simp: reconcileTopology_def fits_def)
qed

lemma healthy_policy: "up_Apply (Upgrade (Spec c)) = ''Disabled'' \<Longrightarrow> applyPolicy c = actionDisabled"
proof -
  have "TrimSpace ''Disabled'' = ''Disabled''" by code_simp
  then show "up_Apply (Upgrade (Spec c)) = ''Disabled'' \<Longrightarrow> applyPolicy c = actionDisabled"
    by (simp add: applyPolicy_def UpgradeApplyDisabled_def UpgradeApplyRecommended_def UpgradeApplyLatest_def)
qed

definition healthy_world :: world where
  "healthy_world = sample_world \<lparr> cluster := healthy_cluster \<rparr>"

lemma healthy_pass: "\<exists>w1. Reconcile sample_operator H Map.empty healthy_world = Some (Requeue requeueSteady, Map.empty, w1)"
proof -
  define w0 where "w0 = healthy_world \<lparr> cluster := settledC \<rparr>"
  define w1 where "w1 = w0 \<lparr> cluster := (cluster w0) \<lparr> Status := (Status (cluster w0)) \<lparr> Host := clusterHost (cluster w0) \<rparr> \<rparr> \<rparr>"
  have g: "reconcileVersionGate sample_operator H w0 = (None, w0)"
    using not_gated gate_open [of sample_operator w0 H] by (simp add: w0_def)
  have f: "ensureFinalizers H w0 = (Inr (), w0)" by (simp add: ensureFinalizers_def addFinalizer_def w0_def)
  have v: "reconcileVersionCheck sample_operator H Map.empty w1 = Some (Inr (), Map.empty, w1)"
    using healthy_policy by (simp add: reconcileVersionCheck_def w1_def w0_def Let_def vc_remove_def)
  have "fits w1" "Annotations (cluster w1) = Map.empty" by (simp_all add: fits_def w1_def w0_def)
  then obtain w2 where "reconcileTopology H ''0.1'' w1 = (Requeue requeueSteady, w2)" using healthy_topology by blast
  then have "reconcileCluster sample_operator H Map.empty w0 = Some (Requeue requeueSteady, Map.empty, w2)"
    using v by (simp add: reconcileCluster_def Let_def w1_def [symmetric] sample_version)
  moreover have "cluster healthy_world = healthy_cluster" by (simp add: healthy_world_def)
  ultimately show ?thesis
    using g f settledC by (simp add: Reconcile_def sample_version w0_def [symmetric]) (simp add: w0_def)
qed

subsection \<open>The property\<close>

text \<open>C2: A steady pass changes nothing: if a pass asks for the slow re-verification, it has changed no topology
  at all, the scrape of all nodes it made shows every slot assigned and replication in sync, and the cluster
  is marked ready and not degraded.\<close>

theorem steady_pass:
  assumes "Reconcile Op E reg w = Some (Requeue requeueSteady, reg1, w1)"
  shows "changes w w1 = {} \<and> conditionTrue (cluster w1) CondReady \<and> \<not> conditionTrue (cluster w1) CondDegraded \<and>
    (\<exists>nodes v st. getValkeyClusterState E nodes v = Some st \<and> GetUnassignedSlots st = [] \<and> IsReplicationInSync st)"
proof -
  from Reconcile_result [OF assms] obtain nodes v st u where q: "adds quiet w w1"
    and st: "getValkeyClusterState E nodes v = Some st" and u: "verifyAndMarkReady E st u = (Inr True, w1)" by blast
  from verify_result [of E st u] u have "healthy st (cluster u)" "conditionTrue (cluster w1) CondReady" "\<not> conditionTrue (cluster w1) CondDegraded"
    by auto
  with st changes_quiet [OF q] show ?thesis by (auto simp: healthy_def)
qed

lemma steady_pass_witness:
  "\<exists>w1. Reconcile sample_operator healthy_env Map.empty healthy_world = Some (Requeue requeueSteady, Map.empty, w1) \<and>
     changes healthy_world w1 = {} \<and> conditionTrue (cluster w1) CondReady"
proof -
  obtain w1 where "Reconcile sample_operator healthy_env Map.empty healthy_world = Some (Requeue requeueSteady, Map.empty, w1)"
    using healthy_pass by blast
  with steady_pass [OF this] show ?thesis by blast
qed

end
