(* ===== verification/Degraded_Roll.thy ===== *)
theory Degraded_Roll
  imports Controller
begin

text \<open>
  The roll of the engine image (\<^verbatim>\<open>nodes.go\<close>, \<^verbatim>\<open>smartupdate.go\<close>) and the degraded mark over many passes of
  \<^verbatim>\<open>pkg/controller/perconavalkeycluster/controller.go\<close>.
\<close>

lemma conditionTrue_frame [simp]:
  "conditionTrue (c \<lparr> Annotations := a \<rparr>) t = conditionTrue c t" "conditionTrue (c \<lparr> Spec := s \<rparr>) t = conditionTrue c t"
  by (simp_all add: conditionTrue_def)

subsection \<open>Passes over a degraded cluster\<close>

text \<open>Marked degraded, with a node that runs another image, whenever the nodes are listed.\<close>

definition awaitsImage :: "env \<Rightarrow> world \<Rightarrow> bool" where
  "awaitsImage E w \<longleftrightarrow> conditionTrue (cluster w) CondDegraded \<and> Image (Spec (cluster w)) \<noteq> '''' \<and>
     (\<forall>tr. \<exists>nodes n. listNodes E tr = Inr nodes \<and> n \<in> set nodes \<and> ns_Image (vn_Spec n) \<notin> {'''', Image (Spec (cluster w))})"

lemma awaitsImage_kept:
  assumes "awaitsImage E w" "Image (Spec (cluster w1)) = Image (Spec (cluster w))"
    "conditionTrue (cluster w) CondDegraded \<Longrightarrow> conditionTrue (cluster w1) CondDegraded"
  shows "awaitsImage E w1"
  using assms unfolding awaitsImage_def by auto

text \<open>A step that keeps such a cluster as it is and changes nothing but create missing nodes; a stage that also ends the pass.\<close>

definition stuck :: "env \<Rightarrow> (world \<Rightarrow> 'r \<times> world) \<Rightarrow> bool" where
  "stuck E f \<longleftrightarrow> (\<forall>w. awaitsImage E w \<longrightarrow> awaitsImage E (snd (f w)) \<and> adds (only {Creating}) w (snd (f w)))"

lemma stuckI:
  assumes "\<And>w r w1. awaitsImage E w \<Longrightarrow> f w = (r, w1) \<Longrightarrow> adds (only {Creating}) w w1 \<and> Image (Spec (cluster w1)) = Image (Spec (cluster w)) \<and>
    (conditionTrue (cluster w) CondDegraded \<longrightarrow> conditionTrue (cluster w1) CondDegraded)"
  shows "stuck E f"
  unfolding stuck_def
proof (intro allI impI)
  fix w assume a: "awaitsImage E w"
  obtain r w1 where f: "f w = (r, w1)" by fastforce
  from assms [OF a f] awaitsImage_kept [OF a, of w1] f show "awaitsImage E (snd (f w)) \<and> adds (only {Creating}) w (snd (f w))" by simp
qed

lemma stuckD: "stuck E f \<Longrightarrow> awaitsImage E w \<Longrightarrow> f w = (r, w1) \<Longrightarrow> awaitsImage E w1 \<and> adds (only {Creating}) w w1"
  unfolding stuck_def by (erule allE [of _ w]) simp

lemma silent_creating: "adds silent w w1 \<Longrightarrow> adds (only {Creating}) w w1"
  by (erule adds_mono) (simp add: only_def)

lemma stuck_harmless: "harmless f \<Longrightarrow> stuck E f"
  by (rule stuckI) (auto dest!: harmlessD intro: silent_creating)

lemma stuck_annotating: "annotating f \<Longrightarrow> stuck E f"
  by (rule stuckI) (auto dest!: annotatingD intro: silent_creating)

lemma stuck_upsertConfigMap: "stuck E (upsertConfigMap E own)"
  by (rule stuckI) (auto dest!: upsertConfigMap_result simp: awaitsImage_def CheckNSetDefaults_def Let_def setter_fields intro: silent_creating)

lemma written_cluster: "cluster (snd (writeStatus E w)) = applyDerivedState (cluster w)"
  using writeStatus_no_write [of E w "fst (writeStatus E w)" "snd (writeStatus E w)"] by simp

lemma stuck_saved: "stuck E (\<lambda>w. saveStatus E (g w))"
  if "\<And>w. trace (g w) = trace w" "\<And>w. Image (Spec (cluster (g w))) = Image (Spec (cluster w))"
    "\<And>w. conditionTrue (cluster w) CondDegraded \<Longrightarrow> conditionTrue (cluster (g w)) CondDegraded"
proof (rule stuckI)
  fix w r w1 assume run: "saveStatus E (g w) = (r, w1)"
  then have "cluster w1 = applyDerivedState (cluster (g w))"
    by (auto simp: saveStatus_def dest!: writeStatus_no_write split: prod.splits option.splits)
  moreover have "adds silent w w1" using saved_silent [of "g w" w E] that run by simp
  ultimately show "adds (only {Creating}) w w1 \<and> Image (Spec (cluster w1)) = Image (Spec (cluster w)) \<and>
    (conditionTrue (cluster w) CondDegraded \<longrightarrow> conditionTrue (cluster w1) CondDegraded)"
    using that by (auto intro: silent_creating)
qed

lemma stuck_fail: "stuck E (fail E reason e)" "stuck E (degrade E reason e)"
proof -
  show "stuck E (fail E reason e)"
  proof (rule stuckI)
    fix w r w1 assume "fail E reason e w = (r, w1)"
    then have "adds silent w w1" "cluster w1 = cluster w \<or> (\<exists>m. cluster w1 = applyDerivedState (setConditionC CondReady ConditionFalse reason m (cluster w)))"
      using report_silent(2) [of w E reason e] by (auto simp: fail_def written_cluster setCondition_def split: go_error.splits)
    then show "adds (only {Creating}) w w1 \<and> Image (Spec (cluster w1)) = Image (Spec (cluster w)) \<and>
      (conditionTrue (cluster w) CondDegraded \<longrightarrow> conditionTrue (cluster w1) CondDegraded)"
      by (auto simp: cond_defs intro: silent_creating)
  qed
  show "stuck E (degrade E reason e)"
  proof (rule stuckI)
    fix w r w1 assume "degrade E reason e w = (r, w1)"
    then have "adds silent w w1" "cluster w1 = cluster w \<or> (\<exists>m. cluster w1 = applyDerivedState
        (setConditionC CondReady ConditionFalse reason m (setConditionC CondDegraded ConditionTrue reason m (cluster w))))"
      using report_silent(3) [of w E reason e] by (auto simp: degrade_def written_cluster setCondition_def split: go_error.splits)
    then show "adds (only {Creating}) w w1 \<and> Image (Spec (cluster w1)) = Image (Spec (cluster w)) \<and>
      (conditionTrue (cluster w) CondDegraded \<longrightarrow> conditionTrue (cluster w1) CondDegraded)"
      by (auto simp: cond_defs intro: silent_creating)
  qed
qed

definition halts :: "env \<Rightarrow> 'a stage \<Rightarrow> bool" where
  "halts E f \<longleftrightarrow> stuck E f \<and> (\<forall>w. awaitsImage E w \<longrightarrow> isl (fst (f w)))"

lemma haltsI:
  assumes "\<And>w r w1. awaitsImage E w \<Longrightarrow> f w = (r, w1) \<Longrightarrow> awaitsImage E w1 \<and> adds (only {Creating}) w w1 \<and> isl r"
  shows "halts E f"
proof -
  have "awaitsImage E (snd (f w)) \<and> adds (only {Creating}) w (snd (f w)) \<and> isl (fst (f w))" if "awaitsImage E w" for w
    using assms [OF that, of "fst (f w)" "snd (f w)"] by simp
  then show ?thesis unfolding halts_def stuck_def by blast
qed

lemma halts_attempt:
  assumes "stuck E step" "\<And>e. stuck E (failed e)" "\<And>x v v1. step v = (Inr x, v1) \<Longrightarrow> halts E (k x)"
  shows "halts E (attempt step failed k)"
proof -
  have "awaitsImage E w1 \<and> adds (only {Creating}) w w1 \<and> isl r" if aw: "awaitsImage E w" and run: "attempt step failed k w = (r, w1)" for w r w1
  proof -
    obtain x v where s: "step w = (x, v)" by fastforce
    note a = stuckD [OF assms(1) aw s]
    show ?thesis
    proof (cases x)
      case (Inl e)
      then obtain out where "failed e v = (out, w1)" "r = Inl out" using run s by (auto simp: attempt_def ends_def split: prod.splits)
      with stuckD [OF assms(2), of v e] a show ?thesis by (auto intro: adds_trans)
    next
      case (Inr y)
      then have "k y v = (r, w1)" using run s by (simp add: attempt_def)
      moreover have "halts E (k y)" using assms(3) s Inr by blast
      ultimately show ?thesis using stuckD [of E "k y" v r w1] a unfolding halts_def by (auto intro: adds_trans dest: spec [of _ v])
    qed
  qed
  then show ?thesis by (rule haltsI)
qed

lemma awaits_pending:
  assumes "awaitsImage E w"
  shows "\<exists>cur. pendingEngineChange E w = Inr (cur, True)"
proof -
  obtain nodes n where l: "listNodes E (trace w) = Inr nodes" and n: "n \<in> set nodes" "ns_Image (vn_Spec n) \<notin> {'''', Image (Spec (cluster w))}"
    using assms unfolding awaitsImage_def by blast
  then have "find (\<lambda>n. ns_Image (vn_Spec n) \<noteq> '''' \<and> ns_Image (vn_Spec n) \<noteq> Image (Spec (cluster w))) nodes \<noteq> None"
    by (auto simp: find_None_iff)
  then show ?thesis by (auto simp: pendingEngineChange_def l)
qed

lemma awaits_nodes:
  assumes a: "awaitsImage E w" and l: "listNodes E tr = Inr nodes" and run: "reconcileValkeyNodes E nodes h w = (r, w1)"
  shows "awaitsImage E w1 \<and> adds (only {Creating}) w w1 \<and> r \<noteq> Inr False"
proof -
  obtain n where n: "n \<in> set nodes" "ns_Image (vn_Spec n) \<noteq> Image (Spec (cluster w))"
    using a l unfolding awaitsImage_def by (elim conjE allE [of _ tr]) auto
  then have roll: "anyRollPending (cluster w) nodes h" by (auto simp: anyRollPending_def nodeNeedsRoll_def list_ex_iff)
  obtain cur where p: "pendingEngineChange E w = Inr (cur, True)" using awaits_pending [OF a] by blast
  have d: "conditionTrue (cluster w) CondDegraded" using a by (simp add: awaitsImage_def)
  then have held: "held E (getValkeyClusterState E nodes w) cur (cluster w)" by (simp add: held_def)
  obtain x v where s: "rollNextNode E nodes h w = (x, v)" by fastforce
  note rh = rollNextNode_held [OF p held s]
  show ?thesis
  proof (cases "desiredNodes (cluster w)")
    case None
    then show ?thesis using run a by (auto simp: reconcileValkeyNodes_def)
  next
    case (Some keys)
    show ?thesis
    proof (cases "missingNode (cluster w) nodes keys")
      case None
      then have "w1 = v \<and> r \<noteq> Inr False" using run Some roll s by (auto simp: reconcileValkeyNodes_def Let_def split: sum.splits)
      then show ?thesis using rh awaitsImage_kept [OF a, of v] by (auto intro: silent_creating)
    next
      case (Some key)
      obtain y u where c: "createValkeyNode E key h w = (y, u)" by fastforce
      have "w1 = u \<and> r \<noteq> Inr False" using run Some \<open>desiredNodes _ = _\<close> c by (auto simp: reconcileValkeyNodes_def Let_def split: sum.splits)
      then show ?thesis using createValkeyNode_result [OF c] awaitsImage_kept [OF a, of u] by auto
    qed
  qed
qed

lemma halts_nodes:
  assumes "listNodes E tr = Inr nodes" "stuck E g"
  shows "halts E (attempt (reconcileValkeyNodes E nodes h) (fail E reason) (\<lambda>requeue w. if requeue then ends (g w) else k w))"
proof -
  have "awaitsImage E w1 \<and> adds (only {Creating}) w w1 \<and> isl r"
    if a: "awaitsImage E w" and run: "attempt (reconcileValkeyNodes E nodes h) (fail E reason) (\<lambda>requeue w. if requeue then ends (g w) else k w) w = (r, w1)" for w r w1
  proof -
    obtain x v where s: "reconcileValkeyNodes E nodes h w = (x, v)" by fastforce
    note n = awaits_nodes [OF a assms(1) s]
    obtain f where "stuck E f" "ends (f v) = (r, w1)"
      using run s n stuck_fail(1) [of E reason] assms(2) by (cases x) (auto simp: attempt_def simp del: ends_simps split: if_splits)
    then obtain out where f: "f v = (out, w1)" "r = Inl out" "stuck E f" by (cases "f v") (simp add: ends_def)
    from stuckD [OF f(3) _ f(1)] n f(2) show ?thesis by (auto intro: adds_trans)
  qed
  then show ?thesis by (rule haltsI)
qed

lemmas stuck_steps = harmless_services [THEN stuck_harmless] harmless_expose [THEN stuck_harmless] harmless_announce [THEN stuck_harmless]
  harmless_pdb [THEN stuck_harmless] harmless_policy [THEN stuck_harmless] annotating_usersACL [THEN stuck_annotating] annotating_tls [THEN stuck_annotating]
  stuck_upsertConfigMap stuck_fail

lemma halts_infra: "halts E (reconcileInfra E own)"
proof -
  have last: "halts E (attempt (\<lambda>w. (case listNodes E (trace w) of Inl e \<Rightarrow> Inl (Err e) | Inr nodes \<Rightarrow> Inr nodes, w)) (fail E ''ValkeyNodeListError'') (\<lambda>nodes.
     attempt (reconcileValkeyNodes E nodes configHash) (fail E ''UpdatingNodes'') (\<lambda>requeue w.
       if requeue
       then ends (saveStatus E (setCondition CondReady ConditionFalse ''UpdatingNodes'' ''ValkeyNodes not yet converged''
              (setCondition CondProgressing ConditionTrue (progressingReason (cluster w)) ''creating/updating ValkeyNodes one-at-a-time'' w)))
       else (Inr nodes, w))))" for configHash
  proof (rule halts_attempt)
    show "stuck E (\<lambda>w. (case listNodes E (trace w) of Inl e \<Rightarrow> Inl (Err e) | Inr nodes \<Rightarrow> Inr nodes, w))" by (rule stuckI) auto
  next
    fix nodes v v1
    assume "(case listNodes E (trace v) of Inl e \<Rightarrow> Inl (Err e) | Inr nodes \<Rightarrow> Inr nodes, v) = (Inr nodes, v1)"
    then have "listNodes E (trace v) = Inr nodes" by (auto split: sum.splits)
    then show "halts E (attempt (reconcileValkeyNodes E nodes configHash) (fail E ''UpdatingNodes'') (\<lambda>requeue w.
       if requeue
       then ends (saveStatus E (setCondition CondReady ConditionFalse ''UpdatingNodes'' ''ValkeyNodes not yet converged''
              (setCondition CondProgressing ConditionTrue (progressingReason (cluster w)) ''creating/updating ValkeyNodes one-at-a-time'' w)))
       else (Inr nodes, w)))"
      by (rule halts_nodes) (rule stuck_saved, simp_all add: setCondition_def cond_defs)
  qed (rule stuck_fail)
  show ?thesis unfolding reconcileInfra_def
    by ((rule halts_attempt, rule stuck_steps, rule stuck_steps)+, rule last)
qed



end
