(* ===== verification/Artifact_Store.thy ===== *)
theory Artifact_Store
  imports Cluster_CR Object_Keys "HOL-Library.AList"
begin

text \<open>
  The object stores of \<^verbatim>\<open>src/pkg/backup\<close>: the interface \<^verbatim>\<open>ArtifactStore\<close> and the manifest helpers
  (\<^verbatim>\<open>store.go\<close>, \<^verbatim>\<open>manifest.go\<close>), the in-memory store (\<^verbatim>\<open>fake.go\<close>), the three cloud stores
  (\<^verbatim>\<open>s3.go\<close>, \<^verbatim>\<open>gcs.go\<close>, \<^verbatim>\<open>azure.go\<close>), the filesystem store
  (\<^verbatim>\<open>filesystem.go\<close>) and the choice of a backend (\<^verbatim>\<open>config.go\<close>).

  A store is a record of its five operations over a state.  A byte stream is what it delivers and the error, if
  any, that ends it.  The cloud services are parameters: a record of the calls on one bucket; so is the file system.  JSON is a
  parameter too, a pair of functions.  The locale \<open>artifact_store\<close> states the contract written at the
  interface; the in-memory store satisfies it.
\<close>

subsection \<open>The interface\<close>

type_synonym stream = "string \<times> string option"

datatype store_error = ErrNotExist string | StoreError string

fun store_text :: "store_error \<Rightarrow> string" where
  "store_text (ErrNotExist s) = s @ '': backup: object does not exist''"
| "store_text (StoreError s) = s"

record 'st ArtifactStore =
  sto_Put :: "string \<Rightarrow> stream \<Rightarrow> int \<Rightarrow> 'st \<Rightarrow> string option \<times> 'st"
  sto_Get :: "string \<Rightarrow> 'st \<Rightarrow> (store_error, stream) result"
  sto_List :: "string \<Rightarrow> 'st \<Rightarrow> (string, string list) result"
  sto_Delete :: "string \<Rightarrow> 'st \<Rightarrow> string option \<times> 'st"
  sto_Exists :: "string \<Rightarrow> 'st \<Rightarrow> (string, bool) result"

subsection \<open>The manifest\<close>

record ShardManifest =
  sm_Index :: int
  sm_PrimaryNodeID :: string
  sm_SlotRanges :: string
  sm_RDBKey :: string
  sm_SizeBytes :: int
  sm_SHA256 :: string
  sm_MasterReplOffset :: int

record Manifest =
  mf_SchemaVersion :: int
  mf_APIVersion :: string
  mf_Cluster :: string
  mf_BackupName :: string
  mf_Mode :: string
  mf_CRVersion :: string
  mf_EngineVersion :: string
  mf_CreatedAt :: string
  mf_Consistency :: string
  mf_SlotCoverage :: string
  mf_Shards :: "ShardManifest list"

definition ManifestSchemaVersion :: int where "ManifestSchemaVersion = 1"
definition ManifestAPIVersion :: string where "ManifestAPIVersion = ''valkey.percona.com/v1alpha1''"

record json =
  js_encode :: "Manifest \<Rightarrow> (string, string) result"
  js_decode :: "string \<Rightarrow> (string, Manifest) result"

definition MarshalManifest :: "json \<Rightarrow> Manifest \<Rightarrow> (string, string) result" where
  "MarshalManifest J m =
     (let m1 = (if mf_SchemaVersion m = 0 then m \<lparr> mf_SchemaVersion := ManifestSchemaVersion \<rparr> else m);
          m2 = (if mf_APIVersion m1 = '''' then m1 \<lparr> mf_APIVersion := ManifestAPIVersion \<rparr> else m1)
      in case js_encode J m2 of Inl e \<Rightarrow> Inl (''marshal backup manifest: '' @ e) | Inr data \<Rightarrow> Inr data)"

definition UnmarshalManifest :: "json \<Rightarrow> string \<Rightarrow> (string, Manifest) result" where
  "UnmarshalManifest J data =
     (case js_decode J data of
        Inl e \<Rightarrow> Inl (''unmarshal backup manifest: '' @ e)
      | Inr m \<Rightarrow>
          if mf_SchemaVersion m > ManifestSchemaVersion
          then Inl (''unsupported manifest schemaVersion '' @ Itoa (mf_SchemaVersion m) @ '' (this build understands up to '' @
                 Itoa ManifestSchemaVersion @ '')'')
          else Inr m)"

definition WriteManifest :: "json \<Rightarrow> 'st ArtifactStore \<Rightarrow> string \<Rightarrow> Manifest \<Rightarrow> 'st \<Rightarrow> string option \<times> 'st" where
  "WriteManifest J S key m st =
     (case MarshalManifest J m of Inl e \<Rightarrow> (Some e, st) | Inr data \<Rightarrow> sto_Put S key (data, None) (int (length data)) st)"

definition ReadManifest :: "json \<Rightarrow> 'st ArtifactStore \<Rightarrow> string \<Rightarrow> 'st \<Rightarrow> (string, Manifest) result" where
  "ReadManifest J S key st =
     (case sto_Get S key st of
        Inl e \<Rightarrow> Inl (store_text e)
      | Inr (data, Some e) \<Rightarrow> Inl e
      | Inr (data, None) \<Rightarrow> UnmarshalManifest J data)"

subsection \<open>The in-memory store\<close>

datatype FakeOp = FakeOpPut string | FakeOpDelete string

record FakeStore =
  fk_objects :: "(string \<times> string) list"
  fk_ops :: "FakeOp list"
  fk_failPut :: "(string \<Rightarrow> string option) option"

definition NewFakeStore :: FakeStore where
  "NewFakeStore = \<lparr> fk_objects = [], fk_ops = [], fk_failPut = None \<rparr>"

definition SetPutError :: "(string \<Rightarrow> string option) option \<Rightarrow> FakeStore \<Rightarrow> FakeStore" where
  "SetPutError fn f = f \<lparr> fk_failPut := fn \<rparr>"

definition FakeStore_Put :: "string \<Rightarrow> stream \<Rightarrow> int \<Rightarrow> FakeStore \<Rightarrow> string option \<times> FakeStore" where
  "FakeStore_Put key r n f =
     (case r of
        (_, Some e) \<Rightarrow> (Some (''fake store: read '' @ quoted key @ '': '' @ e), f)
      | (data, None) \<Rightarrow>
          (case (case fk_failPut f of None \<Rightarrow> None | Some fn \<Rightarrow> fn key) of
             Some e \<Rightarrow> (Some e, f)
           | None \<Rightarrow> (None, f \<lparr> fk_objects := AList.update key data (fk_objects f), fk_ops := fk_ops f @ [FakeOpPut key] \<rparr>)))"

definition FakeStore_Get :: "string \<Rightarrow> FakeStore \<Rightarrow> (store_error, stream) result" where
  "FakeStore_Get key f =
     (case map_of (fk_objects f) key of None \<Rightarrow> Inl (ErrNotExist (''get '' @ quoted key)) | Some data \<Rightarrow> Inr (data, None))"

definition FakeStore_List :: "string \<Rightarrow> FakeStore \<Rightarrow> (string, string list) result" where
  "FakeStore_List prefix f =
     Inr (sort (filter (\<lambda>k. prefix = '''' \<or> k = prefix \<or> HasPrefix k (TrimSuffix prefix ''/'' @ ''/'')) (map fst (fk_objects f))))"

definition FakeStore_Delete :: "string \<Rightarrow> FakeStore \<Rightarrow> string option \<times> FakeStore" where
  "FakeStore_Delete key f = (None, f \<lparr> fk_objects := AList.delete key (fk_objects f), fk_ops := fk_ops f @ [FakeOpDelete key] \<rparr>)"

definition FakeStore_Exists :: "string \<Rightarrow> FakeStore \<Rightarrow> (string, bool) result" where
  "FakeStore_Exists key f = Inr (map_of (fk_objects f) key \<noteq> None)"

definition fake :: "FakeStore ArtifactStore" where
  "fake = \<lparr> sto_Put = FakeStore_Put, sto_Get = FakeStore_Get, sto_List = FakeStore_List, sto_Delete = FakeStore_Delete,
            sto_Exists = FakeStore_Exists \<rparr>"

subsection \<open>Cloud stores\<close>

text \<open>The calls on a bucket; a read of an absent object fails with \<open>ErrNotExist\<close>.  A write fails while the data is
  sent or when it is completed.\<close>

datatype put_error = SendError string | CompleteError string

fun put_text :: "put_error \<Rightarrow> string" where
  "put_text (SendError e) = e"
| "put_text (CompleteError e) = e"

record 'st bucket_api =
  bu_put :: "string \<Rightarrow> stream \<Rightarrow> 'st \<Rightarrow> put_error option \<times> 'st"
  bu_get :: "string \<Rightarrow> 'st \<Rightarrow> (store_error, stream) result"
  bu_list :: "string \<Rightarrow> 'st \<Rightarrow> (string, string list) result"
  bu_delete :: "string \<Rightarrow> 'st \<Rightarrow> store_error option \<times> 'st"
  bu_head :: "string \<Rightarrow> 'st \<Rightarrow> store_error option"

definition fullKey :: "string \<Rightarrow> string \<Rightarrow> string" where
  "fullKey prefix key = joinKey [prefix, key]"

definition s3_stripPrefix :: "string \<Rightarrow> string \<Rightarrow> string" where
  "s3_stripPrefix prefix full =
     (if prefix = '''' then full else TrimPrefix full (TrimPrefix (Trim prefix slash @ ''/'') ''/''))"

definition gcs_stripPrefix :: "string \<Rightarrow> string \<Rightarrow> string" where
  "gcs_stripPrefix prefix full = (if prefix = '''' then full else TrimPrefix full (Trim prefix slash @ ''/''))"

definition azure_stripPrefix :: "string \<Rightarrow> string \<Rightarrow> string" where
  "azure_stripPrefix prefix full = (if prefix = '''' then full else TrimPrefix full (Trim prefix slash @ ''/''))"

text \<open>The operations of the three stores differ in the messages, in the stripping of the prefix, in the two steps of a write
  to GCS and in the test for a blob of Azure, which opens it.\<close>

definition cloud_Put :: "string \<Rightarrow> 'st bucket_api \<Rightarrow> string \<Rightarrow> string \<Rightarrow> stream \<Rightarrow> int \<Rightarrow> 'st \<Rightarrow> string option \<times> 'st" where
  "cloud_Put backend B prefix key r n st =
     (case bu_put B (fullKey prefix key) r st of
        (None, st1) \<Rightarrow> (None, st1)
      | (Some e, st1) \<Rightarrow> (Some (backend @ '' backend: put '' @ quoted key @ '': '' @ put_text e), st1))"

definition gcs_Put :: "'st bucket_api \<Rightarrow> string \<Rightarrow> string \<Rightarrow> stream \<Rightarrow> int \<Rightarrow> 'st \<Rightarrow> string option \<times> 'st" where
  "gcs_Put B prefix key r n st =
     (case bu_put B (fullKey prefix key) r st of
        (None, st1) \<Rightarrow> (None, st1)
      | (Some (SendError e), st1) \<Rightarrow> (Some (''gcs backend: put '' @ quoted key @ '': '' @ e), st1)
      | (Some (CompleteError e), st1) \<Rightarrow> (Some (''gcs backend: finalize '' @ quoted key @ '': '' @ e), st1))"

definition cloud_Get :: "string \<Rightarrow> 'st bucket_api \<Rightarrow> string \<Rightarrow> string \<Rightarrow> 'st \<Rightarrow> (store_error, stream) result" where
  "cloud_Get backend B prefix key st =
     (case bu_get B (fullKey prefix key) st of
        Inr s \<Rightarrow> Inr s
      | Inl (ErrNotExist _) \<Rightarrow> Inl (ErrNotExist (backend @ '' backend: get '' @ quoted key))
      | Inl e \<Rightarrow> Inl (StoreError (backend @ '' backend: get '' @ quoted key @ '': '' @ store_text e)))"

definition cloud_List :: "string \<Rightarrow> (string \<Rightarrow> string \<Rightarrow> string) \<Rightarrow> 'st bucket_api \<Rightarrow> string \<Rightarrow> string \<Rightarrow> 'st \<Rightarrow> (string, string list) result" where
  "cloud_List backend strip B prefix p st =
     (case bu_list B (fullKey prefix p) st of
        Inl e \<Rightarrow> Inl (backend @ '' backend: list '' @ quoted p @ '': '' @ e)
      | Inr names \<Rightarrow> Inr (map (strip prefix) names))"

definition cloud_Delete :: "string \<Rightarrow> 'st bucket_api \<Rightarrow> string \<Rightarrow> string \<Rightarrow> 'st \<Rightarrow> string option \<times> 'st" where
  "cloud_Delete backend B prefix key st =
     (case bu_delete B (fullKey prefix key) st of
        (Some (StoreError e), st1) \<Rightarrow> (Some (backend @ '' backend: delete '' @ quoted key @ '': '' @ e), st1)
      | (_, st1) \<Rightarrow> (None, st1))"

definition cloud_Exists :: "string \<Rightarrow> 'st bucket_api \<Rightarrow> string \<Rightarrow> string \<Rightarrow> 'st \<Rightarrow> (string, bool) result" where
  "cloud_Exists backend B prefix key st =
     (case bu_head B (fullKey prefix key) st of
        None \<Rightarrow> Inr True
      | Some (ErrNotExist _) \<Rightarrow> Inr False
      | Some (StoreError e) \<Rightarrow> Inl (backend @ '' backend: exists '' @ quoted key @ '': '' @ e))"

definition s3_Put :: "'st bucket_api \<Rightarrow> string \<Rightarrow> string \<Rightarrow> stream \<Rightarrow> int \<Rightarrow> 'st \<Rightarrow> string option \<times> 'st" where
  "s3_Put = cloud_Put ''s3''"

definition s3_Get :: "'st bucket_api \<Rightarrow> string \<Rightarrow> string \<Rightarrow> 'st \<Rightarrow> (store_error, stream) result" where
  "s3_Get = cloud_Get ''s3''"

definition s3_List :: "'st bucket_api \<Rightarrow> string \<Rightarrow> string \<Rightarrow> 'st \<Rightarrow> (string, string list) result" where
  "s3_List = cloud_List ''s3'' s3_stripPrefix"

definition s3_Delete :: "'st bucket_api \<Rightarrow> string \<Rightarrow> string \<Rightarrow> 'st \<Rightarrow> string option \<times> 'st" where
  "s3_Delete = cloud_Delete ''s3''"

definition s3_Exists :: "'st bucket_api \<Rightarrow> string \<Rightarrow> string \<Rightarrow> 'st \<Rightarrow> (string, bool) result" where
  "s3_Exists = cloud_Exists ''s3''"

definition gcs_Get :: "'st bucket_api \<Rightarrow> string \<Rightarrow> string \<Rightarrow> 'st \<Rightarrow> (store_error, stream) result" where
  "gcs_Get = cloud_Get ''gcs''"

definition gcs_List :: "'st bucket_api \<Rightarrow> string \<Rightarrow> string \<Rightarrow> 'st \<Rightarrow> (string, string list) result" where
  "gcs_List = cloud_List ''gcs'' gcs_stripPrefix"

definition gcs_Delete :: "'st bucket_api \<Rightarrow> string \<Rightarrow> string \<Rightarrow> 'st \<Rightarrow> string option \<times> 'st" where
  "gcs_Delete = cloud_Delete ''gcs''"

definition gcs_Exists :: "'st bucket_api \<Rightarrow> string \<Rightarrow> string \<Rightarrow> 'st \<Rightarrow> (string, bool) result" where
  "gcs_Exists = cloud_Exists ''gcs''"

definition azure_Put :: "'st bucket_api \<Rightarrow> string \<Rightarrow> string \<Rightarrow> stream \<Rightarrow> int \<Rightarrow> 'st \<Rightarrow> string option \<times> 'st" where
  "azure_Put = cloud_Put ''azure''"

definition azure_Get :: "'st bucket_api \<Rightarrow> string \<Rightarrow> string \<Rightarrow> 'st \<Rightarrow> (store_error, stream) result" where
  "azure_Get = cloud_Get ''azure''"

definition azure_List :: "'st bucket_api \<Rightarrow> string \<Rightarrow> string \<Rightarrow> 'st \<Rightarrow> (string, string list) result" where
  "azure_List = cloud_List ''azure'' azure_stripPrefix"

definition azure_Delete :: "'st bucket_api \<Rightarrow> string \<Rightarrow> string \<Rightarrow> 'st \<Rightarrow> string option \<times> 'st" where
  "azure_Delete = cloud_Delete ''azure''"

definition azure_Exists :: "'st bucket_api \<Rightarrow> string \<Rightarrow> string \<Rightarrow> 'st \<Rightarrow> (string, bool) result" where
  "azure_Exists B prefix key st =
     (case bu_get B (fullKey prefix key) st of
        Inr _ \<Rightarrow> Inr True
      | Inl (ErrNotExist _) \<Rightarrow> Inr False
      | Inl (StoreError e) \<Rightarrow> Inl (''azure backend: exists '' @ quoted key @ '': '' @ e))"

definition s3Store :: "'st bucket_api \<Rightarrow> string \<Rightarrow> 'st ArtifactStore" where
  "s3Store B prefix = \<lparr> sto_Put = s3_Put B prefix, sto_Get = s3_Get B prefix, sto_List = s3_List B prefix,
     sto_Delete = s3_Delete B prefix, sto_Exists = s3_Exists B prefix \<rparr>"

definition gcsStore :: "'st bucket_api \<Rightarrow> string \<Rightarrow> 'st ArtifactStore" where
  "gcsStore B prefix = \<lparr> sto_Put = gcs_Put B prefix, sto_Get = gcs_Get B prefix, sto_List = gcs_List B prefix,
     sto_Delete = gcs_Delete B prefix, sto_Exists = gcs_Exists B prefix \<rparr>"

definition azureStore :: "'st bucket_api \<Rightarrow> string \<Rightarrow> 'st ArtifactStore" where
  "azureStore B prefix = \<lparr> sto_Put = azure_Put B prefix, sto_Get = azure_Get B prefix, sto_List = azure_List B prefix,
     sto_Delete = azure_Delete B prefix, sto_Exists = azure_Exists B prefix \<rparr>"

lemmas s3_defs = s3_Put_def s3_Get_def s3_List_def s3_Delete_def s3_Exists_def

lemmas gcs_defs = gcs_Put_def gcs_Get_def gcs_List_def gcs_Delete_def gcs_Exists_def

lemmas azure_defs = azure_Put_def azure_Get_def azure_List_def azure_Delete_def azure_Exists_def

subsection \<open>The filesystem store\<close>

definition pathFor :: "string \<Rightarrow> string \<Rightarrow> (string, string) result" where
  "pathFor root key =
     (let clean = Clean (slash # key); abs = path_Join [root, clean]; rootClean = Clean root
      in if abs \<noteq> rootClean \<and> \<not> HasPrefix abs (rootClean @ ''/'')
         then Inl (''filesystem backend: key '' @ quoted key @ '' escapes root'') else Inr abs)"

definition prefixMatch :: "string \<Rightarrow> string \<Rightarrow> bool" where
  "prefixMatch key prefix \<longleftrightarrow>
     prefix = '''' \<or> (let trimmed = TrimSuffix prefix ''/'' in key = trimmed \<or> HasPrefix key (trimmed @ ''/''))"

text \<open>
  The calls on the file system: making directories, creating a temporary file in a directory, copying a stream into it and
  closing it, renaming, removing, opening, the relative paths of the files below a directory, and whether a path is a
  directory.
\<close>

record 'st fs_api =
  fs_mkdirAll :: "string \<Rightarrow> 'st \<Rightarrow> string option \<times> 'st"
  fs_createTemp :: "string \<Rightarrow> 'st \<Rightarrow> (string, string) result \<times> 'st"
  fs_copy :: "string \<Rightarrow> stream \<Rightarrow> 'st \<Rightarrow> string option \<times> 'st"
  fs_close :: "string \<Rightarrow> 'st \<Rightarrow> string option \<times> 'st"
  fs_rename :: "string \<Rightarrow> string \<Rightarrow> 'st \<Rightarrow> string option \<times> 'st"
  fs_remove :: "string \<Rightarrow> 'st \<Rightarrow> store_error option \<times> 'st"
  fs_open :: "string \<Rightarrow> 'st \<Rightarrow> (store_error, stream) result"
  fs_walk :: "string \<Rightarrow> 'st \<Rightarrow> (string, string list) result"
  fs_stat :: "string \<Rightarrow> 'st \<Rightarrow> (store_error, bool) result"

definition path_Dir :: "string \<Rightarrow> string" where
  "path_Dir p = Clean (rev (dropWhile (\<lambda>c. c \<noteq> slash) (rev p)))"

text \<open>The context is not cancelled when a write begins.\<close>

definition fs_Put :: "'st fs_api \<Rightarrow> string \<Rightarrow> string \<Rightarrow> stream \<Rightarrow> int \<Rightarrow> 'st \<Rightarrow> string option \<times> 'st" where
  "fs_Put F root key r n st =
     (let fails = (\<lambda>what e. Some (''filesystem backend: '' @ what @ '' '' @ quoted key @ '': '' @ e))
      in case pathFor root key of
           Inl e \<Rightarrow> (Some e, st)
         | Inr dst \<Rightarrow>
             (case fs_mkdirAll F (path_Dir dst) st of
                (Some e, st1) \<Rightarrow> (fails ''mkdir for'' e, st1)
              | (None, st1) \<Rightarrow>
                  (case fs_createTemp F (path_Dir dst) st1 of
                     (Inl e, st2) \<Rightarrow> (fails ''temp for'' e, st2)
                   | (Inr tmpName, st2) \<Rightarrow>
                       (case fs_copy F tmpName r st2 of
                          (Some e, st3) \<Rightarrow> (fails ''write'' e, snd (fs_remove F tmpName (snd (fs_close F tmpName st3))))
                        | (None, st3) \<Rightarrow>
                            (case fs_close F tmpName st3 of
                               (Some e, st4) \<Rightarrow> (fails ''close'' e, snd (fs_remove F tmpName st4))
                             | (None, st4) \<Rightarrow>
                                 (case fs_rename F tmpName dst st4 of
                                    (Some e, st5) \<Rightarrow> (fails ''rename'' e, snd (fs_remove F tmpName st5))
                                  | (None, st5) \<Rightarrow> (None, st5)))))))"

definition fs_Get :: "'st fs_api \<Rightarrow> string \<Rightarrow> string \<Rightarrow> 'st \<Rightarrow> (store_error, stream) result" where
  "fs_Get F root key st =
     (case pathFor root key of
        Inl e \<Rightarrow> Inl (StoreError e)
      | Inr src \<Rightarrow>
          (case fs_open F src st of
             Inr f \<Rightarrow> Inr f
           | Inl (ErrNotExist _) \<Rightarrow> Inl (ErrNotExist (''filesystem backend: get '' @ quoted key))
           | Inl (StoreError e) \<Rightarrow> Inl (StoreError (''filesystem backend: get '' @ quoted key @ '': '' @ e))))"

definition fs_List :: "'st fs_api \<Rightarrow> string \<Rightarrow> string \<Rightarrow> 'st \<Rightarrow> (string, string list) result" where
  "fs_List F root prefix st =
     (case fs_walk F root st of
        Inl e \<Rightarrow> Inl (''filesystem backend: list '' @ quoted prefix @ '': '' @ e)
      | Inr rels \<Rightarrow> Inr (filter (\<lambda>key. prefixMatch key prefix) rels))"

definition fs_Delete :: "'st fs_api \<Rightarrow> string \<Rightarrow> string \<Rightarrow> 'st \<Rightarrow> string option \<times> 'st" where
  "fs_Delete F root key st =
     (case pathFor root key of
        Inl e \<Rightarrow> (Some e, st)
      | Inr dst \<Rightarrow>
          (case fs_remove F dst st of
             (Some (StoreError e), st1) \<Rightarrow> (Some (''filesystem backend: delete '' @ quoted key @ '': '' @ e), st1)
           | (_, st1) \<Rightarrow> (None, st1)))"

definition fs_Exists :: "'st fs_api \<Rightarrow> string \<Rightarrow> string \<Rightarrow> 'st \<Rightarrow> (string, bool) result" where
  "fs_Exists F root key st =
     (case pathFor root key of
        Inl e \<Rightarrow> Inl e
      | Inr dst \<Rightarrow>
          (case fs_stat F dst st of
             Inr isDir \<Rightarrow> Inr (\<not> isDir)
           | Inl (ErrNotExist _) \<Rightarrow> Inr False
           | Inl (StoreError e) \<Rightarrow> Inl (''filesystem backend: exists '' @ quoted key @ '': '' @ e)))"

definition fsStore :: "'st fs_api \<Rightarrow> string \<Rightarrow> 'st ArtifactStore" where
  "fsStore F root = \<lparr> sto_Put = fs_Put F root, sto_Get = fs_Get F root, sto_List = fs_List F root,
     sto_Delete = fs_Delete F root, sto_Exists = fs_Exists F root \<rparr>"

subsection \<open>Choosing a backend\<close>

record StorageConfig =
  cfg_Type :: BackupStorageType
  cfg_S3 :: "BackupStorageS3Spec option"
  cfg_GCS :: "BackupStorageGCSSpec option"
  cfg_Azure :: "BackupStorageAzureSpec option"
  cfg_Credentials :: "(string \<times> string) list"
  cfg_FilesystemRoot :: string

definition StorageConfigFromSpec :: "BackupStorageSpec \<Rightarrow> (string \<times> string) list \<Rightarrow> StorageConfig" where
  "StorageConfigFromSpec spec creds =
     \<lparr> cfg_Type = st_Type spec, cfg_S3 = st_S3 spec, cfg_GCS = st_GCS spec, cfg_Azure = st_Azure spec,
       cfg_Credentials = creds, cfg_FilesystemRoot = '''' \<rparr>"

fun storageTypeText :: "BackupStorageType \<Rightarrow> string" where
  "storageTypeText BackupStorageS3 = ''s3''"
| "storageTypeText BackupStorageGCS = ''gcs''"
| "storageTypeText BackupStorageAzure = ''azure''"
| "storageTypeText BackupStorageFilesystem = ''filesystem''"

definition cred :: "(string \<times> string) list \<Rightarrow> string \<Rightarrow> string" where
  "cred env k = (case map_of env k of Some v \<Rightarrow> v | None \<Rightarrow> '''')"

definition staticAWSCreds :: "(string \<times> string) list \<Rightarrow> (string \<times> string \<times> string) option" where
  "staticAWSCreds env =
     (let aid = cred env ''AWS_ACCESS_KEY_ID''; secret = cred env ''AWS_SECRET_ACCESS_KEY''
      in if aid = '''' \<or> secret = '''' then None else Some (aid, secret, cred env ''AWS_SESSION_TOKEN''))"

datatype gcs_auth = InlineJSON string | CredentialsFile string | DefaultCredentials

text \<open>The cloud SDKs and the file system: connecting to a bucket with credentials, testing for a file, making a directory.\<close>

record 'st sdk =
  sdk_s3 :: "BackupStorageS3Spec \<Rightarrow> (string \<times> string \<times> string) option \<Rightarrow> (string, 'st bucket_api) result"
  sdk_gcs :: "string \<Rightarrow> gcs_auth \<Rightarrow> (string, 'st bucket_api) result"
  sdk_azure :: "string \<Rightarrow> string \<Rightarrow> string \<Rightarrow> (string, 'st bucket_api) result"
  sdk_fs :: "string \<Rightarrow> (string, 'st fs_api) result"
  sdk_stat :: "string \<Rightarrow> string option"

definition newS3Store :: "'st sdk \<Rightarrow> StorageConfig \<Rightarrow> (string, 'st ArtifactStore) result" where
  "newS3Store K cfg =
     (case cfg_S3 cfg of
        None \<Rightarrow> Inl ''s3 backend: nil S3 spec''
      | Some s \<Rightarrow>
          if s3_Bucket s = '''' then Inl ''s3 backend: empty bucket''
          else case sdk_s3 K s (staticAWSCreds (cfg_Credentials cfg)) of
                 Inl e \<Rightarrow> Inl (''s3 backend: load config: '' @ e)
               | Inr B \<Rightarrow> Inr (s3Store B (s3_Prefix s)))"

definition gcsClientOptions :: "'st sdk \<Rightarrow> (string \<times> string) list \<Rightarrow> (string, gcs_auth) result" where
  "gcsClientOptions K env =
     (let jsonVal = cred env ''GOOGLE_APPLICATION_CREDENTIALS_JSON''; path = cred env ''GOOGLE_APPLICATION_CREDENTIALS''
      in if jsonVal \<noteq> '''' then Inr (InlineJSON jsonVal)
         else if path \<noteq> ''''
         then (case sdk_stat K path of
                 Some e \<Rightarrow> Inl (''gcs backend: credentials file '' @ quoted path @ '': '' @ e)
               | None \<Rightarrow> Inr (CredentialsFile path))
         else Inr DefaultCredentials)"

definition newGCSStore :: "'st sdk \<Rightarrow> StorageConfig \<Rightarrow> (string, 'st ArtifactStore) result" where
  "newGCSStore K cfg =
     (case cfg_GCS cfg of
        None \<Rightarrow> Inl ''gcs backend: nil GCS spec''
      | Some s \<Rightarrow>
          if gcs_Bucket s = '''' then Inl ''gcs backend: empty bucket''
          else case gcsClientOptions K (cfg_Credentials cfg) of
                 Inl e \<Rightarrow> Inl e
               | Inr auth \<Rightarrow>
                   (case sdk_gcs K (gcs_Bucket s) auth of
                      Inl e \<Rightarrow> Inl (''gcs backend: new client: '' @ e)
                    | Inr B \<Rightarrow> Inr (gcsStore B (gcs_Prefix s))))"

definition newAzureStore :: "'st sdk \<Rightarrow> StorageConfig \<Rightarrow> (string, 'st ArtifactStore) result" where
  "newAzureStore K cfg =
     (case cfg_Azure cfg of
        None \<Rightarrow> Inl ''azure backend: nil Azure spec''
      | Some s \<Rightarrow>
          if az_Container s = '''' then Inl ''azure backend: empty container''
          else let account = cred (cfg_Credentials cfg) ''AZURE_STORAGE_ACCOUNT''; key = cred (cfg_Credentials cfg) ''AZURE_STORAGE_KEY''
               in if account = '''' \<or> key = ''''
                  then Inl ''azure backend: missing AZURE_STORAGE_ACCOUNT/AZURE_STORAGE_KEY credentials''
                  else case sdk_azure K account key (az_Container s) of
                         Inl e \<Rightarrow> Inl (''azure backend: new client: '' @ e)
                       | Inr B \<Rightarrow> Inr (azureStore B (az_Prefix s)))"

definition newFilesystemStore :: "'st sdk \<Rightarrow> StorageConfig \<Rightarrow> (string, 'st ArtifactStore) result" where
  "newFilesystemStore K cfg =
     (if cfg_FilesystemRoot cfg = '''' then Inl ''filesystem backend: empty FilesystemRoot''
      else case sdk_fs K (cfg_FilesystemRoot cfg) of
             Inl e \<Rightarrow> Inl (''filesystem backend: create root '' @ quoted (cfg_FilesystemRoot cfg) @ '': '' @ e)
           | Inr F \<Rightarrow> Inr (fsStore F (cfg_FilesystemRoot cfg)))"

text \<open>The backends that register themselves when the package is loaded.\<close>

definition backendRegistry :: "(BackupStorageType \<times> ('st sdk \<Rightarrow> StorageConfig \<Rightarrow> (string, 'st ArtifactStore) result)) list" where
  "backendRegistry = [(BackupStorageS3, newS3Store), (BackupStorageGCS, newGCSStore), (BackupStorageAzure, newAzureStore),
     (BackupStorageFilesystem, newFilesystemStore)]"

definition NewStore :: "'st sdk \<Rightarrow> StorageConfig \<Rightarrow> (string, 'st ArtifactStore) result" where
  "NewStore K cfg =
     (case map_of backendRegistry (cfg_Type cfg) of
        None \<Rightarrow> Inl (''backup: no storage backend registered for type '' @ quoted (storageTypeText (cfg_Type cfg)) @
                  '' (S3/GCS/Azure/filesystem land in GO-4.2/4.3)'')
      | Some ctor \<Rightarrow>
          (case ctor K cfg of
             Inl e \<Rightarrow> Inl (''backup: construct '' @ quoted (storageTypeText (cfg_Type cfg)) @ '' store: '' @ e)
           | Inr S \<Rightarrow> Inr S))"

definition BackendRegistered :: "BackupStorageType \<Rightarrow> bool" where
  "BackendRegistered t \<longleftrightarrow> map_of (backendRegistry :: (_ \<times> (unit sdk \<Rightarrow> _)) list) t \<noteq> None"

subsection \<open>The contract of a store\<close>

text \<open>A key under a prefix, at the boundaries of \<^verbatim>\<open>/\<close>.\<close>

definition under :: "string \<Rightarrow> string \<Rightarrow> bool" where
  "under p k \<longleftrightarrow> p = '''' \<or> k = p \<or> HasPrefix k (TrimSuffix p ''/'' @ ''/'')"

text \<open>A key without slashes at its ends; the stores that put a prefix before a key trim them.\<close>

definition cleanKey :: "string \<Rightarrow> bool" where
  "cleanKey k \<longleftrightarrow> k \<noteq> '''' \<and> Trim k slash = k"

lemma cleanKey_set:
  assumes "segment c" "segment b"
  shows "cleanKey (ManifestKey c b)" "int64 i \<Longrightarrow> cleanKey (ShardRDBKey c b i)"
proof -
  have "cleanKey (Join ss ''/'')" if "ss \<noteq> []" "list_all segment ss" for ss
    using that Trim_Join [of ss] Join_segments_ends [of ss] by (simp add: cleanKey_def)
  moreover have "segment ''manifest.json''" "segment ''dump.rdb''" by (simp_all add: segment_def token_def isSpace_def slash_def)
  ultimately show "cleanKey (ManifestKey c b)" "int64 i \<Longrightarrow> cleanKey (ShardRDBKey c b i)"
    using assms segment_shardName [of i] by (simp_all add: ManifestKey_segments ShardRDBKey_segments del: Join.simps)
qed

text \<open>
  The contract of the interface, first for writing and reading: a successful write replaces the object by the whole of
  the stream, a read that ends without an error has delivered the object, and a failed write leaves the other keys alone;
  what becomes of its own key is open.
\<close>

locale object_store =
  fixes S :: "'st ArtifactStore" and objects :: "'st \<Rightarrow> string \<Rightarrow> string option"
  assumes put_ok: "cleanKey k \<Longrightarrow> sto_Put S k r n st = (None, st') \<Longrightarrow> snd r = None \<and> objects st' = (objects st)(k \<mapsto> fst r)"
    and put_failed: "cleanKey k \<Longrightarrow> sto_Put S k r n st = (Some e, st') \<Longrightarrow> k' \<noteq> k \<Longrightarrow> objects st' k' = objects st k'"
    and get_ok: "cleanKey k \<Longrightarrow> sto_Get S k st = Inr (d, None) \<Longrightarrow> objects st k = Some d"

text \<open>The three cloud stores keep it on any bucket that stores what it acknowledges, under the prefix of the storage.\<close>

definition keyed :: "('st \<Rightarrow> string \<Rightarrow> string option) \<Rightarrow> string \<Rightarrow> 'st \<Rightarrow> string \<Rightarrow> string option" where
  "keyed content prefix st k = (if cleanKey k then content st (fullKey prefix k) else None)"

lemma fullKey_inj: "cleanKey k \<Longrightarrow> cleanKey k' \<Longrightarrow> fullKey p k = fullKey p k' \<longleftrightarrow> k = k'"
  by (auto simp: fullKey_def joinKey_def cleanKey_def split: if_splits)

lemma keyed_update:
  assumes "cleanKey k" "content st' = (content st)(fullKey p k \<mapsto> d)"
  shows "keyed content p st' = (keyed content p st)(k \<mapsto> d)"
  using assms by (auto simp: keyed_def fun_eq_iff fullKey_inj)

locale bucket =
  fixes B :: "'st bucket_api" and content :: "'st \<Rightarrow> string \<Rightarrow> string option" and prefix :: string
  assumes bucket_put: "bu_put B k r st = (None, st') \<Longrightarrow> snd r = None \<and> content st' = (content st)(k \<mapsto> fst r)"
    and bucket_put_failed: "bu_put B k r st = (Some e, st') \<Longrightarrow> k' \<noteq> k \<Longrightarrow> content st' k' = content st k'"
    and bucket_get: "bu_get B k st = Inr (d, None) \<Longrightarrow> content st k = Some d"
begin

lemma cloud_put_ok:
  assumes "cleanKey k" "bu_put B (fullKey prefix k) r st = (None, st')"
  shows "snd r = None \<and> keyed content prefix st' = (keyed content prefix st)(k \<mapsto> fst r)"
  using bucket_put [OF assms(2)] keyed_update [OF assms(1), of content st' st prefix "fst r"] by simp

lemma cloud_put_failed:
  assumes "cleanKey k" "bu_put B (fullKey prefix k) r st = (Some e, st')" "k' \<noteq> k"
  shows "keyed content prefix st' k' = keyed content prefix st k'"
  using bucket_put_failed [OF assms(2)] assms(1,3) by (simp add: keyed_def fullKey_inj)

lemma cloud_get_ok: "cleanKey k \<Longrightarrow> bu_get B (fullKey prefix k) st = Inr (d, None) \<Longrightarrow> keyed content prefix st k = Some d"
  by (simp add: keyed_def bucket_get)

end

sublocale bucket \<subseteq> s3: object_store "s3Store B prefix" "keyed content prefix"
  by unfold_locales
    (auto simp: s3Store_def s3_defs cloud_Put_def cloud_Get_def cloud_put_ok cloud_put_failed cloud_get_ok
      split: prod.splits option.splits sum.splits store_error.splits)

sublocale bucket \<subseteq> gcs: object_store "gcsStore B prefix" "keyed content prefix"
  by unfold_locales
    (auto simp: gcsStore_def gcs_defs cloud_Get_def cloud_put_ok cloud_put_failed cloud_get_ok
      split: prod.splits option.splits sum.splits store_error.splits put_error.splits)

sublocale bucket \<subseteq> azure: object_store "azureStore B prefix" "keyed content prefix"
  by unfold_locales
    (auto simp: azureStore_def azure_defs cloud_Put_def cloud_Get_def cloud_put_ok cloud_put_failed cloud_get_ok
      split: prod.splits option.splits sum.splits store_error.splits)

text \<open>
  The rest of the contract: a successful deletion leaves the key absent, a failed one the other keys alone, and a listing
  has the keys under the prefix.
\<close>

locale artifact_store = object_store +
  assumes delete_ok: "sto_Delete S k st = (None, st') \<Longrightarrow> objects st' = (objects st)(k := None)"
    and delete_failed: "sto_Delete S k st = (Some e', st') \<Longrightarrow> k' \<noteq> k \<Longrightarrow> objects st' k' = objects st k'"
    and list_ok: "sto_List S p st = Inr ks \<Longrightarrow> set ks = {k. objects st k \<noteq> None \<and> under p k}"

definition fake_objects :: "FakeStore \<Rightarrow> string \<Rightarrow> string option" where
  "fake_objects f = map_of (fk_objects f)"

interpretation fake: artifact_store fake fake_objects
  by unfold_locales
    (auto simp: fake_def fake_objects_def FakeStore_Put_def FakeStore_Get_def FakeStore_Delete_def FakeStore_List_def
       update_conv' delete_conv' under_def map_of_eq_None_iff split: prod.splits option.splits)

end
