(* ===== verification/Go_Time.thy ===== *)
theory Go_Time
  imports Go_Strings
begin

text \<open>
  The formatting of UTC times by Go's \<^verbatim>\<open>time\<close> package that the sources use: RFC 3339 and the compact stamp
  \<^verbatim>\<open>20060102150405\<close>.  A time is a number of nanoseconds since 1970.  The calendar date of a day is computed in
  the Gregorian calendar with years that begin in March, so that the leap day is the last of its year; \<open>days_of\<close>
  is the way back, and the two are inverse, so that different seconds have different stamps.
\<close>

subsection \<open>Calendar\<close>

definition yearStart :: "int \<Rightarrow> int" where
  "yearStart y = 365 * y + y div 4 - y div 100 + y div 400"

text \<open>The year that begins in March and contains the day, counted from 1 March of year 0; then month and day.\<close>

definition marchYear :: "int \<Rightarrow> int" where
  "marchYear z =
     (let era = z div 146097; doe = z - era * 146097
      in (doe - doe div 1460 + doe div 36524 - doe div 146096) div 365 + era * 400)"

definition civil :: "int \<Rightarrow> int \<times> int \<times> int" where
  "civil days =
     (let z = days + 719468; y = marchYear z; doy = z - yearStart y; mp = (5 * doy + 2) div 153;
          d = doy - (153 * mp + 2) div 5 + 1; m = (if mp < 10 then mp + 3 else mp - 9)
      in (if m \<le> 2 then y + 1 else y, m, d))"

definition days_of :: "int \<times> int \<times> int \<Rightarrow> int" where
  "days_of = (\<lambda>(y, m, d). let y1 = (if m \<le> 2 then y - 1 else y); mp = (if m \<le> 2 then m + 9 else m - 3)
     in yearStart y1 + (153 * mp + 2) div 5 + d - 1 - 719468)"

lemma div_bounds: "(0::int) < k \<Longrightarrow> k * (a div k) \<le> a \<and> a < k * (a div k) + k"
  by (smt (verit) mult_div_mod_eq pos_mod_bound pos_mod_sign)

lemma century_days:
  fixes r b :: int
  assumes "0 \<le> r" "r < 36524" "0 \<le> b" "b \<le> 3"
  defines "q \<equiv> (r - (24 * b + r) div 1460) div 365"
  shows "0 \<le> q" "q \<le> 99" "365 * q + q div 4 \<le> r" "r \<le> 365 * q + q div 4 + 365"
proof -
  define t where "t = (24 * b + r) div 1460"
  define p where "p = q div 4"
  have t: "1460 * t \<le> 24 * b + r" "24 * b + r < 1460 * t + 1460" using div_bounds [of 1460 "24 * b + r"] by (simp_all add: t_def)
  have q: "365 * q \<le> r - t" "r - t < 365 * q + 365" using div_bounds [of 365 "r - t"] by (simp_all add: q_def t_def)
  have p: "4 * p \<le> q" "q < 4 * p + 4" using div_bounds [of 4 q] by (simp_all add: p_def)
  have t0: "0 \<le> t" "t \<le> 25" using t assms by linarith+
  show "0 \<le> q" using q t t0 assms by linarith
  show "q \<le> 99" using q t t0 assms by linarith
  show "365 * q + q div 4 \<le> r" using q t p t0 assms unfolding p_def [symmetric] by linarith
  show "r \<le> 365 * q + q div 4 + 365" using q t p t0 assms unfolding p_def [symmetric] by linarith
qed

lemma yearStart_era: "yearStart (y + era * 400) = yearStart y + era * 146097"
proof -
  have "(y + era * 400) div 4 = y div 4 + era * 100" "(y + era * 400) div 100 = y div 100 + era * 4" "(y + era * 400) div 400 = y div 400 + era"
    using div_mult_self1 [of 4 y "era * 100"] div_mult_self1 [of 100 y "era * 4"] div_mult_self1 [of 400 y era] by (simp_all add: mult.commute)
  then show ?thesis by (simp add: yearStart_def)
qed

lemma marchYear_bounds: "0 \<le> z - yearStart (marchYear z)" "z - yearStart (marchYear z) \<le> 365"
proof -
  define era where "era = z div 146097"
  define doe where "doe = z - era * 146097"
  define yoe where "yoe = (doe - doe div 1460 + doe div 36524 - doe div 146096) div 365"
  have doe: "0 \<le> doe" "doe < 146097" using div_bounds [of 146097 z] by (simp_all add: doe_def era_def)
  have z: "z - yearStart (marchYear z) = doe - yearStart yoe"
    unfolding marchYear_def Let_def era_def [symmetric] doe_def [symmetric] yoe_def [symmetric] yearStart_era by (simp add: doe_def)
  have "0 \<le> doe - yearStart yoe \<and> doe - yearStart yoe \<le> 365"
  proof (cases "doe = 146096")
    case True
    then show ?thesis by (simp add: yoe_def yearStart_def)
  next
    case False
    define b where "b = doe div 36524"
    define r where "r = doe - 36524 * b"
    define q where "q = (r - (24 * b + r) div 1460) div 365"
    have r: "0 \<le> r" "r < 36524" using div_bounds [of 36524 doe] by (simp_all add: r_def b_def)
    have b: "0 \<le> b" "b \<le> 3" using doe False r by (simp_all add: r_def)
    note c = century_days [OF r b, folded q_def]
    have "doe div 1460 = 25 * b + (24 * b + r) div 1460"
      using div_mult_self1 [of 1460 "24 * b + r" "25 * b"] by (simp add: r_def algebra_simps)
    moreover have "doe div 146096 = 0" using doe False by simp
    ultimately have "yoe = (r - (24 * b + r) div 1460 + 365 * (100 * b)) div 365"
      by (simp add: yoe_def b_def [symmetric]) (simp add: r_def)
    then have yoe: "yoe = q + 100 * b" unfolding q_def by simp
    have "(q + 100 * b) div 4 = q div 4 + 25 * b" "(q + 100 * b) div 100 = b" "(q + 100 * b) div 400 = 0"
      using div_mult_self1 [of 4 q "25 * b"] c b by (simp_all add: mult.commute)
    then have "yearStart yoe = 36524 * b + 365 * q + q div 4" by (simp add: yearStart_def yoe)
    then show ?thesis using c by (simp add: r_def)
  qed
  then show "0 \<le> z - yearStart (marchYear z)" "z - yearStart (marchYear z) \<le> 365" by (simp_all add: z)
qed

lemma days_of_civil: "days_of (civil days) = days"
proof -
  define z where "z = days + 719468"
  define y where "y = marchYear z"
  define doy where "doy = z - yearStart y"
  define mp where "mp = (5 * doy + 2) div 153"
  have "0 \<le> doy" "doy \<le> 365" using marchYear_bounds [of z] by (simp_all add: doy_def y_def)
  then have "0 \<le> mp" "mp \<le> 11" using div_bounds [of 153 "5 * doy + 2"] by (simp_all add: mp_def)
  then show ?thesis
    unfolding civil_def days_of_def Let_def z_def [symmetric] y_def [symmetric] doy_def [symmetric] mp_def [symmetric]
    by (simp add: doy_def z_def add.commute)
qed

subsection \<open>Formatting\<close>

fun digits :: "nat \<Rightarrow> nat \<Rightarrow> string" where
  "digits 0 n = ''''"
| "digits (Suc w) n = digits w (n div 10) @ [char_of (48 + n mod 10)]"

text \<open>A number with at least \<open>w\<close> digits, padded with zeros.\<close>

definition padInt :: "nat \<Rightarrow> int \<Rightarrow> string" where
  "padInt w n =
     (let a = \<bar>n\<bar>; s = (if a < 10 ^ w then digits w (nat a) else Itoa a) in if n < 0 then CHR ''-'' # s else s)"

definition unixSeconds :: "int \<Rightarrow> int" where
  "unixSeconds t = t div 1000000000"

definition Format_stamp :: "int \<Rightarrow> string" where
  "Format_stamp t =
     (let s = unixSeconds t; c = s mod 86400
      in case civil (s div 86400) of (y, m, d) \<Rightarrow>
           padInt 4 y @ padInt 2 m @ padInt 2 d @ padInt 2 (c div 3600) @ padInt 2 (c mod 3600 div 60) @ padInt 2 (c mod 60))"

definition Format_RFC3339 :: "int \<Rightarrow> string" where
  "Format_RFC3339 t =
     (let s = unixSeconds t; c = s mod 86400
      in case civil (s div 86400) of (y, m, d) \<Rightarrow>
           padInt 4 y @ ''-'' @ padInt 2 m @ ''-'' @ padInt 2 d @ ''T'' @ padInt 2 (c div 3600) @ '':'' @
           padInt 2 (c mod 3600 div 60) @ '':'' @ padInt 2 (c mod 60) @ ''Z'')"

lemma length_digits [simp]: "length (digits w n) = w"
  by (induction w arbitrary: n) simp_all

lemma digits_inj: "digits w a = digits w b \<Longrightarrow> a < 10 ^ w \<Longrightarrow> b < 10 ^ w \<Longrightarrow> a = b"
proof (induction w arbitrary: a b)
  case (Suc w)
  have c: "char_of (48 + a mod 10) = (char_of (48 + b mod 10) :: char)" and d: "digits w (a div 10) = digits w (b div 10)"
    using Suc.prems(1) by simp_all
  have "48 + n mod 10 < (256 :: nat)" for n :: nat using mod_less_divisor [of 10 n] by linarith
  then have "(of_char (char_of (48 + n mod 10) :: char) :: nat) = 48 + n mod 10" for n :: nat
    by (simp add: take_bit_eq_mod)
  with arg_cong [OF c, of "of_char :: char \<Rightarrow> nat"] have "a mod 10 = b mod 10" by simp
  moreover have "a div 10 = b div 10" using Suc.IH [OF d] Suc.prems(2,3) by (simp add: less_mult_imp_div_less)
  ultimately show ?case by (metis div_mult_mod_eq)
qed simp

lemma padInt_inj:
  assumes "padInt w a @ xs = padInt w b @ ys" "0 \<le> a" "a < 10 ^ w" "0 \<le> b" "b < 10 ^ w"
  shows "a = b \<and> xs = ys"
proof -
  have "digits w (nat a) = digits w (nat b)" "xs = ys" using assms by (auto simp: padInt_def Let_def)
  moreover have "nat a < 10 ^ w" "nat b < 10 ^ w" using assms by (simp_all add: nat_less_iff)
  ultimately show ?thesis using digits_inj assms by force
qed

lemma clock_bounds:
  fixes s :: int
  defines "c \<equiv> s mod 86400"
  shows "0 \<le> c div 3600" "c div 3600 < 10 ^ 2" "0 \<le> c mod 3600 div 60" "c mod 3600 div 60 < 10 ^ 2" "0 \<le> c mod 60" "c mod 60 < 10 ^ 2"
    and "s = 86400 * (s div 86400) + 3600 * (c div 3600) + 60 * (c mod 3600 div 60) + c mod 60"
proof -
  have c: "0 \<le> c" "c < 86400" by (simp_all add: c_def)
  have m: "0 \<le> c mod 3600" "c mod 3600 < 3600" by simp_all
  have n: "0 \<le> c mod 60" "c mod 60 < 60" by simp_all
  show "0 \<le> c div 3600" "0 \<le> c mod 3600 div 60" "0 \<le> c mod 60" using c m by (simp_all add: pos_imp_zdiv_nonneg_iff)
  show "c div 3600 < 10 ^ 2" "c mod 3600 div 60 < 10 ^ 2" "c mod 60 < 10 ^ 2"
    using div_bounds [of 3600 c] div_bounds [of 60 "c mod 3600"] c m n by simp_all
  have "c mod 3600 mod 60 = c mod 60" by (rule mod_mod_cancel) simp
  then have "c = 3600 * (c div 3600) + (60 * (c mod 3600 div 60) + c mod 60)"
    using mult_div_mod_eq [of 3600 c] mult_div_mod_eq [of 60 "c mod 3600"] by simp
  then show "s = 86400 * (s div 86400) + 3600 * (c div 3600) + 60 * (c mod 3600 div 60) + c mod 60"
    using mult_div_mod_eq [of 86400 s] unfolding c_def [symmetric] by linarith
qed

lemma civil_bounds:
  assumes "civil days = (y, m, d)"
  shows "1 \<le> m" "m \<le> 12" "1 \<le> d" "d \<le> 31"
proof -
  define z where "z = days + 719468"
  define doy where "doy = z - yearStart (marchYear z)"
  define mp where "mp = (5 * doy + 2) div 153"
  have doy: "0 \<le> doy" "doy \<le> 365" using marchYear_bounds [of z] by (simp_all add: doy_def)
  have mp: "153 * mp \<le> 5 * doy + 2" "5 * doy + 2 < 153 * mp + 153" using div_bounds [of 153 "5 * doy + 2"] by (simp_all add: mp_def)
  have r: "m = (if mp < 10 then mp + 3 else mp - 9)" "d = doy - (153 * mp + 2) div 5 + 1"
    using assms unfolding civil_def Let_def z_def [symmetric] doy_def [symmetric] mp_def [symmetric] by auto
  have q: "5 * ((153 * mp + 2) div 5) \<le> 153 * mp + 2" "153 * mp + 2 < 5 * ((153 * mp + 2) div 5) + 5"
    using div_bounds [of 5 "153 * mp + 2"] by simp_all
  show "1 \<le> m" "m \<le> 12" using doy mp by (simp_all add: r(1))
  show "1 \<le> d" "d \<le> 31" unfolding r(2) using doy mp q by linarith+
qed

definition fourDigitYear :: "int \<Rightarrow> bool" where
  "fourDigitYear t \<longleftrightarrow> (case civil (unixSeconds t div 86400) of (y, m, d) \<Rightarrow> 0 \<le> y \<and> y < 10 ^ 4)"

lemma Format_stamp_inj:
  assumes "Format_stamp a = Format_stamp b" "fourDigitYear a" "fourDigitYear b"
  shows "unixSeconds a = unixSeconds b"
proof -
  let ?s = "unixSeconds a" and ?t = "unixSeconds b"
  obtain y m d where c: "civil (?s div 86400) = (y, m, d)" by (metis prod_cases3)
  obtain y' m' d' where c': "civil (?t div 86400) = (y', m', d')" by (metis prod_cases3)
  have y: "0 \<le> y" "y < 10 ^ 4" "0 \<le> y'" "y' < 10 ^ 4" using assms(2,3) c c' by (simp_all add: fourDigitYear_def)
  have md: "0 \<le> m" "m < 10 ^ 2" "0 \<le> d" "d < 10 ^ 2" "0 \<le> m'" "m' < 10 ^ 2" "0 \<le> d'" "d' < 10 ^ 2"
    using civil_bounds [OF c] civil_bounds [OF c'] by simp_all
  note k = clock_bounds(1-6) [of ?s] clock_bounds(1-6) [of ?t]
  have eq: "padInt 4 y @ padInt 2 m @ padInt 2 d @ padInt 2 (?s mod 86400 div 3600) @ padInt 2 (?s mod 86400 mod 3600 div 60) @
        padInt 2 (?s mod 86400 mod 60) @ [] =
      padInt 4 y' @ padInt 2 m' @ padInt 2 d' @ padInt 2 (?t mod 86400 div 3600) @ padInt 2 (?t mod 86400 mod 3600 div 60) @
        padInt 2 (?t mod 86400 mod 60) @ []"
    using assms(1) by (simp add: Format_stamp_def Let_def c c')
  note e1 = padInt_inj [OF eq y] 
  note e2 = padInt_inj [OF conjunct2 [OF e1] md(1,2,5,6)]
  note e3 = padInt_inj [OF conjunct2 [OF e2] md(3,4,7,8)]
  note e4 = padInt_inj [OF conjunct2 [OF e3] k(1,2,7,8)]
  note e5 = padInt_inj [OF conjunct2 [OF e4] k(3,4,9,10)]
  note e6 = padInt_inj [OF conjunct2 [OF e5] k(5,6,11,12)]
  have "?s div 86400 = ?t div 86400" using days_of_civil [of "?s div 86400"] days_of_civil [of "?t div 86400"] c c' e1 e2 e3 by simp
  then show ?thesis using clock_bounds(7) [of ?s] clock_bounds(7) [of ?t] e4 e5 e6 by simp
qed

end
