(* ===== verification/Backup_Sidecar.thy ===== *)
theory Backup_Sidecar
  imports Artifact_Store Go_Time Node_State Naming
begin

text \<open>
  The program that runs in the backup, restore and cleanup Jobs, \<^verbatim>\<open>src/cmd/valkey-backup\<close>, and the
  environment through which the operator controls it, \<^verbatim>\<open>src/pkg/backup/jobenv.go\<close>.

  The environment of the process is a function from names to values.  A run over a store maps its state to a
  result; the source of an RDB is a parameter of \<open>runBackup\<close>, and the replication handshake that provides it
  in production is modelled on the bytes of the connection.  SHA-256 and JSON are parameters.
\<close>

subsection \<open>The environment contract\<close>

definition EnvCluster :: string where "EnvCluster = ''VALKEY_BACKUP_CLUSTER''"
definition EnvBackupName :: string where "EnvBackupName = ''VALKEY_BACKUP_NAME''"
definition EnvMode :: string where "EnvMode = ''VALKEY_BACKUP_MODE''"
definition EnvCRVersion :: string where "EnvCRVersion = ''VALKEY_BACKUP_CR_VERSION''"
definition EnvConsistency :: string where "EnvConsistency = ''VALKEY_BACKUP_CONSISTENCY''"
definition EnvStorageType :: string where "EnvStorageType = ''VALKEY_BACKUP_STORAGE_TYPE''"
definition EnvS3Bucket :: string where "EnvS3Bucket = ''VALKEY_BACKUP_S3_BUCKET''"
definition EnvS3Prefix :: string where "EnvS3Prefix = ''VALKEY_BACKUP_S3_PREFIX''"
definition EnvS3Region :: string where "EnvS3Region = ''VALKEY_BACKUP_S3_REGION''"
definition EnvS3Endpoint :: string where "EnvS3Endpoint = ''VALKEY_BACKUP_S3_ENDPOINT''"
definition EnvGCSBucket :: string where "EnvGCSBucket = ''VALKEY_BACKUP_GCS_BUCKET''"
definition EnvGCSPrefix :: string where "EnvGCSPrefix = ''VALKEY_BACKUP_GCS_PREFIX''"
definition EnvAzureContainer :: string where "EnvAzureContainer = ''VALKEY_BACKUP_AZURE_CONTAINER''"
definition EnvAzurePrefix :: string where "EnvAzurePrefix = ''VALKEY_BACKUP_AZURE_PREFIX''"
definition EnvFSRoot :: string where "EnvFSRoot = ''VALKEY_BACKUP_FS_ROOT''"
definition EnvSeedNode :: string where "EnvSeedNode = ''VALKEY_BACKUP_SEED_NODE''"
definition EnvAuthUser :: string where "EnvAuthUser = ''VALKEY_BACKUP_AUTH_USER''"
definition EnvAuthPassword :: string where "EnvAuthPassword = ''VALKEY_BACKUP_AUTH_PASSWORD''"
definition EnvTLSEnabled :: string where "EnvTLSEnabled = ''VALKEY_BACKUP_TLS''"
definition EnvTLSCAFile :: string where "EnvTLSCAFile = ''VALKEY_BACKUP_TLS_CA_FILE''"
definition EnvDownloadDst :: string where "EnvDownloadDst = ''VALKEY_BACKUP_DOWNLOAD_DST''"
definition EnvEngineVersion :: string where "EnvEngineVersion = ''VALKEY_BACKUP_ENGINE_VERSION''"

lemmas env_names = EnvCluster_def EnvBackupName_def EnvMode_def EnvCRVersion_def EnvConsistency_def EnvStorageType_def EnvS3Bucket_def
  EnvS3Prefix_def EnvS3Region_def EnvS3Endpoint_def EnvGCSBucket_def EnvGCSPrefix_def EnvAzureContainer_def EnvAzurePrefix_def
  EnvFSRoot_def EnvSeedNode_def EnvAuthUser_def EnvAuthPassword_def EnvTLSEnabled_def EnvTLSCAFile_def EnvDownloadDst_def
  EnvEngineVersion_def

record JobEnvParams =
  je_Cluster :: string
  je_Backup :: string
  je_Spec :: BackupStorageSpec
  je_FilesystemRoot :: string
  je_Mode :: string
  je_CRVersion :: string
  je_Consistency :: string
  je_EngineVersion :: string
  je_SeedNode :: string
  je_AuthUser :: string
  je_TLSEnabled :: bool
  je_TLSCAFile :: string
  je_DownloadDst :: string

text \<open>The Go map that is filled is the list of the assignments, in the order in which they are made.\<close>

definition addStorageEnv :: "JobEnvParams \<Rightarrow> (string \<times> string) list" where
  "addStorageEnv p =
     (EnvStorageType, storageTypeText (st_Type (je_Spec p))) #
     (case st_Type (je_Spec p) of
        BackupStorageS3 \<Rightarrow>
          (case st_S3 (je_Spec p) of
             None \<Rightarrow> []
           | Some s \<Rightarrow> [(EnvS3Bucket, s3_Bucket s), (EnvS3Prefix, s3_Prefix s), (EnvS3Region, s3_Region s), (EnvS3Endpoint, s3_EndpointURL s)])
      | BackupStorageGCS \<Rightarrow>
          (case st_GCS (je_Spec p) of
             None \<Rightarrow> [] | Some s \<Rightarrow> [(EnvGCSBucket, gcs_Bucket s), (EnvGCSPrefix, gcs_Prefix s)])
      | BackupStorageAzure \<Rightarrow>
          (case st_Azure (je_Spec p) of
             None \<Rightarrow> [] | Some s \<Rightarrow> [(EnvAzureContainer, az_Container s), (EnvAzurePrefix, az_Prefix s)])
      | BackupStorageFilesystem \<Rightarrow> [(EnvFSRoot, je_FilesystemRoot p)])"

definition addManifestEnv :: "JobEnvParams \<Rightarrow> (string \<times> string) list" where
  "addManifestEnv p = [(EnvMode, je_Mode p), (EnvCRVersion, je_CRVersion p), (EnvConsistency, je_Consistency p),
     (EnvEngineVersion, je_EngineVersion p)]"

definition addConnEnv :: "JobEnvParams \<Rightarrow> (string \<times> string) list" where
  "addConnEnv p = [(EnvSeedNode, je_SeedNode p), (EnvAuthUser, je_AuthUser p)] @
     (if je_TLSEnabled p then [(EnvTLSEnabled, ''true''), (EnvTLSCAFile, je_TLSCAFile p)] else [])"

definition JobEnv :: "JobEnvParams \<Rightarrow> (string \<times> string) list" where
  "JobEnv p =
     (let kv = [(EnvCluster, je_Cluster p), (EnvBackupName, je_Backup p)] @ addStorageEnv p @ addManifestEnv p @ addConnEnv p @
            (if je_DownloadDst p \<noteq> '''' then [(EnvDownloadDst, je_DownloadDst p)] else [])
      in sort_key fst (filter (\<lambda>(k, v). v \<noteq> '''') kv))"

subsection \<open>Reading the environment\<close>

type_synonym environ = "string \<Rightarrow> string"

text \<open>The environment of a container, given its list of variables.\<close>

definition getenv :: "(string \<times> string) list \<Rightarrow> environ" where
  "getenv vars k = (case map_of (rev vars) k of Some v \<Rightarrow> v | None \<Rightarrow> '''')"

definition cloudCredEnvKeys :: "string list" where
  "cloudCredEnvKeys = [''AWS_ACCESS_KEY_ID'', ''AWS_SECRET_ACCESS_KEY'', ''AWS_SESSION_TOKEN'', ''AZURE_STORAGE_ACCOUNT'',
     ''AZURE_STORAGE_KEY'', ''GOOGLE_APPLICATION_CREDENTIALS'', ''GOOGLE_APPLICATION_CREDENTIALS_JSON'']"

definition credsFromEnv :: "environ \<Rightarrow> (string \<times> string) list" where
  "credsFromEnv env = map (\<lambda>k. (k, env k)) (filter (\<lambda>k. env k \<noteq> '''') cloudCredEnvKeys)"

definition s3SpecFromEnv :: "environ \<Rightarrow> BackupStorageS3Spec" where
  "s3SpecFromEnv env = \<lparr> s3_Bucket = env EnvS3Bucket, s3_Prefix = env EnvS3Prefix, s3_Region = env EnvS3Region,
     s3_EndpointURL = env EnvS3Endpoint, s3_CredentialsSecret = '''' \<rparr>"

definition gcsSpecFromEnv :: "environ \<Rightarrow> BackupStorageGCSSpec" where
  "gcsSpecFromEnv env = \<lparr> gcs_Bucket = env EnvGCSBucket, gcs_Prefix = env EnvGCSPrefix, gcs_CredentialsSecret = '''' \<rparr>"

definition azureSpecFromEnv :: "environ \<Rightarrow> BackupStorageAzureSpec" where
  "azureSpecFromEnv env = \<lparr> az_Container = env EnvAzureContainer, az_Prefix = env EnvAzurePrefix, az_CredentialsSecret = '''' \<rparr>"

definition storageConfigFromEnv :: "environ \<Rightarrow> (string, StorageConfig) result" where
  "storageConfigFromEnv env =
     (let t = ToLower (env EnvStorageType);
          cfg = \<lparr> cfg_Type = BackupStorageS3, cfg_S3 = None, cfg_GCS = None, cfg_Azure = None, cfg_Credentials = [], cfg_FilesystemRoot = '''' \<rparr>
      in if t = ''s3'' then Inr (cfg \<lparr> cfg_S3 := Some (s3SpecFromEnv env), cfg_Credentials := credsFromEnv env \<rparr>)
         else if t = ''gcs''
         then Inr (cfg \<lparr> cfg_Type := BackupStorageGCS, cfg_GCS := Some (gcsSpecFromEnv env), cfg_Credentials := credsFromEnv env \<rparr>)
         else if t = ''azure''
         then Inr (cfg \<lparr> cfg_Type := BackupStorageAzure, cfg_Azure := Some (azureSpecFromEnv env), cfg_Credentials := credsFromEnv env \<rparr>)
         else if t = ''filesystem''
         then Inr (cfg \<lparr> cfg_Type := BackupStorageFilesystem, cfg_FilesystemRoot := env EnvFSRoot \<rparr>)
         else Inl (''unknown or empty '' @ EnvStorageType @ ''='' @ quoted (env EnvStorageType)))"

definition envOrDefault :: "environ \<Rightarrow> string \<Rightarrow> string \<Rightarrow> string" where
  "envOrDefault env key def = (if env key \<noteq> '''' then env key else def)"

definition buildStore :: "'st sdk \<Rightarrow> environ \<Rightarrow> (string, 'st ArtifactStore) result" where
  "buildStore K env = (case storageConfigFromEnv env of Inl e \<Rightarrow> Inl e | Inr cfg \<Rightarrow> NewStore K cfg)"

subsection \<open>The shards to snapshot\<close>

record shardPrimary =
  sp_index :: int
  sp_nodeID :: string
  sp_addr :: string
  sp_slots :: "SlotRange list"
  sp_replOffset :: int

text \<open>Parsing the reply does not fail; the offset is left at 0.\<close>

definition snapshotNode :: "NodeState \<Rightarrow> bool" where
  "snapshotNode n \<longleftrightarrow> IsPrimary n \<and> \<not> IsFailed n \<and> \<not> (HasFlag n ''noaddr'' \<or> Addr n = '''') \<and> NodeSlots n \<noteq> []"

definition shardPrimariesFromClusterNodes :: "string \<Rightarrow> (string, shardPrimary list) result" where
  "shardPrimariesFromClusterNodes raw =
     (let primaries = filter snapshotNode (ParseClusterNodes raw)
      in if primaries = [] then Inl ''no slot-owning primaries found in CLUSTER NODES''
         else Inr (map (\<lambda>(i, n). \<lparr> sp_index = int i, sp_nodeID = ID n, sp_addr = Addr n, sp_slots = NodeSlots n, sp_replOffset = 0 \<rparr>)
                (enumerate 0 (sort_key Addr primaries))))"

text \<open>\<open>scrape\<close> is the reply of the seed node to \<^verbatim>\<open>CLUSTER NODES\<close>, or the error of the connection.\<close>

definition resolveShards :: "(string \<Rightarrow> (string, (string, string) result) result) \<Rightarrow> string \<Rightarrow> (string, shardPrimary list) result" where
  "resolveShards scrape seedAddr =
     (if seedAddr = '''' then Inl (''empty '' @ EnvSeedNode)
      else case scrape seedAddr of
             Inl e \<Rightarrow> Inl (''dial seed '' @ seedAddr @ '': '' @ e)
           | Inr (Inl e) \<Rightarrow> Inl (''CLUSTER NODES: '' @ e)
           | Inr (Inr raw) \<Rightarrow> shardPrimariesFromClusterNodes raw)"

subsection \<open>Coverage\<close>

datatype coverageVerdict = coverageComplete | coveragePartial

fun coverageText :: "coverageVerdict \<Rightarrow> string" where
  "coverageText coverageComplete = ''complete''"
| "coverageText coveragePartial = ''partial''"

fun assertCoverage_loop :: "int \<Rightarrow> SlotRange list \<Rightarrow> coverageVerdict" where
  "assertCoverage_loop next [] = (if next \<noteq> TotalSlots then coveragePartial else coverageComplete)"
| "assertCoverage_loop next (r # rs) =
     (if Start r \<noteq> next then coveragePartial
      else if End r < Start r then coveragePartial
      else assertCoverage_loop (End r + 1) rs)"

definition assertCoverage :: "SlotRange list \<Rightarrow> coverageVerdict" where
  "assertCoverage ranges =
     (if ranges = [] then coveragePartial
      else let sorted = sort ranges
           in if Start (hd sorted) \<noteq> 0 then coveragePartial else assertCoverage_loop 0 sorted)"

subsection \<open>Backup\<close>

definition consistencyStrict :: string where "consistencyStrict = ''strict''"
definition consistencyBestEffort :: string where "consistencyBestEffort = ''best-effort''"

text \<open>The source of the RDB of a shard: its stream and declared length, or the error of opening it.\<close>

type_synonym rdb_source = "shardPrimary \<Rightarrow> (string, stream \<times> int) result"

record 'st backupOptions =
  o_cluster :: string
  o_backupName :: string
  o_mode :: string
  o_crVersion :: string
  o_engineVersion :: string
  o_consistency :: string
  o_store :: "'st ArtifactStore option"
  o_shards :: "shardPrimary list"
  o_newRDBSource :: "rdb_source option"
  o_now :: int

definition snapshotShard :: "(string \<Rightarrow> string) \<Rightarrow> 'st backupOptions \<Rightarrow> 'st ArtifactStore \<Rightarrow> rdb_source \<Rightarrow> shardPrimary \<Rightarrow> 'st
    \<Rightarrow> (string, ShardManifest \<times> SlotRange list) result \<times> 'st" where
  "snapshotShard sha256hex opts S src sp st =
     (case src sp of
        Inl e \<Rightarrow> (Inl (''open RDB source: '' @ e), st)
      | Inr (strm, len) \<Rightarrow>
          let key = ShardRDBKey (o_cluster opts) (o_backupName opts) (sp_index sp)
          in case sto_Put S key strm len st of
               (Some e, st1) \<Rightarrow> (Inl (''upload '' @ key @ '': '' @ e), st1)
             | (None, st1) \<Rightarrow>
                 (Inr (\<lparr> sm_Index = sp_index sp, sm_PrimaryNodeID = sp_nodeID sp, sm_SlotRanges = FormatSlotRanges (sp_slots sp),
                         sm_RDBKey = ShardRDBRelKey (sp_index sp), sm_SizeBytes = int (length (fst strm)), sm_SHA256 = sha256hex (fst strm),
                         sm_MasterReplOffset = sp_replOffset sp \<rparr>, sp_slots sp), st1))"

fun runBackup_loop :: "(string \<Rightarrow> string) \<Rightarrow> 'st backupOptions \<Rightarrow> 'st ArtifactStore \<Rightarrow> rdb_source \<Rightarrow> shardPrimary list
    \<Rightarrow> Manifest \<Rightarrow> SlotRange list \<Rightarrow> 'st \<Rightarrow> (string, Manifest \<times> SlotRange list) result \<times> 'st" where
  "runBackup_loop sha256hex opts S src [] man captured st = (Inr (man, captured), st)"
| "runBackup_loop sha256hex opts S src (sp # sps) man captured st =
     (case snapshotShard sha256hex opts S src sp st of
        (Inl e, st1) \<Rightarrow>
          if o_consistency opts \<noteq> consistencyBestEffort then (Inl (''shard '' @ Itoa (sp_index sp) @ '': '' @ e), st1)
          else runBackup_loop sha256hex opts S src sps (man \<lparr> mf_SlotCoverage := coverageText coveragePartial \<rparr>) captured st1
      | (Inr (frag, ranges), st1) \<Rightarrow>
          runBackup_loop sha256hex opts S src sps (man \<lparr> mf_Shards := mf_Shards man @ [frag] \<rparr>) (captured @ ranges) st1)"

definition backupTimestamp :: "'st backupOptions \<Rightarrow> string" where
  "backupTimestamp opts = Format_RFC3339 (o_now opts)"

definition newManifest :: "'st backupOptions \<Rightarrow> Manifest" where
  "newManifest opts = \<lparr> mf_SchemaVersion = 0, mf_APIVersion = '''', mf_Cluster = o_cluster opts, mf_BackupName = o_backupName opts,
     mf_Mode = o_mode opts, mf_CRVersion = o_crVersion opts, mf_EngineVersion = o_engineVersion opts, mf_CreatedAt = backupTimestamp opts,
     mf_Consistency = o_consistency opts, mf_SlotCoverage = '''', mf_Shards = [] \<rparr>"

definition runBackup :: "json \<Rightarrow> (string \<Rightarrow> string) \<Rightarrow> 'st backupOptions \<Rightarrow> 'st \<Rightarrow> string option \<times> 'st" where
  "runBackup J sha256hex opts st =
     (case (o_store opts, o_newRDBSource opts) of
        (None, _) \<Rightarrow> (Some ''backup: nil store'', st)
      | (Some S, None) \<Rightarrow> (Some ''backup: nil RDB source factory'', st)
      | (Some S, Some src) \<Rightarrow>
          (case runBackup_loop sha256hex opts S src (sort_key sp_index (o_shards opts)) (newManifest opts) [] st of
             (Inl e, st1) \<Rightarrow> (Some e, st1)
           | (Inr (man, captured), st1) \<Rightarrow>
               let verdict = assertCoverage captured
               in if verdict = coveragePartial \<and> o_consistency opts \<noteq> consistencyBestEffort then (Some ''incomplete slot coverage'', st1)
                  else case WriteManifest J S (ManifestKey (o_cluster opts) (o_backupName opts))
                              (man \<lparr> mf_SlotCoverage := coverageText verdict \<rparr>) st1 of
                         (Some e, st2) \<Rightarrow> (Some (''write manifest: '' @ e), st2)
                       | (None, st2) \<Rightarrow> (None, st2)))"

subsection \<open>Cleanup\<close>

fun deleteKeys :: "'st ArtifactStore \<Rightarrow> string list \<Rightarrow> 'st \<Rightarrow> string option \<times> 'st" where
  "deleteKeys S [] st = (None, st)"
| "deleteKeys S (k # ks) st =
     (case sto_Delete S k st of
        (Some e, st1) \<Rightarrow> (Some (''delete '' @ quoted k @ '': '' @ e), st1)
      | (None, st1) \<Rightarrow> deleteKeys S ks st1)"

definition runCleanup :: "'st ArtifactStore option \<Rightarrow> string \<Rightarrow> string \<Rightarrow> 'st \<Rightarrow> string option \<times> 'st" where
  "runCleanup store cluster backup st =
     (case store of
        None \<Rightarrow> (Some ''cleanup: nil store'', st)
      | Some S \<Rightarrow>
          (case sto_Delete S (ManifestKey cluster backup) st of
             (Some e, st1) \<Rightarrow> (Some (''delete manifest: '' @ e), st1)
           | (None, st1) \<Rightarrow>
               let setPrefix = SetPrefix cluster backup
               in case sto_List S setPrefix st1 of
                    Inl e \<Rightarrow> (Some (''list set '' @ quoted setPrefix @ '': '' @ e), st1)
                  | Inr keys \<Rightarrow>
                      (case deleteKeys S keys st1 of
                         (Some e, st2) \<Rightarrow> (Some e, st2)
                       | (None, st2) \<Rightarrow>
                           (case sto_List S setPrefix st2 of
                              Inl e \<Rightarrow> (Some (''verify set '' @ quoted setPrefix @ '' empty: '' @ e), st2)
                            | Inr remaining \<Rightarrow>
                                if remaining \<noteq> []
                                then (Some (''set '' @ quoted setPrefix @ '' not fully removed: '' @ Itoa (int (length remaining)) @ '' objects remain''), st2)
                                else (None, st2)))))"

subsection \<open>Download\<close>

definition findShard :: "Manifest \<Rightarrow> int \<Rightarrow> ShardManifest option" where
  "findShard man shardIndex = find (\<lambda>s. sm_Index s = shardIndex) (mf_Shards man)"

text \<open>The error, if any, and what was written to the destination, which is an open file.\<close>

definition runDownload :: "json \<Rightarrow> (string \<Rightarrow> string) \<Rightarrow> 'st ArtifactStore option \<Rightarrow> string \<Rightarrow> string \<Rightarrow> int \<Rightarrow> 'st \<Rightarrow> string option \<times> string" where
  "runDownload J sha256hex store cluster backup shardIndex st =
     (case store of
        None \<Rightarrow> (Some ''download: nil store'', '''')
      | Some S \<Rightarrow>
          (case ReadManifest J S (ManifestKey cluster backup) st of
             Inl e \<Rightarrow> (Some (''read manifest: '' @ e), '''')
           | Inr man \<Rightarrow>
               (case findShard man shardIndex of
                  None \<Rightarrow> (Some (''manifest has no shard '' @ Itoa shardIndex), '''')
                | Some frag \<Rightarrow>
                    let key = ShardRDBKey cluster backup shardIndex
                    in case sto_Get S key st of
                         Inl e \<Rightarrow> (Some (''get '' @ key @ '': '' @ store_text e), '''')
                       | Inr (data, Some e) \<Rightarrow> (Some (''stream '' @ key @ '': '' @ e), data)
                       | Inr (data, None) \<Rightarrow>
                           let got = sha256hex data
                           in if sm_SHA256 frag \<noteq> '''' \<and> got \<noteq> sm_SHA256 frag
                              then (Some (''shard '' @ Itoa shardIndex @ '' sha256 mismatch: got '' @ got @ '' want '' @ sm_SHA256 frag), data)
                              else (None, data))))"

subsection \<open>The replication handshake\<close>

definition crlf :: string where "crlf = [CHR 0x0D, CHR 0x0A]"

definition encodeCommand :: "string list \<Rightarrow> string" where
  "encodeCommand args =
     ''*'' @ Itoa (int (length args)) @ crlf @ concat (map (\<lambda>a. ''$'' @ Itoa (int (length a)) @ crlf @ a @ crlf) args)"

text \<open>What is left to read from a connection is a stream.  A line ends at a line feed; the end of the stream before one is an error.\<close>

definition readLine :: "stream \<Rightarrow> (string, string \<times> stream) result" where
  "readLine inp =
     (case inp of (bytes, failure) \<Rightarrow>
        if CHR 0x0A \<in> set bytes
        then Inr (TrimRightP (\<lambda>c. c = CHR 0x0A \<or> c = CHR 0x0D) (takeWhile (\<lambda>c. c \<noteq> CHR 0x0A) bytes),
                  (drop (Suc (length (takeWhile (\<lambda>c. c \<noteq> CHR 0x0A) bytes))) bytes, failure))
        else Inl (case failure of Some e \<Rightarrow> e | None \<Rightarrow> ''EOF''))"

definition readBulkHeader :: "stream \<Rightarrow> (string, int \<times> stream) result" where
  "readBulkHeader inp =
     (case readLine inp of
        Inl e \<Rightarrow> Inl e
      | Inr (line, rest) \<Rightarrow>
          (case line of
             [] \<Rightarrow> Inl (''unexpected SYNC reply '' @ quoted line @ '' (want $<len>)'')
           | c # lenStr \<Rightarrow>
               if c \<noteq> CHR ''$'' then Inl (''unexpected SYNC reply '' @ quoted line @ '' (want $<len>)'')
               else if lenStr \<noteq> [] \<and> hd lenStr = CHR ''E'' then Inl ''diskless SYNC ($EOF) not supported in v1alpha1''
               else case ParseInt lenStr of
                      (_, Some e) \<Rightarrow> Inl (''parse RDB length '' @ quoted lenStr @ '': strconv.ParseInt: parsing '' @ quoted lenStr @ '': '' @
                               (case e of ErrSyntax \<Rightarrow> ''invalid syntax'' | ErrRange \<Rightarrow> ''value out of range''))
                    | (n, None) \<Rightarrow> if n < 0 then Inl (''negative RDB length '' @ Itoa n) else Inr (n, rest)))"

record authCreds =
  au_username :: string
  au_password :: string

text \<open>\<open>write\<close> is the outcome of a write to the connection.\<close>

definition authenticate :: "(string \<Rightarrow> string option) \<Rightarrow> authCreds \<Rightarrow> stream \<Rightarrow> (string, stream) result" where
  "authenticate write auth inp =
     (if au_password auth = '''' then Inr inp
      else case write (if au_username auth \<noteq> '''' then encodeCommand [''AUTH'', au_username auth, au_password auth]
                       else encodeCommand [''AUTH'', au_password auth]) of
             Some e \<Rightarrow> Inl (''write AUTH: '' @ e)
           | None \<Rightarrow>
               (case readLine inp of
                  Inl e \<Rightarrow> Inl (''read AUTH reply: '' @ e)
                | Inr (line, rest) \<Rightarrow>
                    if line = '''' \<or> hd line \<noteq> CHR ''+'' then Inl (''AUTH rejected: '' @ line) else Inr rest))"

text \<open>Reading no more than \<open>n\<close> bytes: the failure of the connection shows only if it comes before that.\<close>

definition limitReader :: "stream \<Rightarrow> int \<Rightarrow> stream" where
  "limitReader inp n = (take (nat n) (fst inp), if int (length (fst inp)) < n then snd inp else None)"

text \<open>\<open>dial\<close> connects to an address: what the server will send, and the outcome of writes.\<close>

definition sync_Open :: "(string \<Rightarrow> (string, stream \<times> (string \<Rightarrow> string option)) result) \<Rightarrow> authCreds \<Rightarrow> string \<Rightarrow> (string, stream \<times> int) result" where
  "sync_Open dial auth addr =
     (case dial addr of
        Inl e \<Rightarrow> Inl (''dial '' @ addr @ '': '' @ e)
      | Inr (inp, write) \<Rightarrow>
          (case authenticate write auth inp of
             Inl e \<Rightarrow> Inl e
           | Inr inp1 \<Rightarrow>
               (case write (encodeCommand [''SYNC'']) of
                  Some e \<Rightarrow> Inl (''write SYNC: '' @ e)
                | None \<Rightarrow>
                    (case readBulkHeader inp1 of
                       Inl e \<Rightarrow> Inl (''read RDB bulk header: '' @ e)
                     | Inr (n, rest) \<Rightarrow> Inr (limitReader rest n, n)))))"

definition newSyncRDBSource :: "(string \<Rightarrow> (string, stream \<times> (string \<Rightarrow> string option)) result) \<Rightarrow> authCreds \<Rightarrow> rdb_source" where
  "newSyncRDBSource dial auth sp = sync_Open dial auth (sp_addr sp)"

subsection \<open>The modes of the program\<close>

text \<open>
  What a run finds around it: the environment, the SDKs, a connection per address, the scrape of the seed node, the
  reading of a CA bundle, the creation, removal and syncing of the destination file, the clock.  A connection and a
  scrape depend on the TLS configuration, if there is one: its CA bundle, if one is named.
\<close>

record 'st machine =
  mc_env :: environ
  mc_sdk :: "'st sdk"
  mc_dial :: "string option option \<Rightarrow> string \<Rightarrow> (string, stream \<times> (string \<Rightarrow> string option)) result"
  mc_scrape :: "authCreds \<Rightarrow> string option option \<Rightarrow> string \<Rightarrow> (string, (string, string) result) result"
  mc_caFile :: "string \<Rightarrow> (string, string) result"
  mc_parsesPEM :: "string \<Rightarrow> bool"
  mc_create :: "string \<Rightarrow> string option"
  mc_remove :: bool
  mc_sync :: "string option"
  mc_now :: int

definition connSecurityFromEnv :: "'st machine \<Rightarrow> (string, authCreds \<times> string option option) result" where
  "connSecurityFromEnv M =
     (let env = mc_env M;
          auth = \<lparr> au_username = envOrDefault env EnvAuthUser SystemUserBackup, au_password = env EnvAuthPassword \<rparr>;
          caFile = env EnvTLSCAFile
      in if ToLower (env EnvTLSEnabled) \<noteq> ''true'' then Inr (auth, None)
         else if caFile = '''' then Inr (auth, Some None)
         else case mc_caFile M caFile of
                Inl e \<Rightarrow> Inl (''read TLS CA '' @ caFile @ '': '' @ e)
              | Inr caData \<Rightarrow>
                  if \<not> mc_parsesPEM M caData then Inl (''parse TLS CA '' @ caFile) else Inr (auth, Some (Some caData)))"

definition runBackupFromEnv :: "json \<Rightarrow> (string \<Rightarrow> string) \<Rightarrow> 'st machine \<Rightarrow> 'st \<Rightarrow> string option \<times> 'st" where
  "runBackupFromEnv J sha256hex M st =
     (let env = mc_env M
      in case buildStore (mc_sdk M) env of
           Inl e \<Rightarrow> (Some (''init store: '' @ e), st)
         | Inr S \<Rightarrow>
             (case connSecurityFromEnv M of
                Inl e \<Rightarrow> (Some e, st)
              | Inr (auth, tls) \<Rightarrow>
                  (case resolveShards (mc_scrape M auth tls) (env EnvSeedNode) of
                     Inl e \<Rightarrow> (Some (''resolve shards: '' @ e), st)
                   | Inr shards \<Rightarrow>
                       runBackup J sha256hex
                         \<lparr> o_cluster = env EnvCluster, o_backupName = env EnvBackupName, o_mode = envOrDefault env EnvMode ''cluster'',
                           o_crVersion = env EnvCRVersion, o_engineVersion = env EnvEngineVersion,
                           o_consistency = envOrDefault env EnvConsistency consistencyStrict, o_store = Some S, o_shards = shards,
                           o_newRDBSource = Some (newSyncRDBSource (mc_dial M tls) auth), o_now = mc_now M \<rparr> st)))"

text \<open>The error, if any, and the contents of the seed file that is left behind.\<close>

definition runDownloadFromEnv :: "json \<Rightarrow> (string \<Rightarrow> string) \<Rightarrow> 'st machine \<Rightarrow> int \<Rightarrow> 'st \<Rightarrow> string option \<times> string option" where
  "runDownloadFromEnv J sha256hex M shard st =
     (let env = mc_env M; dstPath = envOrDefault env EnvDownloadDst ''/data/dump.rdb''
      in case buildStore (mc_sdk M) env of
           Inl e \<Rightarrow> (Some (''init store: '' @ e), None)
         | Inr S \<Rightarrow>
             (case mc_create M dstPath of
                Some e \<Rightarrow> (Some (''create '' @ dstPath @ '': '' @ e), None)
              | None \<Rightarrow>
                  (case runDownload J sha256hex (Some S) (env EnvCluster) (env EnvBackupName) shard st of
                     (Some e, data) \<Rightarrow> (Some e, if mc_remove M then None else Some data)
                   | (None, data) \<Rightarrow> (mc_sync M, Some data))))"

definition runCleanupFromEnv :: "'st machine \<Rightarrow> 'st \<Rightarrow> string option \<times> 'st" where
  "runCleanupFromEnv M st =
     (case buildStore (mc_sdk M) (mc_env M) of
        Inl e \<Rightarrow> (Some (''init store: '' @ e), st)
      | Inr S \<Rightarrow> runCleanup (Some S) (mc_env M EnvCluster) (mc_env M EnvBackupName) st)"

record cliFlags =
  fl_download :: bool
  fl_cleanup :: bool
  fl_shard :: int

text \<open>\<open>parse\<close> is the parser of the \<^verbatim>\<open>flag\<close> package on the three flags.\<close>

definition parseFlags :: "(string list \<Rightarrow> (string, cliFlags) result) \<Rightarrow> string list \<Rightarrow> (string, cliFlags) result" where
  "parseFlags parse args =
     (case parse args of
        Inl e \<Rightarrow> Inl e
      | Inr f \<Rightarrow> if fl_download f \<and> fl_shard f < 0 then Inl ''--download requires --shard=<i>'' else Inr f)"

definition run :: "json \<Rightarrow> (string \<Rightarrow> string) \<Rightarrow> (string list \<Rightarrow> (string, cliFlags) result) \<Rightarrow> 'st machine \<Rightarrow> string list \<Rightarrow> 'st
    \<Rightarrow> string option \<times> string option \<times> 'st" where
  "run J sha256hex parse M args st =
     (case parseFlags parse args of
        Inl e \<Rightarrow> (Some e, None, st)
      | Inr f \<Rightarrow>
          if fl_cleanup f then (case runCleanupFromEnv M st of (e, st1) \<Rightarrow> (e, None, st1))
          else if fl_download f then (case runDownloadFromEnv J sha256hex M (fl_shard f) st of (e, file) \<Rightarrow> (e, file, st))
          else (case runBackupFromEnv J sha256hex M st of (e, st1) \<Rightarrow> (e, None, st1)))"

subsection \<open>Coverage is exact\<close>

text \<open>How many of the ranges hold a slot; ranges that hold every slot from \<open>a\<close> on exactly once.\<close>

definition holders :: "int \<Rightarrow> SlotRange list \<Rightarrow> nat" where
  "holders s rs = length (filter (\<lambda>r. Start r \<le> s \<and> s \<le> End r) rs)"

lemma holders_simps [simp]:
  "holders s [] = 0" "holders s (r # rs) = (if Start r \<le> s \<and> s \<le> End r then 1 else 0) + holders s rs"
  by (simp_all add: holders_def)

lemma holders_sort [simp]: "holders s (sort rs) = holders s rs"
proof -
  have "mset (filter P (sort rs)) = mset (filter P rs)" for P :: "SlotRange \<Rightarrow> bool" by simp
  then show ?thesis unfolding holders_def by (metis size_mset)
qed

lemma holders_pos: "0 < holders s rs \<longleftrightarrow> (\<exists>r \<in> set rs. Start r \<le> s \<and> s \<le> End r)"
  by (auto simp: holders_def filter_empty_conv)

definition tiles :: "int \<Rightarrow> SlotRange list \<Rightarrow> bool" where
  "tiles a rs \<longleftrightarrow> list_all (\<lambda>r. Start r \<le> End r) rs \<and> (\<forall>s. holders s rs = (if a \<le> s \<and> s < TotalSlots then 1 else 0))"

lemma loop_sound: "assertCoverage_loop a rs = coverageComplete \<Longrightarrow> a \<le> TotalSlots \<and> tiles a rs"
proof (induction a rs rule: assertCoverage_loop.induct)
  case (2 a r rs)
  then have r: "Start r = a" "a \<le> End r" and k: "End r + 1 \<le> TotalSlots" "tiles (End r + 1) rs" by (auto split: if_splits)
  then show ?case by (auto simp: tiles_def)
qed (auto simp: tiles_def split: if_splits)

lemma loop_complete:
  "sorted rs \<Longrightarrow> a \<le> TotalSlots \<Longrightarrow> tiles a rs \<Longrightarrow> assertCoverage_loop a rs = coverageComplete"
proof (induction rs arbitrary: a)
  case Nil
  show ?case
  proof (rule ccontr)
    assume "\<not> ?thesis"
    then have "a < TotalSlots" using Nil.prems by (auto split: if_splits)
    with Nil.prems show False by (auto simp: tiles_def dest: spec [of _ a])
  qed
next
  case (Cons r rs)
  have v: "Start r \<le> End r" and h: "\<And>s. holders s (r # rs) = (if a \<le> s \<and> s < TotalSlots then 1 else 0)"
    using Cons.prems(3) unfolding tiles_def by auto
  have lo: "a \<le> Start r" using h [of "Start r"] v by (auto split: if_splits)
  have hi: "End r < TotalSlots" using h [of "End r"] v by (auto split: if_splits)
  have "holders a (r # rs) = 1" using h [of a] lo v hi by auto
  then obtain r' where r': "r' \<in> set (r # rs)" "Start r' \<le> a" using holders_pos [of a "r # rs"] by auto
  then have "Start r \<le> Start r'" using Cons.prems(1) by (auto simp: less_eq_SlotRange_def)
  with r' lo have st: "Start r = a" by simp
  have "holders s rs = (if End r + 1 \<le> s \<and> s < TotalSlots then 1 else 0)" for s
    using h [of s] st v hi by (auto split: if_splits)
  then have "tiles (End r + 1) rs" using Cons.prems(3) by (auto simp: tiles_def)
  then have "assertCoverage_loop (End r + 1) rs = coverageComplete" using Cons.IH Cons.prems(1) hi by auto
  then show ?case using st v by simp
qed

lemma assertCoverage_tiles: "assertCoverage rs = coverageComplete \<longleftrightarrow> tiles 0 rs"
proof
  assume "assertCoverage rs = coverageComplete"
  then have "assertCoverage_loop 0 (sort rs) = coverageComplete" by (auto simp: assertCoverage_def Let_def split: if_splits)
  from loop_sound [OF this] show "tiles 0 rs" by (simp add: tiles_def list_all_iff)
next
  assume t: "tiles 0 rs"
  then have "tiles 0 (sort rs)" by (simp add: tiles_def list_all_iff)
  then have l: "assertCoverage_loop 0 (sort rs) = coverageComplete" by (intro loop_complete) (simp_all add: TotalSlots_def)
  then have "rs \<noteq> []" by (auto simp: TotalSlots_def)
  moreover have "Start (hd (sort rs)) = 0" using l \<open>rs \<noteq> []\<close> by (cases "sort rs") (auto simp: TotalSlots_def split: if_splits)
  ultimately show "assertCoverage rs = coverageComplete" using l by (simp add: assertCoverage_def Let_def)
qed

text \<open>C11: The verdict on slot coverage is complete exactly when every range is valid and every slot of the key space is in
  exactly one of them, and no other slot in any.\<close>

theorem assertCoverage_exact:
  "assertCoverage ranges = coverageComplete \<longleftrightarrow>
     list_all (\<lambda>r. Start r \<le> End r) ranges \<and>
     (\<forall>s. length (filter (\<lambda>r. Start r \<le> s \<and> s \<le> End r) ranges) = (if 0 \<le> s \<and> s < TotalSlots then 1 else 0))"
  unfolding assertCoverage_tiles tiles_def holders_def ..

subsection \<open>A run over a store that keeps its contract\<close>

text \<open>What the source of a shard delivers in full, the fragment recorded for it, and that its object holds it.\<close>

definition delivered :: "rdb_source \<Rightarrow> shardPrimary \<Rightarrow> string option" where
  "delivered src sp = (case src sp of Inr ((data, None), len) \<Rightarrow> Some data | _ \<Rightarrow> None)"

definition fragment :: "(string \<Rightarrow> string) \<Rightarrow> shardPrimary \<Rightarrow> string \<Rightarrow> ShardManifest" where
  "fragment sha256hex sp data =
     \<lparr> sm_Index = sp_index sp, sm_PrimaryNodeID = sp_nodeID sp, sm_SlotRanges = FormatSlotRanges (sp_slots sp),
       sm_RDBKey = ShardRDBRelKey (sp_index sp), sm_SizeBytes = int (length data), sm_SHA256 = sha256hex data,
       sm_MasterReplOffset = sp_replOffset sp \<rparr>"

definition rdbKey :: "'st backupOptions \<Rightarrow> shardPrimary \<Rightarrow> string" where
  "rdbKey opts sp = ShardRDBKey (o_cluster opts) (o_backupName opts) (sp_index sp)"

definition stored :: "(string \<Rightarrow> string option) \<Rightarrow> 'st backupOptions \<Rightarrow> rdb_source \<Rightarrow> shardPrimary \<Rightarrow> bool" where
  "stored contents opts src sp \<longleftrightarrow> delivered src sp \<noteq> None \<and> contents (rdbKey opts sp) = delivered src sp"

context object_store
begin

lemma snapshot_ok:
  assumes "snapshotShard h opts S src sp st = (Inr (frag, ranges), st1)" "cleanKey (rdbKey opts sp)"
  shows "ranges = sp_slots sp \<and> (\<exists>data. delivered src sp = Some data \<and> frag = fragment h sp data \<and>
     objects st1 = (objects st)(rdbKey opts sp \<mapsto> data))"
  using assms
  by (auto simp: snapshotShard_def delivered_def fragment_def rdbKey_def Let_def split: sum.splits prod.splits option.splits
      dest: put_ok)

lemma snapshot_frame:
  assumes "snapshotShard h opts S src sp st = (r, st1)" "k \<noteq> rdbKey opts sp" "cleanKey (rdbKey opts sp)"
  shows "objects st1 k = objects st k"
  using assms
  by (auto simp: snapshotShard_def rdbKey_def Let_def split: sum.splits prod.splits option.splits dest: put_ok put_failed)

lemma loop_frame:
  "k \<notin> rdbKey opts ` set sps \<Longrightarrow> runBackup_loop h opts S src sps man caps st = (r, st') \<Longrightarrow> \<forall>sp \<in> set sps. cleanKey (rdbKey opts sp) \<Longrightarrow>
   objects st' k = objects st k"
proof (induction sps arbitrary: man caps st)
  case (Cons sp sps)
  obtain q st1 where sn: "snapshotShard h opts S src sp st = (q, st1)" by fastforce
  have f: "objects st1 k = objects st k" using snapshot_frame [OF sn] Cons.prems(1,3) by auto
  show ?case using Cons sn f by (cases q) (auto split: if_splits)
qed simp

lemma loop_ok:
  assumes "distinct (map (rdbKey opts) sps)" "runBackup_loop h opts S src sps man caps st = (Inr (man', caps'), st')"
    "\<forall>sp \<in> set sps. cleanKey (rdbKey opts sp)"
  shows "\<exists>ps. set ps \<subseteq> set sps \<and> (o_consistency opts \<noteq> consistencyBestEffort \<longrightarrow> ps = sps) \<and> caps' = caps @ concat (map sp_slots ps) \<and>
     mf_Shards man' = mf_Shards man @ map (\<lambda>sp. fragment h sp (the (delivered src sp))) ps \<and> (\<forall>sp \<in> set ps. stored (objects st') opts src sp) \<and>
     mf_SchemaVersion man' = mf_SchemaVersion man"
  using assms
proof (induction sps arbitrary: man caps st)
  case (Cons sp sps)
  obtain q st1 where sn: "snapshotShard h opts S src sp st = (q, st1)" by fastforce
  show ?case
  proof (cases q)
    case (Inl e)
    with Cons.prems(1,2) sn have be: "o_consistency opts = consistencyBestEffort" by (auto split: if_splits)
    from Cons.IH [of "man \<lparr> mf_SlotCoverage := coverageText coveragePartial \<rparr>" caps st1] Cons.prems sn Inl be
    show ?thesis by auto
  next
    case (Inr fr)
    then obtain frag ranges where fr: "fr = (frag, ranges)" by fastforce
    from snapshot_ok [of h opts src sp st frag ranges st1] sn Inr fr Cons.prems(3) obtain data where d:
      "ranges = sp_slots sp" "delivered src sp = Some data" "frag = fragment h sp data" "objects st1 = (objects st)(rdbKey opts sp \<mapsto> data)"
      by auto
    have run: "runBackup_loop h opts S src sps (man \<lparr> mf_Shards := mf_Shards man @ [frag] \<rparr>) (caps @ ranges) st1 = (Inr (man', caps'), st')"
      using Cons.prems(2) sn Inr fr by simp
    have "objects st' (rdbKey opts sp) = Some data" using loop_frame [OF _ run] Cons.prems(1,3) d(4) by auto
    then have "stored (objects st') opts src sp" by (simp add: stored_def d(2))
    moreover from Cons.IH [OF _ run] Cons.prems(1,3) obtain ps where
      "set ps \<subseteq> set sps" "o_consistency opts \<noteq> consistencyBestEffort \<longrightarrow> ps = sps" "caps' = (caps @ ranges) @ concat (map sp_slots ps)"
      "mf_Shards man' = (mf_Shards man @ [frag]) @ map (\<lambda>sp. fragment h sp (the (delivered src sp))) ps"
      "\<forall>sp \<in> set ps. stored (objects st') opts src sp" "mf_SchemaVersion man' = mf_SchemaVersion man" by auto
    ultimately show ?thesis using d by (intro exI [of _ "sp # ps"]) auto
  qed
qed auto

end

definition stamped :: "Manifest \<Rightarrow> Manifest" where
  "stamped m =
     (let m1 = (if mf_SchemaVersion m = 0 then m \<lparr> mf_SchemaVersion := ManifestSchemaVersion \<rparr> else m)
      in if mf_APIVersion m1 = '''' then m1 \<lparr> mf_APIVersion := ManifestAPIVersion \<rparr> else m1)"

lemma MarshalManifest_stamped:
  "MarshalManifest J m = Inr d \<longleftrightarrow> js_encode J (stamped m) = Inr d"
  by (simp add: MarshalManifest_def stamped_def Let_def split: sum.splits)

lemma stamped_fields [simp]:
  "mf_Shards (stamped m) = mf_Shards m" "mf_SchemaVersion m = 0 \<Longrightarrow> mf_SchemaVersion (stamped m) = ManifestSchemaVersion"
  by (simp_all add: stamped_def Let_def)

text \<open>The options of a run whose keys do not collide.\<close>

definition wellNamed :: "'st backupOptions \<Rightarrow> bool" where
  "wellNamed opts \<longleftrightarrow> segment (o_cluster opts) \<and> segment (o_backupName opts) \<and> distinct (map sp_index (o_shards opts)) \<and>
     list_all (\<lambda>sp. int64 (sp_index sp)) (o_shards opts)"

abbreviation manifestKey :: "'st backupOptions \<Rightarrow> string" where
  "manifestKey opts \<equiv> ManifestKey (o_cluster opts) (o_backupName opts)"

lemma wellNamed_keys:
  assumes "wellNamed opts"
  shows "distinct (map (rdbKey opts) (sort_key sp_index (o_shards opts)))" "manifestKey opts \<notin> rdbKey opts ` set (o_shards opts)"
    "\<And>sp sp'. sp \<in> set (o_shards opts) \<Longrightarrow> sp' \<in> set (o_shards opts) \<Longrightarrow> sp_index sp = sp_index sp' \<Longrightarrow> sp = sp'"
    "\<forall>sp \<in> set (sort_key sp_index (o_shards opts)). cleanKey (rdbKey opts sp)" "cleanKey (manifestKey opts)"
proof -
  have "inj_on (rdbKey opts) (set (o_shards opts))"
  proof (rule inj_onI)
    fix x y assume xy: "x \<in> set (o_shards opts)" "y \<in> set (o_shards opts)" "rdbKey opts x = rdbKey opts y"
    then have "sp_index x = sp_index y" using assms ShardRDBKey_inj unfolding wellNamed_def rdbKey_def list_all_iff by blast
    then show "x = y" using xy assms by (auto simp: wellNamed_def distinct_map dest: inj_onD)
  qed
  then show "distinct (map (rdbKey opts) (sort_key sp_index (o_shards opts)))"
    using assms by (simp add: distinct_map wellNamed_def)
  show "manifestKey opts \<notin> rdbKey opts ` set (o_shards opts)"
    using assms ShardRDBKey_not_manifest unfolding wellNamed_def rdbKey_def by fastforce
  show "\<And>sp sp'. sp \<in> set (o_shards opts) \<Longrightarrow> sp' \<in> set (o_shards opts) \<Longrightarrow> sp_index sp = sp_index sp' \<Longrightarrow> sp = sp'"
    using assms by (auto simp: wellNamed_def distinct_map dest: inj_onD)
  show "\<forall>sp \<in> set (sort_key sp_index (o_shards opts)). cleanKey (rdbKey opts sp)" "cleanKey (manifestKey opts)"
    using assms cleanKey_set by (simp_all add: wellNamed_def rdbKey_def list_all_iff)
qed

lemma runBackup_cases:
  assumes "o_store opts = Some S" "o_newRDBSource opts = Some src" "runBackup J h opts st = (e, st')"
  obtains (shard) x where "runBackup_loop h opts S src (sort_key sp_index (o_shards opts)) (newManifest opts) [] st = (Inl x, st')" "e = Some x"
  | (coverage) man caps where "runBackup_loop h opts S src (sort_key sp_index (o_shards opts)) (newManifest opts) [] st = (Inr (man, caps), st')"
      "e = Some ''incomplete slot coverage''"
  | (manifest) man caps st1 e1 where "runBackup_loop h opts S src (sort_key sp_index (o_shards opts)) (newManifest opts) [] st = (Inr (man, caps), st1)"
      "o_consistency opts = consistencyBestEffort \<or> assertCoverage caps = coverageComplete"
      "WriteManifest J S (manifestKey opts) (man \<lparr> mf_SlotCoverage := coverageText (assertCoverage caps) \<rparr>) st1 = (e1, st')"
      "e = map_option (\<lambda>x. ''write manifest: '' @ x) e1"
proof -
  obtain q st1 where l: "runBackup_loop h opts S src (sort_key sp_index (o_shards opts)) (newManifest opts) [] st = (q, st1)" by fastforce
  show thesis
  proof (cases q)
    case (Inl x)
    then show ?thesis using assms l by (intro shard [of x]) (auto simp: runBackup_def)
  next
    case (Inr p)
    then obtain man caps where p: "q = Inr (man, caps)" by fastforce
    show ?thesis
    proof (cases "assertCoverage caps = coveragePartial \<and> o_consistency opts \<noteq> consistencyBestEffort")
      case True
      then show ?thesis using assms l p by (intro coverage [of man caps]) (auto simp: runBackup_def Let_def)
    next
      case False
      obtain e1 st2 where w: "WriteManifest J S (manifestKey opts) (man \<lparr> mf_SlotCoverage := coverageText (assertCoverage caps) \<rparr>) st1 = (e1, st2)"
        by fastforce
      have "st2 = st' \<and> e = map_option (\<lambda>x. ''write manifest: '' @ x) e1"
        using assms l p False w by (auto simp: runBackup_def Let_def split: option.splits)
      moreover have "o_consistency opts = consistencyBestEffort \<or> assertCoverage caps = coverageComplete"
        using False by (cases "assertCoverage caps") auto
      ultimately show ?thesis using l p w by (intro manifest [of man caps st1 e1]) auto
    qed
  qed
qed

context object_store
begin

lemma write_frame:
  assumes "WriteManifest J S k m st = (e, st')" "k' \<noteq> k" "cleanKey k"
  shows "objects st' k' = objects st k'"
  using assms by (cases e) (auto simp: WriteManifest_def split: sum.splits dest: put_ok put_failed)

lemma write_ok:
  assumes "WriteManifest J S k m st = (None, st')" "cleanKey k"
  shows "\<exists>d. js_encode J (stamped m) = Inr d \<and> objects st' = (objects st)(k \<mapsto> d)"
  using assms by (auto simp: WriteManifest_def MarshalManifest_stamped split: sum.splits dest: put_ok)

lemma manifest_last:
  assumes "o_store opts = Some S" "o_newRDBSource opts = Some src" "o_consistency opts \<noteq> consistencyBestEffort" "wellNamed opts"
    "runBackup J h opts st = (e, st')" "e = None \<or> objects st' (manifestKey opts) \<noteq> objects st (manifestKey opts)"
  shows "(\<forall>sp \<in> set (o_shards opts). stored (objects st') opts src sp) \<and>
     tiles 0 (concat (map sp_slots (sort_key sp_index (o_shards opts))))"
  using assms(1,2,5)
proof (cases rule: runBackup_cases)
  case (manifest man caps st1 e1)
  note keys = wellNamed_keys [OF assms(4)]
  from loop_ok [OF keys(1) manifest(1) keys(4)] assms(3)
  have l: "caps = concat (map sp_slots (sort_key sp_index (o_shards opts)))" "\<forall>sp \<in> set (o_shards opts). stored (objects st1) opts src sp"
    by auto
  have "stored (objects st') opts src sp" if "sp \<in> set (o_shards opts)" for sp
    using l(2) that write_frame [OF manifest(3) _ keys(5), of "rdbKey opts sp"] keys(2) by (force simp: stored_def)
  then show ?thesis using l(1) manifest(2) assms(3) by (simp add: assertCoverage_tiles)
next
  case shard
  then show ?thesis using assms(6) loop_frame [OF _ shard(1) wellNamed_keys(4) [OF assms(4)]] wellNamed_keys(2) [OF assms(4)] by auto
next
  case coverage
  then show ?thesis using assms(6) loop_frame [OF _ coverage(1) wellNamed_keys(4) [OF assms(4)]] wellNamed_keys(2) [OF assms(4)] by auto
qed

lemma download_fragment:
  assumes "objects st k = Some d" "k = ManifestKey c b" "js_decode J d = Inr m" "mf_SchemaVersion m = ManifestSchemaVersion"
    "\<forall>k d. objects st k = Some d \<longrightarrow> sto_Get S k st = Inr (d, None)"
    "findShard m i = Some frag" "sm_SHA256 frag = h data" "objects st (ShardRDBKey c b i) = Some data"
  shows "runDownload J h (Some S) c b i st = (None, data)"
  using assms by (simp add: runDownload_def ReadManifest_def UnmarshalManifest_def)

lemma findShard_fragments:
  assumes "sp \<in> set ps" "\<And>sp'. sp' \<in> set ps \<Longrightarrow> sp_index sp' = sp_index sp \<Longrightarrow> sp' = sp"
    "mf_Shards m = map (\<lambda>sp. fragment h sp (f sp)) ps"
  shows "findShard m (sp_index sp) = Some (fragment h sp (f sp))"
proof -
  have "find (\<lambda>s. sm_Index s = sp_index sp) (map (\<lambda>sp. fragment h sp (f sp)) ps) = Some (fragment h sp (f sp))"
    using assms(1,2) by (induction ps) (auto simp: fragment_def)
  then show ?thesis by (simp add: findShard_def assms(3))
qed

lemma backup_round_trip:
  assumes "o_store opts = Some S" "o_newRDBSource opts = Some src" "wellNamed opts" "runBackup J h opts st = (None, st')"
  shows "\<exists>m d. js_encode J m = Inr d \<and> objects st' (manifestKey opts) = Some d \<and>
     (o_consistency opts \<noteq> consistencyBestEffort \<longrightarrow> map sm_Index (mf_Shards m) = map sp_index (sort_key sp_index (o_shards opts))) \<and>
     (js_decode J d = Inr m \<longrightarrow> (\<forall>k d. objects st' k = Some d \<longrightarrow> sto_Get S k st' = Inr (d, None)) \<longrightarrow>
        (\<forall>sp \<in> set (o_shards opts). sp_index sp \<in> sm_Index ` set (mf_Shards m) \<longrightarrow>
           (\<exists>data. delivered src sp = Some data \<and>
              runDownload J h (Some S) (o_cluster opts) (o_backupName opts) (sp_index sp) st' = (None, data))))"
  using assms(1,2,4)
proof (cases rule: runBackup_cases)
  case (manifest man caps st1 e1)
  let ?m = "stamped (man \<lparr> mf_SlotCoverage := coverageText (assertCoverage caps) \<rparr>)"
  from loop_ok [OF wellNamed_keys(1) [OF assms(3)] manifest(1) wellNamed_keys(4) [OF assms(3)]] obtain ps where
    ps: "set ps \<subseteq> set (o_shards opts)" "o_consistency opts \<noteq> consistencyBestEffort \<longrightarrow> ps = sort_key sp_index (o_shards opts)"
      "mf_Shards man = map (\<lambda>sp. fragment h sp (the (delivered src sp))) ps" "\<forall>sp \<in> set ps. stored (objects st1) opts src sp"
      "mf_SchemaVersion man = 0"
    by (auto simp: newManifest_def)
  from manifest have "WriteManifest J S (manifestKey opts) (man \<lparr> mf_SlotCoverage := coverageText (assertCoverage caps) \<rparr>) st1 = (None, st')" by simp
  from write_ok [OF this wellNamed_keys(5) [OF assms(3)]] obtain d where d: "js_encode J ?m = Inr d" "objects st' = (objects st1)(manifestKey opts \<mapsto> d)" by auto
  have idx: "map sm_Index (mf_Shards ?m) = map sp_index ps" by (simp add: ps(3) fragment_def)
  have dl: "\<exists>data. delivered src sp = Some data \<and> runDownload J h (Some S) (o_cluster opts) (o_backupName opts) (sp_index sp) st' = (None, data)"
    if js: "js_decode J d = Inr ?m" and rd: "\<forall>k d. objects st' k = Some d \<longrightarrow> sto_Get S k st' = Inr (d, None)"
      and sh: "sp \<in> set (o_shards opts)" and ix: "sp_index sp \<in> sm_Index ` set (mf_Shards ?m)" for sp
  proof -
    have "sm_Index ` set (mf_Shards ?m) = sp_index ` set ps" using idx by (metis image_set)
    then obtain sp' where "sp' \<in> set ps" "sp_index sp' = sp_index sp" using ix by force
    then have sp: "sp \<in> set ps" using wellNamed_keys(3) [OF assms(3)] ps(1) sh by blast
    then obtain data where data: "delivered src sp = Some data" "objects st1 (rdbKey opts sp) = Some data"
      using ps(4) by (auto simp: stored_def)
    have "rdbKey opts sp \<noteq> manifestKey opts" using wellNamed_keys(2) [OF assms(3)] sh by force
    then have obj: "objects st' (rdbKey opts sp) = Some data" using data(2) d(2) by simp
    have fs: "findShard ?m (sp_index sp) = Some (fragment h sp (the (delivered src sp)))"
      by (rule findShard_fragments [OF sp]) (use wellNamed_keys(3) [OF assms(3)] ps(1,3) sp in auto)
    have "runDownload J h (Some S) (o_cluster opts) (o_backupName opts) (sp_index sp) st' = (None, data)"
    proof (rule download_fragment [OF _ refl js _ rd fs])
      show "objects st' (manifestKey opts) = Some d" by (simp add: d(2))
      show "mf_SchemaVersion ?m = ManifestSchemaVersion" by (simp add: ps(5))
      show "sm_SHA256 (fragment h sp (the (delivered src sp))) = h data" by (simp add: fragment_def data(1))
      show "objects st' (ShardRDBKey (o_cluster opts) (o_backupName opts) (sp_index sp)) = Some data" using obj by (simp add: rdbKey_def)
    qed
    then show ?thesis using data(1) by blast
  qed
  show ?thesis
  proof (rule exI [of _ ?m], rule exI [of _ d], intro conjI impI ballI)
    show "js_encode J ?m = Inr d" by (rule d(1))
    show "objects st' (manifestKey opts) = Some d" by (simp add: d(2))
    show "map sm_Index (mf_Shards ?m) = map sp_index (sort_key sp_index (o_shards opts))"
      if "o_consistency opts \<noteq> consistencyBestEffort" using idx ps(2) that by simp
  qed (rule dl)
qed auto

end

end
