(* ===== verification/Backup_Controller.thy ===== *)
theory Backup_Controller
  imports Backup_Lease Backup_Sidecar
begin

text \<open>
  The controller of \<^verbatim>\<open>PerconaValkeyBackup\<close>, \<^verbatim>\<open>src/pkg/controller/perconavalkeybackup\<close>: resolving the storage
  (\<^verbatim>\<open>defaults.go\<close>), the phase machine (\<^verbatim>\<open>controller.go\<close>, \<^verbatim>\<open>status.go\<close>), the backup Job and
  its verdicts (\<^verbatim>\<open>job.go\<close>), deletion (\<^verbatim>\<open>finalizers.go\<close>) and the readiness test of \<^verbatim>\<open>lease.go\<close>.

  The parameter \<open>E\<close> is what the controller calls: the API server, the clock, the object store and JSON, over a state
  of their own.  Every call that may change something is added to the trace of the pass.  Events, metrics and log
  lines are left out.  All objects are in the namespace of the backup.
\<close>

subsection \<open>Jobs\<close>

datatype JobConditionType = JobComplete | JobFailed | JobOther

record JobCondition =
  jc_Type :: JobConditionType
  jc_True :: bool
  jc_Reason :: string
  jc_Message :: string

record Job =
  jb_Name :: string
  jb_Labels :: labels
  jb_Owner :: "string option"
  jb_BackoffLimit :: int
  jb_ActiveDeadline :: int
  jb_ServiceAccount :: string
  jb_Container :: string
  jb_Image :: string
  jb_Args :: "string list"
  jb_Env :: "EnvVar list"
  jb_EnvFrom :: "string option"
  jb_Requests :: "(string \<times> string) list"
  jb_Conditions :: "JobCondition list"
  jb_Failed :: int

definition jobConditionTrue :: "Job \<Rightarrow> JobConditionType \<Rightarrow> bool" where
  "jobConditionTrue job condType \<longleftrightarrow> list_ex (\<lambda>c. jc_Type c = condType \<and> jc_True c) (jb_Conditions job)"

definition toLowerASCII :: "string \<Rightarrow> string" where
  "toLowerASCII s = map (\<lambda>c. if CHR ''A'' \<le> c \<and> c \<le> CHR ''Z'' then char_of (of_char c + 32 :: nat) else c) s"

definition containsFold :: "string \<Rightarrow> string \<Rightarrow> bool" where
  "containsFold s substr \<longleftrightarrow>
     substr = '''' \<or>
     (let ls = toLowerASCII s; lsub = toLowerASCII substr
      in list_ex (\<lambda>i. i + length lsub \<le> length ls \<and> take (length lsub) (drop i ls) = lsub) [0..<Suc (length ls)])"

definition jobReasonEvicted :: string where "jobReasonEvicted = ''Evicted''"
definition JobReasonDeadlineExceeded :: string where "JobReasonDeadlineExceeded = ''DeadlineExceeded''"

definition jobEvicted :: "Job \<Rightarrow> bool" where
  "jobEvicted job \<longleftrightarrow>
     list_ex (\<lambda>c. jc_Type c = JobFailed \<and> jc_True c \<and> (jc_Reason c = jobReasonEvicted \<or> containsFold (jc_Message c) ''evict''))
       (jb_Conditions job)"

definition ReasonStorageError :: string where "ReasonStorageError = ''StorageError''"
definition ReasonWaitingForLock :: string where "ReasonWaitingForLock = ''WaitingForLock''"
definition ReasonClusterNotReady :: string where "ReasonClusterNotReady = ''ClusterNotReady''"
definition ReasonJobRunning :: string where "ReasonJobRunning = ''JobRunning''"
definition ReasonJobCreateError :: string where "ReasonJobCreateError = ''JobCreateError''"
definition ReasonManifestError :: string where "ReasonManifestError = ''ManifestError''"
definition ReasonIncompleteCover :: string where "ReasonIncompleteCover = ''IncompleteCoverage''"
definition ReasonJobEvicted :: string where "ReasonJobEvicted = ''JobEvicted''"
definition ReasonDeadlineExceeded :: string where "ReasonDeadlineExceeded = ''DeadlineExceeded''"
definition ReasonSucceeded :: string where "ReasonSucceeded = ''BackupSucceeded''"
definition ReasonDegraded :: string where "ReasonDegraded = ''BackupDegraded''"

definition jobFailureReason :: "Job \<Rightarrow> string \<times> string" where
  "jobFailureReason job =
     (case find (\<lambda>c. jc_Type c = JobFailed \<and> jc_True c) (jb_Conditions job) of
        Some c \<Rightarrow>
          if jc_Reason c = JobReasonDeadlineExceeded then (ReasonDeadlineExceeded, ''backup Job exceeded activeDeadlineSeconds'')
          else if jc_Message c \<noteq> '''' then (ReasonJobCreateError, ''backup Job failed: '' @ jc_Message c)
          else (ReasonJobCreateError, ''backup Job failed: '' @ jc_Reason c)
      | None \<Rightarrow> (ReasonJobCreateError, ''backup Job failed (failed pods: '' @ Itoa (jb_Failed job) @ '')''))"

subsection \<open>The outside\<close>

datatype bcall =
    CreateJob Job "api_error option"
  | DeleteJob string "api_error option"
  | PatchFinalizers "string list" "api_error option"
  | PatchStatus BackupCR "api_error option"
  | AcquireLease "(string, bool) result"
  | RenewLease "(string, unit) result"
  | ReleaseLease "(string, unit) result"

record 'st benv =
  be_lease :: "'st lease_api"
  be_backup :: "string \<Rightarrow> 'st \<Rightarrow> (api_error, BackupCR) result"
  be_cluster :: "string \<Rightarrow> 'st \<Rightarrow> (api_error, Cluster) result"
  be_secret :: "string \<Rightarrow> 'st \<Rightarrow> (api_error, (string \<times> string) list) result"
  be_job :: "string \<Rightarrow> 'st \<Rightarrow> (api_error, Job) result"
  be_createJob :: "Job \<Rightarrow> 'st \<Rightarrow> api_error option \<times> 'st"
  be_deleteJob :: "string \<Rightarrow> 'st \<Rightarrow> api_error option \<times> 'st"
  be_patchFinalizers :: "string \<Rightarrow> string list \<Rightarrow> 'st \<Rightarrow> api_error option \<times> 'st"
  be_patchStatus :: "BackupCR \<Rightarrow> 'st \<Rightarrow> api_error option \<times> 'st"
  be_sdk :: "'st sdk"
  be_json :: json
  be_now :: int

record 'st bworld =
  bw_srv :: 'st
  bw_calls :: "bcall list"

definition did :: "'st bworld \<Rightarrow> bcall \<Rightarrow> 'st \<Rightarrow> 'st bworld" where
  "did w c s = w \<lparr> bw_srv := s, bw_calls := bw_calls w @ [c] \<rparr>"

definition createJob :: "'st benv \<Rightarrow> Job \<Rightarrow> 'st bworld \<Rightarrow> api_error option \<times> 'st bworld" where
  "createJob E job w = (case be_createJob E job (bw_srv w) of (r, s) \<Rightarrow> (r, did w (CreateJob job r) s))"

definition deleteJob :: "'st benv \<Rightarrow> string \<Rightarrow> 'st bworld \<Rightarrow> api_error option \<times> 'st bworld" where
  "deleteJob E name w = (case be_deleteJob E name (bw_srv w) of (r, s) \<Rightarrow> (r, did w (DeleteJob name r) s))"

definition patchFinalizers :: "'st benv \<Rightarrow> string \<Rightarrow> string list \<Rightarrow> 'st bworld \<Rightarrow> api_error option \<times> 'st bworld" where
  "patchFinalizers E name fs w = (case be_patchFinalizers E name fs (bw_srv w) of (r, s) \<Rightarrow> (r, did w (PatchFinalizers fs r) s))"

definition lockCluster :: "'st benv \<Rightarrow> BackupCR \<Rightarrow> 'st bworld \<Rightarrow> (string, bool) result \<times> 'st bworld" where
  "lockCluster E bk w = (case acquireClusterLease (be_lease E) bk (be_now E) (bw_srv w) of (r, s) \<Rightarrow> (r, did w (AcquireLease r) s))"

definition renewLock :: "'st benv \<Rightarrow> BackupCR \<Rightarrow> 'st bworld \<Rightarrow> (string, unit) result \<times> 'st bworld" where
  "renewLock E bk w = (case renewClusterLease (be_lease E) bk (be_now E) (bw_srv w) of (r, s) \<Rightarrow> (r, did w (RenewLease r) s))"

definition unlockCluster :: "'st benv \<Rightarrow> BackupCR \<Rightarrow> 'st bworld \<Rightarrow> (string, unit) result \<times> 'st bworld" where
  "unlockCluster E bk w = (case releaseClusterLease (be_lease E) bk (bw_srv w) of (r, s) \<Rightarrow> (r, did w (ReleaseLease r) s))"

text \<open>The shared helper reads the object again and patches its status with the one in memory.\<close>

definition writeBackupStatus :: "'st benv \<Rightarrow> BackupCR \<Rightarrow> 'st bworld \<Rightarrow> string option \<times> 'st bworld" where
  "writeBackupStatus E bk w =
     (let key = b_Namespace bk @ ''/'' @ b_Name bk
      in case be_backup E (b_Name bk) (bw_srv w) of
           Inl e \<Rightarrow> (Some (''status writeback re-fetch '' @ key @ '': '' @ api_text e), w)
         | Inr _ \<Rightarrow>
             (case be_patchStatus E bk (bw_srv w) of
                (None, s) \<Rightarrow> (None, did w (PatchStatus bk None) s)
              | (Some e, s) \<Rightarrow> (Some (''status patch '' @ key @ '': '' @ api_text e), did w (PatchStatus bk (Some e)) s)))"

subsection \<open>Resolving the storage\<close>

record resolvedStorage =
  rv_name :: string
  rv_spec :: BackupStorageSpec
  rv_credsSecret :: string
  rv_destination :: string

fun requiredCredKeys :: "BackupStorageType \<Rightarrow> string list" where
  "requiredCredKeys BackupStorageS3 = [''AWS_ACCESS_KEY_ID'', ''AWS_SECRET_ACCESS_KEY'']"
| "requiredCredKeys BackupStorageGCS = [''GOOGLE_APPLICATION_CREDENTIALS_JSON'']"
| "requiredCredKeys BackupStorageAzure = [''AZURE_STORAGE_ACCOUNT'', ''AZURE_STORAGE_KEY'']"
| "requiredCredKeys BackupStorageFilesystem = []"

definition storageCoordinates :: "BackupStorageSpec \<Rightarrow> (string, string \<times> string \<times> string \<times> string) result" where
  "storageCoordinates spec =
     (case st_Type spec of
        BackupStorageS3 \<Rightarrow>
          (case st_S3 spec of
             None \<Rightarrow> Inl ''storage type s3 requires the s3 sub-object''
           | Some s \<Rightarrow> Inr (SchemeS3, s3_Bucket s, s3_Prefix s, s3_CredentialsSecret s))
      | BackupStorageGCS \<Rightarrow>
          (case st_GCS spec of
             None \<Rightarrow> Inl ''storage type gcs requires the gcs sub-object''
           | Some s \<Rightarrow> Inr (SchemeGCS, gcs_Bucket s, gcs_Prefix s, gcs_CredentialsSecret s))
      | BackupStorageAzure \<Rightarrow>
          (case st_Azure spec of
             None \<Rightarrow> Inl ''storage type azure requires the azure sub-object''
           | Some s \<Rightarrow> Inr (SchemeAzure, az_Container s, az_Prefix s, az_CredentialsSecret s))
      | BackupStorageFilesystem \<Rightarrow> Inr (SchemePVC, '''', '''', ''''))"

definition resolveStorage :: "Cluster \<Rightarrow> BackupCR \<Rightarrow> (string, resolvedStorage) result" where
  "resolveStorage c bk =
     (case map_of (bk_Storages (Backup (Spec c))) (b_StorageName bk) of
        None \<Rightarrow> Inl (''storageName '' @ quoted (b_StorageName bk) @ '' not found in cluster '' @ quoted (Name c) @ '' spec.backup.storages'')
      | Some spec \<Rightarrow>
          (case storageCoordinates spec of
             Inl e \<Rightarrow> Inl e
           | Inr (scheme, bucketOrContainer, prefix, credsSecret) \<Rightarrow>
               Inr \<lparr> rv_name = b_StorageName bk, rv_spec = spec, rv_credsSecret = credsSecret,
                     rv_destination = FormatDestination scheme bucketOrContainer prefix (Name c) (b_Name bk) \<rparr>))"

definition validateCredsSecret :: "'st benv \<Rightarrow> resolvedStorage \<Rightarrow> 'st \<Rightarrow> string option" where
  "validateCredsSecret E rs s =
     (let required = requiredCredKeys (st_Type (rv_spec rs))
      in if required = [] then None
         else if rv_credsSecret rs = ''''
         then Some (''storage '' @ quoted (rv_name rs) @ '' (type '' @ storageTypeText (st_Type (rv_spec rs)) @ '') requires a credentialsSecret'')
         else case be_secret E (rv_credsSecret rs) s of
                Inl (NotFound _) \<Rightarrow>
                  Some (''credentialsSecret '' @ quoted (rv_credsSecret rs) @ '' for storage '' @ quoted (rv_name rs) @ '' not found'')
              | Inl e \<Rightarrow> Some (''get credentialsSecret '' @ quoted (rv_credsSecret rs) @ '': '' @ api_text e)
              | Inr secretData \<Rightarrow>
                  let missing = filter (\<lambda>k. map_of secretData k = None) required
                  in if missing \<noteq> []
                     then Some (''credentialsSecret '' @ quoted (rv_credsSecret rs) @ '' for storage '' @ quoted (rv_name rs) @
                            '' is missing key(s) ['' @ Join (sort missing) '' '' @ '']'')
                     else None)"

definition checkNSetDefaults :: "'st benv \<Rightarrow> BackupCR \<Rightarrow> 'st \<Rightarrow> (string, resolvedStorage \<times> BackupCR) result" where
  "checkNSetDefaults E bk s =
     (if b_ClusterName bk = '''' then Inl ''spec.clusterName is required''
      else if b_StorageName bk = '''' then Inl ''spec.storageName is required''
      else case be_cluster E (b_ClusterName bk) s of
             Inl (NotFound _) \<Rightarrow> Inl (''cluster '' @ quoted (b_ClusterName bk) @ '' not found'')
           | Inl e \<Rightarrow> Inl (''get cluster '' @ quoted (b_ClusterName bk) @ '': '' @ api_text e)
           | Inr c \<Rightarrow>
               (case resolveStorage c bk of
                  Inl e \<Rightarrow> Inl e
                | Inr rs \<Rightarrow>
                    if \<not> BackendRegistered (st_Type (rv_spec rs))
                    then Inl (''no storage backend wired for type '' @ quoted (storageTypeText (st_Type (rv_spec rs))) @ '' (S3/GCS/Azure land in GO-4.2/4.3)'')
                    else case validateCredsSecret E rs s of
                           Some e \<Rightarrow> Inl e
                         | None \<Rightarrow>
                             Inr (rs, bk \<lparr> b_StatusStorage := rv_name rs, b_Destination := rv_destination rs, b_S3 := st_S3 (rv_spec rs),
                                           b_GCS := st_GCS (rv_spec rs), b_Azure := st_Azure (rv_spec rs) \<rparr>)))"

definition resolveStorageForCleanup :: "'st benv \<Rightarrow> BackupCR \<Rightarrow> 'st \<Rightarrow> (string, resolvedStorage) result" where
  "resolveStorageForCleanup E bk s =
     (case be_cluster E (b_ClusterName bk) s of
        Inl e \<Rightarrow> Inl (''get cluster '' @ quoted (b_ClusterName bk) @ '': '' @ api_text e)
      | Inr c \<Rightarrow> resolveStorage c bk)"

fun clusterStateText :: "State \<Rightarrow> string" where
  "clusterStateText StateInitializing = ''Initializing''"
| "clusterStateText StateReconciling = ''Reconciling''"
| "clusterStateText StateReady = ''Ready''"
| "clusterStateText StateDegraded = ''Degraded''"
| "clusterStateText StateFailed = ''Failed''"

definition clusterSnapshotReady :: "'st benv \<Rightarrow> BackupCR \<Rightarrow> 'st \<Rightarrow> (string, bool \<times> string) result" where
  "clusterSnapshotReady E bk s =
     (case be_cluster E (b_ClusterName bk) s of
        Inl (NotFound _) \<Rightarrow> Inr (False, ''source cluster not found'')
      | Inl e \<Rightarrow> Inl (''get cluster '' @ quoted (b_ClusterName bk) @ '' for snapshot-readiness: '' @ api_text e)
      | Inr c \<Rightarrow>
          if State (Status c) \<noteq> StateReady
          then Inr (False, ''source cluster '' @ quoted (Name c) @ '' is '' @ quoted (clusterStateText (State (Status c))) @ '', not Ready'')
          else Inr (True, ''''))"

subsection \<open>The Jobs of a backup\<close>

definition backupComponent :: string where "backupComponent = ''backup''"
definition labelBackup :: string where "labelBackup = ''valkey.percona.com/backup''"
definition defaultBackupImage :: string where "defaultBackupImage = ''percona/valkey-backup:latest''"
definition defaultActiveDeadlineSeconds :: int where "defaultActiveDeadlineSeconds = 3600"
definition tlsCAMountPath :: string where "tlsCAMountPath = ''/etc/valkey/tls/ca.crt''"

definition backupJobName :: "BackupCR \<Rightarrow> string" where
  "backupJobName bk = ''valkey-'' @ b_Name bk @ ''-backup''"

definition cleanupJobName :: "BackupCR \<Rightarrow> string" where
  "cleanupJobName bk = ''valkey-'' @ b_Name bk @ ''-cleanup''"

definition backupImage :: "Cluster \<Rightarrow> string" where
  "backupImage c = (if bk_Image (Backup (Spec c)) \<noteq> '''' then bk_Image (Backup (Spec c)) else defaultBackupImage)"

definition backupJobResources :: "(string \<times> string) list" where
  "backupJobResources = [(''cpu'', ''500m''), (''memory'', ''256Mi'')]"

definition containerExtraArgs :: "BackupCR \<Rightarrow> string list" where
  "containerExtraArgs bk = (case b_ContainerOptions bk of None \<Rightarrow> [] | Some x \<Rightarrow> co_Args x)"

definition containerExtraEnv :: "BackupCR \<Rightarrow> EnvVar list" where
  "containerExtraEnv bk = (case b_ContainerOptions bk of None \<Rightarrow> [] | Some x \<Rightarrow> co_Env x)"

definition backupSeedNode :: "string \<Rightarrow> string" where
  "backupSeedNode c = HeadlessServiceName c @ '':'' @ Itoa 6379"

definition tlsCAFilePath :: "Cluster \<Rightarrow> string" where
  "tlsCAFilePath c = (if TLSSpec (Spec c) = None then '''' else tlsCAMountPath)"

definition backupEnvFromParams :: "JobEnvParams \<Rightarrow> EnvVar list" where
  "backupEnvFromParams p = map (\<lambda>(k, v). EnvValue k v) (JobEnv p)"

fun modeText :: "ClusterMode \<Rightarrow> string" where
  "modeText ModeUnset = ''''"
| "modeText ModeCluster = ''cluster''"
| "modeText ModeReplication = ''replication''"
| "modeText ModeStandalone = ''standalone''"

definition backupParams :: "BackupCR \<Rightarrow> Cluster \<Rightarrow> resolvedStorage \<Rightarrow> JobEnvParams" where
  "backupParams bk c rs =
     \<lparr> je_Cluster = b_ClusterName bk, je_Backup = b_Name bk, je_Spec = rv_spec rs, je_FilesystemRoot = '''',
       je_Mode = (if Mode (Spec c) \<noteq> ModeUnset then modeText (Mode (Spec c)) else ''cluster''),
       je_CRVersion = CrVersion (Spec c), je_Consistency = (if b_Consistency bk \<noteq> '''' then b_Consistency bk else consistencyStrict),
       je_EngineVersion = '''', je_SeedNode = backupSeedNode (Name c), je_AuthUser = SystemUserBackup,
       je_TLSEnabled = (TLSSpec (Spec c) \<noteq> None), je_TLSCAFile = tlsCAFilePath c, je_DownloadDst = '''' \<rparr>"

definition backupJobEnv :: "BackupCR \<Rightarrow> Cluster \<Rightarrow> resolvedStorage \<Rightarrow> EnvVar list" where
  "backupJobEnv bk c rs =
     backupEnvFromParams (backupParams bk c rs) @
     [EnvSecretKey EnvAuthPassword (SystemPasswordsSecretName (Name c)) SystemUserBackup]"

definition backupLabels :: "BackupCR \<Rightarrow> labels" where
  "backupLabels bk = (Labels (b_ClusterName bk) backupComponent)(labelBackup \<mapsto> b_Name bk)"

definition desiredBackupJob :: "'st benv \<Rightarrow> BackupCR \<Rightarrow> resolvedStorage \<Rightarrow> 'st \<Rightarrow> (string, Job) result" where
  "desiredBackupJob E bk rs s =
     (case be_cluster E (b_ClusterName bk) s of
        Inl e \<Rightarrow> Inl (''get cluster '' @ quoted (b_ClusterName bk) @ '' for job spec: '' @ api_text e)
      | Inr c \<Rightarrow>
          Inr \<lparr> jb_Name = backupJobName bk, jb_Labels = backupLabels bk, jb_Owner = Some (b_Name bk), jb_BackoffLimit = 0,
                jb_ActiveDeadline = (case b_ActiveDeadline bk of Some d \<Rightarrow> d | None \<Rightarrow> defaultActiveDeadlineSeconds),
                jb_ServiceAccount = bk_ServiceAccountName (Backup (Spec c)), jb_Container = ''valkey-backup'', jb_Image = backupImage c,
                jb_Args = containerExtraArgs bk, jb_Env = backupJobEnv bk c rs @ containerExtraEnv bk,
                jb_EnvFrom = (if rv_credsSecret rs \<noteq> '''' then Some (rv_credsSecret rs) else None),
                jb_Requests = backupJobResources, jb_Conditions = [], jb_Failed = 0 \<rparr>)"

definition getJob :: "'st benv \<Rightarrow> string \<Rightarrow> string \<Rightarrow> 'st \<Rightarrow> (string, Job option) result" where
  "getJob E kind name s =
     (case be_job E name s of
        Inl (NotFound _) \<Rightarrow> Inr None
      | Inl e \<Rightarrow> Inl (''get '' @ kind @ '' job '' @ quoted name @ '': '' @ api_text e)
      | Inr job \<Rightarrow> Inr (Some job))"

definition getBackupJob :: "'st benv \<Rightarrow> BackupCR \<Rightarrow> 'st \<Rightarrow> (string, Job option) result" where
  "getBackupJob E bk s = getJob E ''backup'' (backupJobName bk) s"

definition getCleanupJob :: "'st benv \<Rightarrow> BackupCR \<Rightarrow> 'st \<Rightarrow> (string, Job option) result" where
  "getCleanupJob E bk s = getJob E ''cleanup'' (cleanupJobName bk) s"

definition createBackupJob :: "'st benv \<Rightarrow> BackupCR \<Rightarrow> resolvedStorage \<Rightarrow> 'st bworld \<Rightarrow> string option \<times> BackupCR \<times> 'st bworld" where
  "createBackupJob E bk rs w =
     (case getBackupJob E bk (bw_srv w) of
        Inl e \<Rightarrow> (Some e, bk, w)
      | Inr (Some _) \<Rightarrow> (None, bk, w)
      | Inr None \<Rightarrow>
          (case desiredBackupJob E bk rs (bw_srv w) of
             Inl e \<Rightarrow> (Some e, bk, w)
           | Inr job \<Rightarrow>
               let started = (if b_Start bk = None then bk \<lparr> b_Start := Some (be_now E) \<rparr> else bk)
               in case createJob E job w of
                    (None, w1) \<Rightarrow> (None, started, w1)
                  | (Some (AlreadyExists _), w1) \<Rightarrow> (None, started, w1)
                  | (Some e, w1) \<Rightarrow> (Some (''create backup job '' @ quoted (jb_Name job) @ '': '' @ api_text e), bk, w1)))"

definition cleanupParams :: "BackupCR \<Rightarrow> resolvedStorage \<Rightarrow> JobEnvParams" where
  "cleanupParams bk rs =
     \<lparr> je_Cluster = b_ClusterName bk, je_Backup = b_Name bk, je_Spec = rv_spec rs, je_FilesystemRoot = '''', je_Mode = '''',
       je_CRVersion = '''', je_Consistency = '''', je_EngineVersion = '''', je_SeedNode = '''', je_AuthUser = '''',
       je_TLSEnabled = False, je_TLSCAFile = '''', je_DownloadDst = '''' \<rparr>"

definition cleanupJob :: "BackupCR \<Rightarrow> Cluster \<Rightarrow> resolvedStorage \<Rightarrow> Job" where
  "cleanupJob bk c rs =
     \<lparr> jb_Name = cleanupJobName bk, jb_Labels = backupLabels bk, jb_Owner = None, jb_BackoffLimit = 2,
       jb_ActiveDeadline = defaultActiveDeadlineSeconds, jb_ServiceAccount = bk_ServiceAccountName (Backup (Spec c)),
       jb_Container = ''valkey-cleanup'', jb_Image = backupImage c, jb_Args = [''--cleanup''],
       jb_Env = backupEnvFromParams (cleanupParams bk rs),
       jb_EnvFrom = (if rv_credsSecret rs \<noteq> '''' then Some (rv_credsSecret rs) else None),
       jb_Requests = backupJobResources, jb_Conditions = [], jb_Failed = 0 \<rparr>"

definition createCleanupJob :: "'st benv \<Rightarrow> BackupCR \<Rightarrow> resolvedStorage \<Rightarrow> 'st bworld \<Rightarrow> string option \<times> 'st bworld" where
  "createCleanupJob E bk rs w =
     (case be_cluster E (b_ClusterName bk) (bw_srv w) of
        Inl e \<Rightarrow> (Some (''get cluster '' @ quoted (b_ClusterName bk) @ '' for cleanup job: '' @ api_text e), w)
      | Inr c \<Rightarrow>
          let job = cleanupJob bk c rs
          in case createJob E job w of
               (None, w1) \<Rightarrow> (None, w1)
             | (Some (AlreadyExists _), w1) \<Rightarrow> (None, w1)
             | (Some e, w1) \<Rightarrow> (Some (''create cleanup job '' @ quoted (jb_Name job) @ '': '' @ api_text e), w1))"

subsection \<open>Verdicts\<close>

definition setState :: "BackupCR \<Rightarrow> BackupState \<Rightarrow> string \<Rightarrow> BackupCR" where
  "setState bk state description = bk \<lparr> b_State := state, b_StateDescription := description \<rparr>"

fun isTerminalState :: "BackupState \<Rightarrow> bool" where
  "isTerminalState BackupStateSucceeded = True"
| "isTerminalState BackupStateFailed = True"
| "isTerminalState BackupStateError = True"
| "isTerminalState _ = False"

definition isTerminal :: "BackupCR \<Rightarrow> bool" where
  "isTerminal bk = isTerminalState (b_State bk)"

definition failBackup :: "'st benv \<Rightarrow> BackupCR \<Rightarrow> string \<Rightarrow> string \<Rightarrow> BackupCR" where
  "failBackup E bk reason msg =
     setState (if b_Completed bk = None then bk \<lparr> b_Completed := Some (be_now E) \<rparr> else bk) BackupStateFailed (reason @ '': '' @ msg)"

text \<open>The index is converted to a 32-bit integer.\<close>

definition int32 :: "int \<Rightarrow> int" where
  "int32 n = (n + 2 ^ 31) mod 2 ^ 32 - 2 ^ 31"

definition hydrateFromManifest :: "BackupCR \<Rightarrow> Manifest \<Rightarrow> BackupCR" where
  "hydrateFromManifest bk man =
     bk \<lparr> b_ValkeyVersion := mf_EngineVersion man,
          b_SlotCoverage := (if mf_SlotCoverage man = ''complete'' then ''complete'' else ''partial''),
          b_Shards := map (\<lambda>s. \<lparr> sb_ShardIndex = int32 (sm_Index s), sb_SlotRange = sm_SlotRanges s, sb_RDBObject = sm_RDBKey s,
                              sb_SizeBytes = sm_SizeBytes s, sb_Checksum = sm_SHA256 s \<rparr>) (mf_Shards man) \<rparr>"

definition loadStorageCreds :: "'st benv \<Rightarrow> resolvedStorage \<Rightarrow> 'st \<Rightarrow> (string, (string \<times> string) list) result" where
  "loadStorageCreds E rs s =
     (if rv_credsSecret rs = '''' then Inr []
      else case be_secret E (rv_credsSecret rs) s of
             Inl e \<Rightarrow> Inl (''get credentialsSecret '' @ quoted (rv_credsSecret rs) @ '': '' @ api_text e)
           | Inr secretData \<Rightarrow> Inr secretData)"

definition readManifest :: "'st benv \<Rightarrow> BackupCR \<Rightarrow> resolvedStorage \<Rightarrow> 'st \<Rightarrow> (string, Manifest) result" where
  "readManifest E bk rs s =
     (case loadStorageCreds E rs s of
        Inl e \<Rightarrow> Inl e
      | Inr creds \<Rightarrow>
          (case NewStore (be_sdk E) (StorageConfigFromSpec (rv_spec rs) creds) of
             Inl e \<Rightarrow> Inl (''open store: '' @ e)
           | Inr S \<Rightarrow> ReadManifest (be_json E) S (ManifestKey (b_ClusterName bk) (b_Name bk)) s))"

definition handleJobComplete :: "'st benv \<Rightarrow> BackupCR \<Rightarrow> resolvedStorage \<Rightarrow> 'st \<Rightarrow> BackupCR" where
  "handleJobComplete E bk rs s =
     (case readManifest E bk rs s of
        Inl e \<Rightarrow> failBackup E bk ReasonManifestError (''backup Job completed but manifest unreadable: '' @ e)
      | Inr man \<Rightarrow>
          let bk1 = hydrateFromManifest bk man \<lparr> b_Completed := Some (be_now E) \<rparr>
          in if b_SlotCoverage bk1 = ''complete'' then setState bk1 BackupStateSucceeded (ReasonSucceeded @ '': all 16384 slots covered'')
             else if b_Consistency bk1 = consistencyStrict then failBackup E bk1 ReasonIncompleteCover ''strict backup with partial slot coverage''
             else setState bk1 BackupStateSucceeded (ReasonDegraded @ '': partial slot coverage (best-effort)''))"

definition watchJob :: "'st benv \<Rightarrow> BackupCR \<Rightarrow> resolvedStorage \<Rightarrow> 'st bworld \<Rightarrow> (string, bool) result \<times> BackupCR \<times> 'st bworld" where
  "watchJob E bk rs w =
     (case getBackupJob E bk (bw_srv w) of
        Inl e \<Rightarrow> (Inl e, bk, w)
      | Inr None \<Rightarrow>
          (case createBackupJob E bk rs w of (Some e, bk1, w1) \<Rightarrow> (Inl e, bk1, w1) | (None, bk1, w1) \<Rightarrow> (Inr False, bk1, w1))
      | Inr (Some job) \<Rightarrow>
          if jobConditionTrue job JobComplete then (Inr True, handleJobComplete E bk rs (bw_srv w), w)
          else if jobEvicted job then (Inr True, failBackup E bk ReasonJobEvicted ''backup Job evicted (node pressure/preemption/drain)'', w)
          else if jobConditionTrue job JobFailed
          then (case jobFailureReason job of (reason, msg) \<Rightarrow> (Inr True, failBackup E bk reason msg, w))
          else let bk1 = setState bk BackupStateRunning (ReasonJobRunning @ '': backup Job in progress'')
               in case renewLock E bk1 w of (Inl e, w1) \<Rightarrow> (Inl e, bk1, w1) | (Inr _, w1) \<Rightarrow> (Inr False, bk1, w1))"

subsection \<open>The phase machine\<close>

text \<open>A pass ends with an error or with the delay after which it wants to run again, in nanoseconds; 0 is none.\<close>

type_synonym bresult = "(string, int) result"

definition requeueLockBackoff :: int where "requeueLockBackoff = 5 * second"
definition requeueJobWatch :: int where "requeueJobWatch = 3 * second"
definition requeueCleanupRetry :: int where "requeueCleanupRetry = 5 * second"

definition persist :: "'st benv \<Rightarrow> BackupCR \<Rightarrow> int \<Rightarrow> 'st bworld \<Rightarrow> bresult \<times> 'st bworld" where
  "persist E bk after w = (case writeBackupStatus E bk w of (Some e, w1) \<Rightarrow> (Inl e, w1) | (None, w1) \<Rightarrow> (Inr after, w1))"

definition terminalFail :: "'st benv \<Rightarrow> BackupCR \<Rightarrow> string \<Rightarrow> string \<Rightarrow> 'st bworld \<Rightarrow> bresult \<times> 'st bworld" where
  "terminalFail E bk reason msg w =
     (let bk1 = failBackup E bk reason msg
      in case unlockCluster E bk1 w of (Inl e, w1) \<Rightarrow> (Inl e, w1) | (Inr _, w1) \<Rightarrow> persist E bk1 0 w1)"

definition reconcileStart :: "'st benv \<Rightarrow> BackupCR \<Rightarrow> resolvedStorage \<Rightarrow> 'st bworld \<Rightarrow> bresult \<times> 'st bworld" where
  "reconcileStart E bk rs w =
     (case clusterSnapshotReady E bk (bw_srv w) of
        Inl e \<Rightarrow> (Inl e, w)
      | Inr (False, reason) \<Rightarrow>
          persist E (setState bk BackupStateStarting (ReasonClusterNotReady @ '': '' @ reason)) requeueLockBackoff w
      | Inr (True, _) \<Rightarrow>
          (case lockCluster E bk w of
             (Inl e, w1) \<Rightarrow> (Inl e, w1)
           | (Inr False, w1) \<Rightarrow>
               persist E (setState bk BackupStateStarting (ReasonWaitingForLock @ '': waiting for per-cluster backup lock'')) requeueLockBackoff w1
           | (Inr True, w1) \<Rightarrow>
               (case createBackupJob E bk rs w1 of
                  (Some e, bk1, w2) \<Rightarrow> terminalFail E bk1 ReasonJobCreateError e (snd (unlockCluster E bk1 w2))
                | (None, bk1, w2) \<Rightarrow>
                    persist E (setState bk1 BackupStateRunning (ReasonJobRunning @ '': backup Job created'')) requeueJobWatch w2)))"

definition reconcileRunning :: "'st benv \<Rightarrow> BackupCR \<Rightarrow> resolvedStorage \<Rightarrow> 'st bworld \<Rightarrow> bresult \<times> 'st bworld" where
  "reconcileRunning E bk rs w =
     (case watchJob E bk rs w of
        (Inl e, bk1, w1) \<Rightarrow> (Inl e, w1)
      | (Inr False, bk1, w1) \<Rightarrow> persist E bk1 requeueJobWatch w1
      | (Inr True, bk1, w1) \<Rightarrow>
          (case unlockCluster E bk1 w1 of (Inl e, w2) \<Rightarrow> (Inl e, w2) | (Inr _, w2) \<Rightarrow> persist E bk1 0 w2))"

definition advance :: "'st benv \<Rightarrow> BackupCR \<Rightarrow> 'st bworld \<Rightarrow> bresult \<times> 'st bworld" where
  "advance E bk w =
     (case checkNSetDefaults E bk (bw_srv w) of
        Inl e \<Rightarrow> terminalFail E bk ReasonStorageError e w
      | Inr (rs, bk1) \<Rightarrow> if b_State bk1 = BackupStateRunning then reconcileRunning E bk1 rs w else reconcileStart E bk1 rs w)"

definition ensureFinalizer :: "'st benv \<Rightarrow> BackupCR \<Rightarrow> 'st bworld \<Rightarrow> string option \<times> BackupCR \<times> 'st bworld" where
  "ensureFinalizer E bk w =
     (if FinalizerDeleteBackup \<in> set (b_Finalizers bk) then (None, bk, w)
      else let bk1 = bk \<lparr> b_Finalizers := b_Finalizers bk @ [FinalizerDeleteBackup] \<rparr>
           in case patchFinalizers E (b_Name bk) (b_Finalizers bk1) w of
                (None, w1) \<Rightarrow> (None, bk1, w1)
              | (Some e, w1) \<Rightarrow> (Some (''add backup finalizer: '' @ api_text e), bk1, w1))"

definition removeFinalizer :: "'st benv \<Rightarrow> BackupCR \<Rightarrow> 'st bworld \<Rightarrow> bresult \<times> 'st bworld" where
  "removeFinalizer E bk w =
     (if FinalizerDeleteBackup \<notin> set (b_Finalizers bk) then (Inr 0, w)
      else case patchFinalizers E (b_Name bk) (filter (\<lambda>f. f \<noteq> FinalizerDeleteBackup) (b_Finalizers bk)) w of
             (None, w1) \<Rightarrow> (Inr 0, w1)
           | (Some e, w1) \<Rightarrow> (Inl (''remove backup finalizer: '' @ api_text e), w1))"

definition handleDeletion_backup :: "'st benv \<Rightarrow> BackupCR \<Rightarrow> 'st bworld \<Rightarrow> bresult \<times> 'st bworld" where
  "handleDeletion_backup E bk w =
     (if FinalizerDeleteBackup \<notin> set (b_Finalizers bk) then (Inr 0, w)
      else case unlockCluster E bk w of
             (Inl e, w1) \<Rightarrow> (Inl e, w1)
           | (Inr _, w1) \<Rightarrow>
               (case resolveStorageForCleanup E bk (bw_srv w1) of
                  Inl e \<Rightarrow> (Inr requeueCleanupRetry, w1)
                | Inr rs \<Rightarrow>
                    (case getCleanupJob E bk (bw_srv w1) of
                       Inl e \<Rightarrow> (Inl e, w1)
                     | Inr None \<Rightarrow>
                         (case createCleanupJob E bk rs w1 of (Some e, w2) \<Rightarrow> (Inl e, w2) | (None, w2) \<Rightarrow> (Inr requeueCleanupRetry, w2))
                     | Inr (Some job) \<Rightarrow>
                         if jobConditionTrue job JobComplete then removeFinalizer E bk w1
                         else if jobConditionTrue job JobFailed
                         then (case deleteJob E (jb_Name job) w1 of
                                 (None, w2) \<Rightarrow> (Inr requeueCleanupRetry, w2)
                               | (Some (NotFound _), w2) \<Rightarrow> (Inr requeueCleanupRetry, w2)
                               | (Some e, w2) \<Rightarrow> (Inl (''delete failed cleanup job: '' @ api_text e), w2))
                         else (Inr requeueCleanupRetry, w1))))"

definition Reconcile_backup :: "'st benv \<Rightarrow> string \<Rightarrow> 'st bworld \<Rightarrow> bresult \<times> 'st bworld" where
  "Reconcile_backup E name w =
     (case be_backup E name (bw_srv w) of
        Inl (NotFound _) \<Rightarrow> (Inr 0, w)
      | Inl e \<Rightarrow> (Inl (api_text e), w)
      | Inr bk \<Rightarrow>
          if b_Deleting bk then handleDeletion_backup E bk w
          else case ensureFinalizer E bk w of
                 (Some e, _, w1) \<Rightarrow> (Inl e, w1)
               | (None, bk1, w1) \<Rightarrow> if isTerminal bk1 then (Inr 0, w1) else advance E bk1 w1)"

end
