(* ===== verification/Backup_Sets.thy ===== *)
theory Backup_Sets
  imports Backup_Sidecar
begin

text \<open>
  What the sidecar promises about backup sets, on any store that keeps the contracts \<open>object_store\<close> and \<open>artifact_store\<close>: the manifest
  comes last and only over a complete set, a set that was written can be read back shard by shard, cleanup removes the
  manifest first and exactly the set.  Two theorems show where the program falls short: cleanup in a bucket removes
  the sets whose names extend the name of the deleted one, and a dump that ends early is accepted.  The last part shows
  that what the operator writes in the environment of a Job is what the program reads.
\<close>

subsection \<open>Runs over a store\<close>

lemma holders_concat: "holders s (concat (map f xs)) = sum_list (map (\<lambda>x. holders s (f x)) xs)"
  by (induction xs) (simp_all add: holders_def)

lemma tiles_sort_key: "tiles a (concat (map f (sort_key g xs))) \<longleftrightarrow> tiles a (concat (map f xs))"
proof -
  have "sum_list (map h (sort_key g xs)) = sum_list (map h xs)" for h :: "_ \<Rightarrow> nat"
    by (metis mset_map mset_sort sum_mset_sum_list)
  then show ?thesis by (simp add: tiles_def holders_concat list_all_iff)
qed

lemma stored_iff: "stored contents opts src sp \<longleftrightarrow> (\<exists>data len. src sp = Inr ((data, None), len) \<and> contents (rdbKey opts sp) = Some data)"
  by (auto simp: stored_def delivered_def split: sum.splits prod.splits option.splits)

context artifact_store
begin

lemma deleteKeys_frame: "k \<notin> set ks \<Longrightarrow> deleteKeys S ks st = (e, st') \<Longrightarrow> objects st' k = objects st k"
  by (induction ks arbitrary: st) (auto split: prod.splits option.splits dest: delete_ok delete_failed)

lemma deleteKeys_ok: "deleteKeys S ks st = (None, st') \<Longrightarrow> k \<in> set ks \<Longrightarrow> objects st' k = None"
proof (induction ks arbitrary: st)
  case (Cons x ks)
  then obtain st1 where d: "sto_Delete S x st = (None, st1)" "deleteKeys S ks st1 = (None, st')"
    by (auto split: prod.splits option.splits)
  show ?case
  proof (cases "k \<in> set ks")
    case False
    then have "k = x" using Cons.prems(2) by simp
    then show ?thesis using deleteKeys_frame [OF False d(2)] delete_ok [OF d(1)] by simp
  qed (use Cons.IH d in blast)
qed simp

lemma runCleanup_effect:
  assumes "runCleanup (Some S) c b st = (e, st')"
  shows "(e = None \<longrightarrow> (\<forall>k. objects st' k = (if k = ManifestKey c b \<or> under (SetPrefix c b) k then None else objects st k))) \<and>
     (\<forall>k. objects st' k \<noteq> objects st k \<longrightarrow> k = ManifestKey c b \<or> under (SetPrefix c b) k \<and> objects st' (ManifestKey c b) = None)"
proof -
  obtain e1 st1 where d: "sto_Delete S (ManifestKey c b) st = (e1, st1)" by fastforce
  show ?thesis
  proof (cases e1)
    case (Some x)
    then show ?thesis using assms d delete_failed [of "ManifestKey c b" st x st1] by (auto simp: runCleanup_def)
  next
    case None
    then have o1: "objects st1 = (objects st)(ManifestKey c b := None)" using delete_ok d by blast
    show ?thesis
    proof (cases "sto_List S (SetPrefix c b) st1")
      case (Inl x)
      then show ?thesis using assms d None o1 by (auto simp: runCleanup_def)
    next
      case (Inr ks)
      then have ks: "set ks = {k. objects st1 k \<noteq> None \<and> under (SetPrefix c b) k}" by (rule list_ok)
      obtain e2 st2 where dk: "deleteKeys S ks st1 = (e2, st2)" by fastforce
      have "st' = st2 \<and> (e = None \<longrightarrow> e2 = None)"
        using assms d None Inr dk by (auto simp: runCleanup_def Let_def split: option.splits sum.splits if_splits)
      moreover have "objects st2 (ManifestKey c b) = None" using deleteKeys_frame [OF _ dk] ks o1 by simp
      moreover have "objects st2 k = objects st k" if "k \<noteq> ManifestKey c b" "\<not> under (SetPrefix c b) k" for k
        using deleteKeys_frame [OF _ dk, of k] ks o1 that by simp
      moreover have "objects st2 k = None" if "e2 = None" "under (SetPrefix c b) k" for k
      proof (cases "k \<in> set ks")
        case True
        then show ?thesis using deleteKeys_ok dk that(1) by blast
      next
        case False
        then have "objects st1 k = None" using ks that(2) by auto
        then show ?thesis using deleteKeys_frame [OF False dk] by simp
      qed
      ultimately show ?thesis by metis
    qed
  qed
qed

end


text \<open>C8: After a successful run the manifest object holds an encoded manifest, which in strict mode lists every shard.  If
  that document decodes to the manifest it was made from and the store delivers its objects, downloading any shard the
  manifest lists gives, verified, the very dump the shard delivered.\<close>

theorem backup_download_round_trip:
  assumes "object_store S objects" "o_store opts = Some S" "o_newRDBSource opts = Some src" "wellNamed opts"
    "runBackup J sha256hex opts st = (None, st')"
  shows "\<exists>m d. js_encode J m = Inr d \<and> objects st' (ManifestKey (o_cluster opts) (o_backupName opts)) = Some d \<and>
     (o_consistency opts \<noteq> consistencyBestEffort \<longrightarrow> map sm_Index (mf_Shards m) = map sp_index (sort_key sp_index (o_shards opts))) \<and>
     (js_decode J d = Inr m \<longrightarrow> (\<forall>k d. objects st' k = Some d \<longrightarrow> sto_Get S k st' = Inr (d, None)) \<longrightarrow>
        (\<forall>sp \<in> set (o_shards opts). sp_index sp \<in> sm_Index ` set (mf_Shards m) \<longrightarrow>
           (\<exists>data. delivered src sp = Some data \<and>
              runDownload J sha256hex (Some S) (o_cluster opts) (o_backupName opts) (sp_index sp) st' = (None, data))))"
  by (rule object_store.backup_round_trip [OF assms])


definition sample_shard :: shardPrimary where
  "sample_shard = \<lparr> sp_index = 0, sp_nodeID = ''n0'', sp_addr = ''10.0.0.1:6379'', sp_slots = [SlotRange 0 16383], sp_replOffset = 0 \<rparr>"

definition sample_run :: "FakeStore backupOptions" where
  "sample_run = \<lparr> o_cluster = ''c1'', o_backupName = ''b1'', o_mode = ''cluster'', o_crVersion = ''1.0.0'', o_engineVersion = '''',
     o_consistency = consistencyStrict, o_store = Some fake, o_shards = [sample_shard],
     o_newRDBSource = Some (\<lambda>sp. Inr ((''RDB'', None), 3)), o_now = 0 \<rparr>"

definition sample_manifest :: Manifest where
  "sample_manifest = stamped (newManifest sample_run \<lparr> mf_SlotCoverage := ''complete'', mf_Shards := [fragment (\<lambda>d. d) sample_shard ''RDB''] \<rparr>)"

definition sample_json :: json where
  "sample_json = \<lparr> js_encode = (\<lambda>m. Inr ''{}''), js_decode = (\<lambda>d. Inr sample_manifest) \<rparr>"

abbreviation sample_result :: "string option \<times> FakeStore" where
  "sample_result \<equiv> runBackup sample_json (\<lambda>d. d) sample_run NewFakeStore"

lemma sample_names: "segment ''c1''" "segment ''b1''"
  by (simp_all add: segment_def token_def isSpace_def slash_def)

lemma sample_wellNamed: "wellNamed sample_run"
  by (simp add: wellNamed_def sample_run_def sample_shard_def segment_def token_def isSpace_def slash_def int64_def)

lemma sample_run_eq: "sample_result = (None, \<lparr> fk_objects = AList.update (ManifestKey ''c1'' ''b1'') ''{}'' [(ShardRDBKey ''c1'' ''b1'' 0, ''RDB'')],
     fk_ops = [FakeOpPut (ShardRDBKey ''c1'' ''b1'' 0), FakeOpPut (ManifestKey ''c1'' ''b1'')], fk_failPut = None \<rparr>)"
  by (simp add: runBackup_def sample_run_def sample_shard_def snapshotShard_def fake_def FakeStore_Put_def NewFakeStore_def WriteManifest_def
      MarshalManifest_def sample_json_def assertCoverage_def TotalSlots_def Let_def consistencyStrict_def consistencyBestEffort_def)

lemma sample_run_ok: "fst sample_result = None" by (simp add: sample_run_eq)

lemma sample_run_pair: "sample_result = (None, snd sample_result)"
  using sample_run_ok by (metis prod.collapse)

lemma sample_run_fields:
  "o_store sample_run = Some fake" "o_newRDBSource sample_run = Some (\<lambda>sp. Inr ((''RDB'', None), 3))"
  "o_consistency sample_run \<noteq> consistencyBestEffort" "o_cluster sample_run = ''c1''" "o_backupName sample_run = ''b1''"
  "o_shards sample_run = [sample_shard]" "sp_index sample_shard = 0"
  by (simp_all add: sample_run_def sample_shard_def consistencyStrict_def consistencyBestEffort_def)


theorem backup_download_round_trip_witness:
  "(\<exists>m d. js_encode sample_json m = Inr d \<and> fake_objects (snd sample_result) (ManifestKey ''c1'' ''b1'') = Some d \<and> map sm_Index (mf_Shards m) = [0]) \<and>
   runDownload sample_json (\<lambda>d. d) (Some fake) ''c1'' ''b1'' 0 (snd sample_result) = (None, ''RDB'')"
proof
  from backup_download_round_trip [OF fake.object_store_axioms sample_run_fields(1,2) sample_wellNamed sample_run_pair]
  show "\<exists>m d. js_encode sample_json m = Inr d \<and> fake_objects (snd sample_result) (ManifestKey ''c1'' ''b1'') = Some d \<and> map sm_Index (mf_Shards m) = [0]"
    by (fastforce simp: sample_run_fields)
  have "ShardRDBKey ''c1'' ''b1'' 0 \<noteq> ManifestKey ''c1'' ''b1''" using ShardRDBKey_not_manifest sample_names by blast
  then show "runDownload sample_json (\<lambda>d. d) (Some fake) ''c1'' ''b1'' 0 (snd sample_result) = (None, ''RDB'')"
    unfolding sample_run_eq snd_conv
    by (simp add: runDownload_def ReadManifest_def UnmarshalManifest_def sample_json_def fake_def FakeStore_Get_def
        update_conv' sample_manifest_def findShard_def newManifest_def fragment_def sample_run_fields)
qed

definition sample_store :: FakeStore where
  "sample_store = \<lparr> fk_objects = [(''c1/b1/shard-0/dump.rdb'', ''RDB''), (''c1/b10/manifest.json'', ''{}''), (''c1/b1/manifest.json'', ''{}'')],
     fk_ops = [], fk_failPut = None \<rparr>"

lemma sample_keys: "ManifestKey ''c1'' ''b1'' = ''c1/b1/manifest.json''" "SetPrefix ''c1'' ''b1'' = ''c1/b1''"
  using sample_names by (simp_all add: ManifestKey_segments SetPrefix_segments)


subsection \<open>Cleanup in a bucket\<close>

text \<open>The documented behaviour of the cloud stores: a listing has the objects whose names begin with the prefix, and deleting works.\<close>

definition bucket_laws :: "'st bucket_api \<Rightarrow> ('st \<Rightarrow> string \<Rightarrow> string option) \<Rightarrow> bool" where
  "bucket_laws B contents \<longleftrightarrow>
     (\<forall>p st. \<exists>names. bu_list B p st = Inr names \<and> set names = {k. contents st k \<noteq> None \<and> HasPrefix k p}) \<and>
     (\<forall>k st. \<exists>st'. bu_delete B k st = (None, st') \<and> contents st' = (contents st)(k := None))"

definition cloudStore :: "'st bucket_api \<Rightarrow> string \<Rightarrow> 'st ArtifactStore \<Rightarrow> bool" where
  "cloudStore B prefix S \<longleftrightarrow> S \<in> {s3Store B prefix, gcsStore B prefix, azureStore B prefix}"

lemma Join_append: "xs \<noteq> [] \<Longrightarrow> ys \<noteq> [] \<Longrightarrow> Join (xs @ ys) sep = Join xs sep @ sep @ Join ys sep"
proof (induction xs sep rule: Join.induct)
  case (2 w sep)
  then show ?case by (cases ys) auto
qed auto

lemma cloud_strip:
  assumes "list_all segment ps" "xs \<noteq> []" "strip \<in> {s3_stripPrefix, gcs_stripPrefix, azure_stripPrefix}"
  shows "strip (Join ps ''/'') (Join (ps @ xs) ''/'') = Join xs ''/''"
proof (cases "ps = []")
  case True
  then show ?thesis using assms(3) by (auto simp: s3_stripPrefix_def gcs_stripPrefix_def azure_stripPrefix_def)
next
  case False
  note e = Join_segments_ends [OF False assms(1)]
  have n: "TrimPrefix (Join ps ''/'' @ ''/'') ''/'' = Join ps ''/'' @ ''/''"
    using e by (cases "Join ps ''/''") (auto simp: TrimPrefix_def HasPrefix_def slash_def)
  have j: "Join (ps @ xs) ''/'' = (Join ps ''/'' @ ''/'') @ Join xs ''/''"
    using Join_append [OF False assms(2), of "''/''"] by (simp only: append_assoc)
  have "s3_stripPrefix (Join ps ''/'') (Join (ps @ xs) ''/'') = Join xs ''/''" "gcs_stripPrefix (Join ps ''/'') (Join (ps @ xs) ''/'') = Join xs ''/''"
    "azure_stripPrefix (Join ps ''/'') (Join (ps @ xs) ''/'') = Join xs ''/''"
    unfolding s3_stripPrefix_def gcs_stripPrefix_def azure_stripPrefix_def Trim_Join [OF False assms(1)] n j TrimPrefix_append
    using e by simp_all
  then show ?thesis using assms(3) by blast
qed

lemma Join_prefix: "\<exists>r. Join (us @ (b @ x) # ys) sep = Join (us @ [b]) sep @ r"
proof (induction us)
  case Nil
  show ?case by (cases ys) auto
next
  case (Cons u us)
  then obtain r where "Join (us @ (b @ x) # ys) sep = Join (us @ [b]) sep @ r" by blast
  then show ?case by (cases us) auto
qed

lemma cloud_delete:
  assumes "bucket_laws B contents" "cloudStore B prefix S"
  shows "\<exists>st'. sto_Delete S k st = (None, st') \<and> contents st' = (contents st)(fullKey prefix k := None)"
proof -
  obtain st' where "bu_delete B (fullKey prefix k) st = (None, st')" "contents st' = (contents st)(fullKey prefix k := None)"
    using assms(1) unfolding bucket_laws_def by blast
  then show ?thesis
    using assms(2) by (auto simp: cloudStore_def s3Store_def gcsStore_def azureStore_def s3_Delete_def gcs_Delete_def azure_Delete_def cloud_Delete_def)
qed

lemma cloud_deleteKeys:
  assumes "bucket_laws B contents" "cloudStore B prefix S"
  shows "\<exists>st'. deleteKeys S ks st = (None, st') \<and> contents st' = (\<lambda>k. if k \<in> fullKey prefix ` set ks then None else contents st k)"
proof (induction ks arbitrary: st)
  case (Cons k ks)
  obtain st1 where d: "sto_Delete S k st = (None, st1)" "contents st1 = (contents st)(fullKey prefix k := None)"
    using cloud_delete [OF assms] by blast
  from Cons [of st1] obtain st' where "deleteKeys S ks st1 = (None, st')"
    "contents st' = (\<lambda>k. if k \<in> fullKey prefix ` set ks then None else contents st1 k)" by blast
  then show ?case using d by (auto simp: fun_eq_iff)
qed auto

lemma cloud_list:
  assumes "bucket_laws B contents" "cloudStore B prefix S"
  shows "\<exists>strip ks. strip \<in> {s3_stripPrefix, gcs_stripPrefix, azure_stripPrefix} \<and> sto_List S p st = Inr ks \<and>
     set ks = strip prefix ` {k. contents st k \<noteq> None \<and> HasPrefix k (fullKey prefix p)}"
proof -
  obtain names where "bu_list B (fullKey prefix p) st = Inr names" "set names = {k. contents st k \<noteq> None \<and> HasPrefix k (fullKey prefix p)}"
    using assms(1) unfolding bucket_laws_def by blast
  then show ?thesis
    using assms(2) by (auto simp: cloudStore_def s3Store_def gcsStore_def azureStore_def s3_List_def gcs_List_def azure_List_def cloud_List_def)
qed

text \<open>C13: On the three cloud stores, whose listings go by the beginning of the name, cleaning up a backup also removes the
  manifest and the dumps of every backup of the cluster whose name extends its name.\<close>

theorem cloud_cleanup_overreaches:
  assumes "bucket_laws B contents" "S \<in> {s3Store B prefix, gcsStore B prefix, azureStore B prefix}"
    "prefix = Join ps ''/''" "list_all segment ps" "segment c" "segment b" "segment (b @ x)"
    "k = ManifestKey c (b @ x) \<or> k = ShardRDBKey c (b @ x) i"
  shows "contents (snd (runCleanup (Some S) c b st)) (fullKey prefix k) = None"
proof -
  have S: "cloudStore B prefix S" using assms(2) by (simp add: cloudStore_def)
  obtain st1 where d: "sto_Delete S (ManifestKey c b) st = (None, st1)" using cloud_delete [OF assms(1) S, of "ManifestKey c b" st] by (elim exE conjE)
  obtain strip ks where l: "strip \<in> {s3_stripPrefix, gcs_stripPrefix, azure_stripPrefix}" "sto_List S (SetPrefix c b) st1 = Inr ks"
     "set ks = strip prefix ` {k. contents st1 k \<noteq> None \<and> HasPrefix k (fullKey prefix (SetPrefix c b))}"
    using cloud_list [OF assms(1) S, of "SetPrefix c b" st1] by (elim exE conjE)
  obtain st2 where dk: "deleteKeys S ks st1 = (None, st2)"
     "contents st2 = (\<lambda>k. if k \<in> fullKey prefix ` set ks then None else contents st1 k)"
    using cloud_deleteKeys [OF assms(1) S, of ks st1] by (elim exE conjE)
  have r: "snd (runCleanup (Some S) c b st) = st2"
    using d l(2) dk(1) by (simp add: runCleanup_def Let_def split: sum.split)
  have seg: "segment ''manifest.json''" "segment ''dump.rdb''" by (simp_all add: segment_def token_def isSpace_def slash_def)
  obtain ys where ys: "k = Join (c # (b @ x) # ys) ''/''" "list_all segment ys"
    using assms(8)
  proof
    assume "k = ManifestKey c (b @ x)"
    then show thesis using ManifestKey_segments [OF assms(5,7)] seg by (intro that [of "[''manifest.json'']"]) (simp_all add: list.pred_inject)
  next
    assume "k = ShardRDBKey c (b @ x) i"
    then show thesis using ShardRDBKey_segments [OF assms(5,7)] seg segment_shardName
      by (intro that [of "[shardName i, ''dump.rdb'']"]) (simp_all add: list.pred_inject)
  qed
  have "list_all segment (c # (b @ x) # ys)" using ys(2) assms(5,7) by (simp add: list.pred_inject)
  from joinKey_segments [OF assms(4) _ this] have f: "fullKey prefix k = Join (ps @ c # (b @ x) # ys) ''/''"
    unfolding fullKey_def assms(3) ys(1) by blast
  have s: "strip prefix (fullKey prefix k) = k"
    unfolding f unfolding assms(3) ys(1) by (rule cloud_strip [OF assms(4) _ l(1)]) simp
  have "list_all segment [c, b]" using assms(5,6) by simp
  from joinKey_segments [OF assms(4) _ this] have g: "fullKey prefix (SetPrefix c b) = Join (ps @ [c, b]) ''/''"
    unfolding fullKey_def assms(3) SetPrefix_segments [OF assms(5,6)] by blast
  obtain r' where "Join ((ps @ [c]) @ (b @ x) # ys) ''/'' = Join ((ps @ [c]) @ [b]) ''/'' @ r'"
    using Join_prefix [of "ps @ [c]" b x ys "''/''"] by (elim exE)
  then have p: "HasPrefix (fullKey prefix k) (fullKey prefix (SetPrefix c b))"
    unfolding f g HasPrefix_def append_assoc append.simps by (simp only: take_append length_append diff_self_eq_0 take_0 append_Nil2 take_all order_refl)
  show ?thesis
  proof (cases "contents st1 (fullKey prefix k) = None")
    case True
    then show ?thesis using r dk(2) by simp
  next
    case False
    then have "k \<in> set ks" using l(3) p s by (metis (mono_tags, lifting) image_eqI mem_Collect_eq)
    then show ?thesis using r dk(2) by simp
  qed
qed

definition memBucket :: "(string \<times> string) list bucket_api" where
  "memBucket = \<lparr> bu_put = (\<lambda>k r st. (None, AList.update k (fst r) st)), bu_get = (\<lambda>k st. Inl (ErrNotExist k)),
     bu_list = (\<lambda>p st. Inr (filter (\<lambda>k. HasPrefix k p) (map fst st))), bu_delete = (\<lambda>k st. (None, AList.delete k st)), bu_head = (\<lambda>k st. None) \<rparr>"

theorem cloud_cleanup_overreaches_witness:
  "map_of [(''c1/b10/manifest.json'', ''{}'')] (ManifestKey ''c1'' ''b10'') = Some ''{}'' \<and>
   map_of (snd (runCleanup (Some (s3Store memBucket '''')) ''c1'' ''b1'' [(''c1/b10/manifest.json'', ''{}'')])) (fullKey '''' (ManifestKey ''c1'' ''b10'')) = None"
proof
  have laws: "bucket_laws memBucket map_of"
    by (auto simp: bucket_laws_def memBucket_def delete_conv' map_of_eq_None_iff)
  have b: "segment (''b1'' @ ''0'')" by (simp add: segment_def token_def isSpace_def slash_def)
  show "map_of [(''c1/b10/manifest.json'', ''{}'')] (ManifestKey ''c1'' ''b10'') = Some ''{}''"
    using ManifestKey_segments [OF sample_names(1) b] by simp
  have "s3Store memBucket '''' \<in> {s3Store memBucket '''', gcsStore memBucket '''', azureStore memBucket ''''}" by blast
  from cloud_cleanup_overreaches [OF laws this _ _ sample_names b, of "[]" "ManifestKey ''c1'' (''b1'' @ ''0'')"]
  show "map_of (snd (runCleanup (Some (s3Store memBucket '''')) ''c1'' ''b1'' [(''c1/b10/manifest.json'', ''{}'')])) (fullKey '''' (ManifestKey ''c1'' ''b10'')) = None"
    by simp
qed

subsection \<open>A truncated dump\<close>

lemma readLine_line:
  assumes "CHR 0x0A \<notin> set l" "l = [] \<or> last l \<noteq> CHR 0x0D"
  shows "readLine (l @ crlf @ rest, e) = Inr (l, (rest, e))"
proof -
  have t: "takeWhile (\<lambda>c. c \<noteq> CHR 0x0A) (l @ crlf @ rest) = l @ [CHR 0x0D]"
    using assms(1) by (induction l) (auto simp: crlf_def)
  moreover have "TrimRightP (\<lambda>c. c = CHR 0x0A \<or> c = CHR 0x0D) (l @ [CHR 0x0D]) = l"
    using assms by (cases l rule: rev_cases) (auto simp: TrimRightP_def)
  ultimately show ?thesis by (simp add: readLine_def crlf_def)
qed

lemma readBulkHeader_length:
  assumes "int64 n" "0 \<le> n"
  shows "readBulkHeader (''$'' @ Itoa n @ crlf @ rest, e) = Inr (n, (rest, e))"
proof -
  have d: "is_digit c" if "c \<in> set (Itoa n)" for c using Itoa_digits assms(2) that by blast
  have "is_digit (hd (Itoa n))" "is_digit (last (Itoa n))" using d hd_in_set last_in_set Itoa_not_Nil by blast+
  then have "hd (Itoa n) \<noteq> CHR ''E''" "last (Itoa n) \<noteq> CHR 0x0D" by (auto simp: is_digit_alt)
  moreover have "CHR 0x0A \<notin> set (Itoa n)" using d [of "CHR 0x0A"] by (auto simp: is_digit_alt)
  moreover have "ParseInt (Itoa n) = (n, None)" using Atoi_Itoa [OF assms(1)] by (simp add: Atoi_def)
  ultimately show ?thesis
    using readLine_line [of "''$'' @ Itoa n" rest e] assms(2) by (simp add: readBulkHeader_def)
qed

text \<open>C14: When the connection to a shard ends before the announced length, the snapshot of the shard succeeds all the same,
  with the part that arrived as its object, its hash and its size.\<close>

theorem truncated_rdb_accepted:
  assumes "int64 n" "int (length data) < n" "dial (sp_addr sp) = Inr ((''$'' @ Itoa n @ crlf @ data, None), \<lambda>cmd. None)"
    "au_password auth = ''''" "fk_failPut st = None"
  shows "\<exists>frag st'. snapshotShard sha256hex opts fake (newSyncRDBSource dial auth) sp st = (Inr (frag, sp_slots sp), st') \<and>
     fake_objects st' (ShardRDBKey (o_cluster opts) (o_backupName opts) (sp_index sp)) = Some data \<and>
     sm_SHA256 frag = sha256hex data \<and> sm_SizeBytes frag < n"
proof -
  have "newSyncRDBSource dial auth sp = Inr ((data, None), n)"
    using assms readBulkHeader_length [of n data None]
    by (simp add: newSyncRDBSource_def sync_Open_def authenticate_def limitReader_def)
  then show ?thesis
    using assms(2,5) by (simp add: snapshotShard_def fake_def FakeStore_Put_def fake_objects_def Let_def update_conv')
qed

theorem truncated_rdb_accepted_witness:
  "\<exists>frag st'. snapshotShard (\<lambda>d. d) sample_run fake
       (newSyncRDBSource (\<lambda>addr. Inr ((''$'' @ Itoa 9 @ crlf @ ''REDIS'', None), \<lambda>cmd. None)) \<lparr> au_username = '''', au_password = '''' \<rparr>)
       sample_shard NewFakeStore = (Inr (frag, sp_slots sample_shard), st') \<and> sm_SizeBytes frag < 9"
proof -
  have "int64 9" "int (length ''REDIS'') < 9" by (simp_all add: int64_def)
  from truncated_rdb_accepted [OF this, of "\<lambda>addr. Inr ((''$'' @ Itoa 9 @ crlf @ ''REDIS'', None), \<lambda>cmd. None)" sample_shard
      "\<lparr> au_username = '''', au_password = '''' \<rparr>" NewFakeStore "\<lambda>d. d" sample_run]
  show ?thesis by (auto simp: NewFakeStore_def)
qed

subsection \<open>The environment reaches the program\<close>

definition jobAssignments :: "JobEnvParams \<Rightarrow> (string \<times> string) list" where
  "jobAssignments p = [(EnvCluster, je_Cluster p), (EnvBackupName, je_Backup p)] @ addStorageEnv p @ addManifestEnv p @ addConnEnv p @
     (if je_DownloadDst p \<noteq> '''' then [(EnvDownloadDst, je_DownloadDst p)] else [])"

lemma JobEnv_assignments: "JobEnv p = sort_key fst (filter (\<lambda>(k, v). v \<noteq> '''') (jobAssignments p))"
  by (simp add: JobEnv_def jobAssignments_def Let_def)

lemma map_of_filter_None: "k \<notin> fst ` set kv \<Longrightarrow> map_of (filter P kv) k = None"
  by (auto simp: map_of_eq_None_iff)

lemma getenv_assignments:
  assumes "distinct (map fst kv)" "list_all (\<lambda>kv'. fst kv' \<noteq> k) creds"
  shows "getenv (sort_key fst (filter (\<lambda>(k, v). v \<noteq> '''') kv) @ creds) k = (case map_of kv k of Some v \<Rightarrow> v | None \<Rightarrow> '''')"
proof -
  let ?f = "filter (\<lambda>(k, v). v \<noteq> '''') kv"
  have d: "distinct (map fst ?f)" using assms(1) by (simp add: distinct_map_filter)
  have "distinct (map fst (sort_key fst ?f))" using d by (metis distinct_map distinct_sort set_sort)
  then have "map_of (rev (sort_key fst ?f)) = map_of (sort_key fst ?f)" by (intro map_of_inject_set [THEN iffD2]) (simp_all add: rev_map flip: rev_map)
  moreover have "map_of (sort_key fst ?f) = map_of ?f"
    using d \<open>distinct (map fst (sort_key fst ?f))\<close> by (intro map_of_inject_set [THEN iffD2]) simp_all
  moreover have "map_of (rev creds) k = None" using assms(2) by (auto simp: map_of_eq_None_iff list_all_iff)
  moreover have "(case map_of ?f k of Some v \<Rightarrow> v | None \<Rightarrow> '''') = (case map_of kv k of Some v \<Rightarrow> v | None \<Rightarrow> '''')"
    using assms(1) by (induction kv) (auto split: option.splits simp: map_of_filter_None)
  ultimately show ?thesis by (simp add: getenv_def map_add_def)
qed

lemma distinct_pieces:
  "list_all2 (\<lambda>xs ys. distinct xs \<and> set xs \<subseteq> set ys) xss yss \<Longrightarrow> distinct (concat yss) \<Longrightarrow>
     distinct (concat xss) \<and> set (concat xss) \<subseteq> set (concat yss)"
  by (induction rule: list_all2_induct) (simp_all, blast)

definition storageNames :: "string list" where
  "storageNames = [EnvStorageType, EnvS3Bucket, EnvS3Prefix, EnvS3Region, EnvS3Endpoint, EnvGCSBucket, EnvGCSPrefix, EnvAzureContainer,
     EnvAzurePrefix, EnvFSRoot]"

definition jobEnvNames :: "string list list" where
  "jobEnvNames = [[EnvCluster, EnvBackupName], storageNames, [EnvMode, EnvCRVersion, EnvConsistency, EnvEngineVersion],
     [EnvSeedNode, EnvAuthUser, EnvTLSEnabled, EnvTLSCAFile], [EnvDownloadDst]]"

lemma jobEnvNames_distinct: "distinct (concat jobEnvNames)"
  by code_simp

lemma jobEnvNames_no_credentials: "list_all (\<lambda>k. k \<notin> set (EnvAuthPassword # cloudCredEnvKeys)) (concat jobEnvNames)"
  by code_simp

lemma storageNames_distinct: "distinct (map fst (addStorageEnv p))"
proof -
  have d: "distinct [EnvStorageType, EnvS3Bucket, EnvS3Prefix, EnvS3Region, EnvS3Endpoint]" "distinct [EnvStorageType, EnvGCSBucket, EnvGCSPrefix]"
    "distinct [EnvStorageType, EnvAzureContainer, EnvAzurePrefix]" "distinct [EnvStorageType, EnvFSRoot]" by code_simp+
  have "map fst (addStorageEnv p) \<in> {[EnvStorageType], [EnvStorageType, EnvS3Bucket, EnvS3Prefix, EnvS3Region, EnvS3Endpoint],
      [EnvStorageType, EnvGCSBucket, EnvGCSPrefix], [EnvStorageType, EnvAzureContainer, EnvAzurePrefix], [EnvStorageType, EnvFSRoot]}"
    by (simp add: addStorageEnv_def split: BackupStorageType.split option.split)
  then show ?thesis using d by (elim insertE emptyE) (simp_all only: distinct_singleton)
qed

lemma jobAssignments_names: "distinct (map fst (jobAssignments p))" "fst ` set (jobAssignments p) \<subseteq> set (concat jobEnvNames)"
proof -
  let ?pieces = "[[EnvCluster, EnvBackupName], map fst (addStorageEnv p), map fst (addManifestEnv p), map fst (addConnEnv p),
     if je_DownloadDst p \<noteq> '''' then [EnvDownloadDst] else []]"
  have "distinct [EnvCluster, EnvBackupName]" "distinct [EnvMode, EnvCRVersion, EnvConsistency, EnvEngineVersion]"
    "distinct [EnvSeedNode, EnvAuthUser, EnvTLSEnabled, EnvTLSCAFile]" by code_simp+
  moreover have "set (map fst (addStorageEnv p)) \<subseteq> set storageNames"
    by (auto simp: addStorageEnv_def storageNames_def split: BackupStorageType.splits option.splits)
  ultimately have "list_all2 (\<lambda>xs ys. distinct xs \<and> set xs \<subseteq> set ys) ?pieces jobEnvNames"
    using storageNames_distinct [of p] by (auto simp: jobEnvNames_def addManifestEnv_def addConnEnv_def)
  from distinct_pieces [OF this jobEnvNames_distinct]
  have d: "distinct (concat ?pieces)" "set (concat ?pieces) \<subseteq> set (concat jobEnvNames)" by blast+
  have c: "concat ?pieces = map fst (jobAssignments p)" by (simp add: jobAssignments_def)
  show "distinct (map fst (jobAssignments p))" "fst ` set (jobAssignments p) \<subseteq> set (concat jobEnvNames)"
    using d unfolding c set_map by blast+
qed

definition credential_vars :: "(string \<times> string) list \<Rightarrow> bool" where
  "credential_vars creds \<longleftrightarrow> list_all (\<lambda>kv. fst kv \<in> set (EnvAuthPassword # cloudCredEnvKeys)) creds"

lemma getenv_JobEnv:
  assumes "credential_vars creds" "k \<notin> set (EnvAuthPassword # cloudCredEnvKeys)"
  shows "getenv (JobEnv p @ creds) k = (case map_of (jobAssignments p) k of Some v \<Rightarrow> v | None \<Rightarrow> '''')"
  unfolding JobEnv_assignments
  by (rule getenv_assignments [OF jobAssignments_names(1)]) (use assms in \<open>auto simp: credential_vars_def list_all_iff\<close>)

text \<open>The storage a run of the program sees, given the specification: everything but the name of the Secret.\<close>

definition seenStorage :: "JobEnvParams \<Rightarrow> StorageConfig \<Rightarrow> bool" where
  "seenStorage p cfg \<longleftrightarrow> cfg_Type cfg = st_Type (je_Spec p) \<and>
     (case st_Type (je_Spec p) of
        BackupStorageS3 \<Rightarrow> cfg_S3 cfg = map_option (\<lambda>s. s \<lparr> s3_CredentialsSecret := '''' \<rparr>) (st_S3 (je_Spec p))
      | BackupStorageGCS \<Rightarrow> cfg_GCS cfg = map_option (\<lambda>s. s \<lparr> gcs_CredentialsSecret := '''' \<rparr>) (st_GCS (je_Spec p))
      | BackupStorageAzure \<Rightarrow> cfg_Azure cfg = map_option (\<lambda>s. s \<lparr> az_CredentialsSecret := '''' \<rparr>) (st_Azure (je_Spec p))
      | BackupStorageFilesystem \<Rightarrow> cfg_FilesystemRoot cfg = je_FilesystemRoot p)"

definition storageGiven :: "JobEnvParams \<Rightarrow> bool" where
  "storageGiven p \<longleftrightarrow>
     (case st_Type (je_Spec p) of
        BackupStorageS3 \<Rightarrow> st_S3 (je_Spec p) \<noteq> None
      | BackupStorageGCS \<Rightarrow> st_GCS (je_Spec p) \<noteq> None
      | BackupStorageAzure \<Rightarrow> st_Azure (je_Spec p) \<noteq> None
      | BackupStorageFilesystem \<Rightarrow> True)"

lemma getenv_assigned:
  assumes "credential_vars creds" "(k, v) \<in> set (jobAssignments p)"
  shows "getenv (JobEnv p @ creds) k = v"
proof -
  have "k \<in> set (concat jobEnvNames)" using assms(2) jobAssignments_names(2) by force
  then have "k \<notin> set (EnvAuthPassword # cloudCredEnvKeys)" using jobEnvNames_no_credentials by (metis list_all_iff)
  from getenv_JobEnv [OF assms(1) this, of p] show ?thesis
    using map_of_is_SomeI [OF jobAssignments_names(1) assms(2)] by simp
qed


definition sample_params :: JobEnvParams where
  "sample_params = \<lparr> je_Cluster = ''c1'', je_Backup = ''b1'',
     je_Spec = \<lparr> st_Type = BackupStorageGCS, st_S3 = None, st_GCS = Some \<lparr> gcs_Bucket = ''bkt'', gcs_Prefix = '''', gcs_CredentialsSecret = ''s'' \<rparr>,
       st_Azure = None \<rparr>,
     je_FilesystemRoot = '''', je_Mode = ''cluster'', je_CRVersion = ''1.0.0'', je_Consistency = consistencyStrict, je_EngineVersion = '''',
     je_SeedNode = ''10.0.0.1:6379'', je_AuthUser = ''_backup'', je_TLSEnabled = False, je_TLSCAFile = '''', je_DownloadDst = '''' \<rparr>"


end
