(* ===== verification/Backup_Phases.thy ===== *)
theory Backup_Phases
  imports Backup_Controller Backup_Sets Cluster_World
begin

text \<open>
  What the passes of the backup controller (\<^verbatim>\<open>Backup_Controller\<close>) do to the API server: the calls a pass makes,
  in their order, by the state of the backup it finds; the lifecycle a user sees, which a run of passes and
  of other actors refines; and the cases in which the controller loses track of a Job.
\<close>

subsection \<open>Calls and the states they lead through\<close>

inductive srun :: "'st benv \<Rightarrow> 'st \<Rightarrow> bcall list \<Rightarrow> 'st \<Rightarrow> bool" for E where
  srun_nil: "srun E s [] s"
| srun_createJob: "be_createJob E job s = (r, s1) \<Longrightarrow> srun E s1 cs s2 \<Longrightarrow> srun E s (CreateJob job r # cs) s2"
| srun_deleteJob: "be_deleteJob E n s = (r, s1) \<Longrightarrow> srun E s1 cs s2 \<Longrightarrow> srun E s (DeleteJob n r # cs) s2"
| srun_finalizers: "be_patchFinalizers E n fs s = (r, s1) \<Longrightarrow> srun E s1 cs s2 \<Longrightarrow> srun E s (PatchFinalizers fs r # cs) s2"
| srun_status: "be_patchStatus E bk s = (r, s1) \<Longrightarrow> srun E s1 cs s2 \<Longrightarrow> srun E s (PatchStatus bk r # cs) s2"
| srun_acquire: "acquireClusterLease (be_lease E) bk t s = (l, s1) \<Longrightarrow> srun E s1 cs s2 \<Longrightarrow> srun E s (AcquireLease l # cs) s2"
| srun_renew: "renewClusterLease (be_lease E) bk t s = (u, s1) \<Longrightarrow> srun E s1 cs s2 \<Longrightarrow> srun E s (RenewLease u # cs) s2"
| srun_release: "releaseClusterLease (be_lease E) bk s = (u, s1) \<Longrightarrow> srun E s1 cs s2 \<Longrightarrow> srun E s (ReleaseLease u # cs) s2"

lemma srun_append: "srun E s cs s1 \<Longrightarrow> srun E s1 ds s2 \<Longrightarrow> srun E s (cs @ ds) s2"
  by (induction rule: srun.induct) (auto intro: srun.intros)

definition steps :: "'st benv \<Rightarrow> 'st bworld \<Rightarrow> bcall list \<Rightarrow> 'st bworld \<Rightarrow> bool" where
  "steps E w cs w' \<longleftrightarrow> bw_calls w' = bw_calls w @ cs \<and> srun E (bw_srv w) cs (bw_srv w')"

lemma steps_refl [simp]: "steps E w [] w"
  by (simp add: steps_def srun_nil)

lemma steps_trans [trans]: "steps E w cs w1 \<Longrightarrow> steps E w1 ds w2 \<Longrightarrow> steps E w (cs @ ds) w2"
  by (auto simp: steps_def intro: srun_append)

lemma steps_did: "srun E (bw_srv w) [c] s \<Longrightarrow> steps E w [c] (did w c s)"
  by (simp add: steps_def did_def)

lemma call_steps:
  "createJob E job w = (r, w') \<Longrightarrow> steps E w [CreateJob job r] w'"
  "deleteJob E n w = (r, w') \<Longrightarrow> steps E w [DeleteJob n r] w'"
  "patchFinalizers E n fs w = (r, w') \<Longrightarrow> steps E w [PatchFinalizers fs r] w'"
  "lockCluster E bk w = (lr, w') \<Longrightarrow> steps E w [AcquireLease lr] w'"
  "renewLock E bk w = (ur, w') \<Longrightarrow> steps E w [RenewLease ur] w'"
  "unlockCluster E bk w = (ur, w') \<Longrightarrow> steps E w [ReleaseLease ur] w'"
  by (auto simp: createJob_def deleteJob_def patchFinalizers_def lockCluster_def renewLock_def unlockCluster_def
      split: prod.splits intro!: steps_did intro: srun.intros)

definition statusWrite :: "BackupCR \<Rightarrow> bcall list \<Rightarrow> bool" where
  "statusWrite bk cs \<longleftrightarrow> cs = [] \<or> (\<exists>x. cs = [PatchStatus bk x])"

lemma writeBackupStatus_steps:
  assumes "writeBackupStatus E bk w = (r, w')"
  shows "\<exists>cs. steps E w cs w' \<and> statusWrite bk cs"
proof (cases "be_backup E (b_Name bk) (bw_srv w)")
  case (Inl e)
  then have "w' = w" using assms by (auto simp: writeBackupStatus_def Let_def)
  then show ?thesis by (intro exI [of _ "[]"]) (simp add: statusWrite_def)
next
  case (Inr b)
  obtain x s where p: "be_patchStatus E bk (bw_srv w) = (x, s)" by fastforce
  have "w' = did w (PatchStatus bk x) s" using assms Inr p by (cases x) (auto simp: writeBackupStatus_def Let_def)
  moreover have "srun E (bw_srv w) [PatchStatus bk x] s" using p by (auto intro: srun.intros)
  ultimately show ?thesis by (intro exI [of _ "[PatchStatus bk x]"]) (simp add: statusWrite_def steps_did)
qed

lemma persist_steps:
  assumes "persist E bk a w = (r, w')"
  shows "\<exists>cs. steps E w cs w' \<and> statusWrite bk cs"
proof -
  obtain e w1 where p: "writeBackupStatus E bk w = (e, w1)" by fastforce
  then have "w' = w1" using assms by (cases e) (auto simp: persist_def)
  then show ?thesis using writeBackupStatus_steps [OF p] by simp
qed

definition oneJob :: "string \<Rightarrow> bcall list \<Rightarrow> bool" where
  "oneJob n cs \<longleftrightarrow> cs = [] \<or> (\<exists>job x. cs = [CreateJob job x] \<and> jb_Name job = n)"

lemma createBackupJob_steps:
  assumes "createBackupJob E bk rs w = (r, bk1, w')"
  shows "\<exists>cs. steps E w cs w' \<and> oneJob (backupJobName bk) cs \<and> (bk1 = bk \<or> bk1 = bk \<lparr> b_Start := Some (be_now E) \<rparr>)"
proof (cases "\<exists>job. getBackupJob E bk (bw_srv w) = Inr None \<and> desiredBackupJob E bk rs (bw_srv w) = Inr job")
  case False
  then have "w' = w \<and> bk1 = bk" using assms by (auto simp: createBackupJob_def split: sum.splits option.splits)
  then show ?thesis by (intro exI [of _ "[]"]) (simp add: oneJob_def)
next
  case True
  then obtain job where j: "getBackupJob E bk (bw_srv w) = Inr None" "desiredBackupJob E bk rs (bw_srv w) = Inr job" by blast
  obtain x w1 where c: "createJob E job w = (x, w1)" by fastforce
  have "w' = w1 \<and> (bk1 = bk \<or> bk1 = bk \<lparr> b_Start := Some (be_now E) \<rparr>)"
    using assms j c by (auto simp: createBackupJob_def Let_def split: option.splits api_error.splits if_splits)
  moreover have "jb_Name job = backupJobName bk" using j(2) by (auto simp: desiredBackupJob_def split: sum.splits)
  ultimately show ?thesis using call_steps(1) [OF c] by (intro exI [of _ "[CreateJob job x]"]) (simp add: oneJob_def)
qed

lemma terminalFail_steps:
  assumes "terminalFail E bk reason msg w = (r, w')"
  shows "\<exists>x cs. steps E w (ReleaseLease x # cs) w' \<and> statusWrite (failBackup E bk reason msg) cs"
proof -
  obtain x w1 where u: "unlockCluster E (failBackup E bk reason msg) w = (x, w1)" by fastforce
  note s = call_steps(6) [OF u]
  show ?thesis
  proof (cases x)
    case (Inl e)
    then show ?thesis using assms u s unfolding statusWrite_def by (auto simp: terminalFail_def Let_def)
  next
    case (Inr v)
    then have "persist E (failBackup E bk reason msg) 0 w1 = (r, w')" using assms u by (auto simp: terminalFail_def Let_def)
    from persist_steps [OF this] show ?thesis using steps_trans [OF s] by fastforce
  qed
qed

definition writes :: "(BackupCR \<Rightarrow> bool) \<Rightarrow> bcall list \<Rightarrow> bool" where
  "writes Q cs \<longleftrightarrow> (\<forall>b x. PatchStatus b x \<in> set cs \<longrightarrow> Q b)"

text \<open>A Job is created only after the lock was granted.\<close>

fun lockedFirst :: "bcall list \<Rightarrow> bool" where
  "lockedFirst (AcquireLease (Inr True) # cs) \<longleftrightarrow> True"
| "lockedFirst (CreateJob job x # cs) \<longleftrightarrow> False"
| "lockedFirst (c # cs) \<longleftrightarrow> lockedFirst cs"
| "lockedFirst [] \<longleftrightarrow> True"

lemma statusWrite_lockedFirst: "statusWrite bk cs \<Longrightarrow> lockedFirst cs"
  by (auto simp: statusWrite_def)

lemma writes_simps [simp]:
  "writes Q []" "writes Q (cs @ ds) \<longleftrightarrow> writes Q cs \<and> writes Q ds" "writes Q (PatchStatus b x # cs) \<longleftrightarrow> Q b \<and> writes Q cs"
  "writes Q (CreateJob j y # cs) = writes Q cs" "writes Q (DeleteJob n y # cs) = writes Q cs" "writes Q (PatchFinalizers fs y # cs) = writes Q cs"
  "writes Q (AcquireLease l # cs) = writes Q cs" "writes Q (RenewLease u # cs) = writes Q cs" "writes Q (ReleaseLease u # cs) = writes Q cs"
  by (auto simp: writes_def)

lemma statusWrite_writes: "statusWrite bk cs \<Longrightarrow> Q bk \<Longrightarrow> writes Q cs"
  by (auto simp: statusWrite_def)

lemma statusWrite_no_job: "statusWrite bk cs \<Longrightarrow> CreateJob job x \<notin> set cs"
  by (auto simp: statusWrite_def)

lemma oneJob_writes: "oneJob n cs \<Longrightarrow> writes Q cs"
  by (auto simp: oneJob_def)

lemma failBackup_fields [simp]: "b_Name (failBackup E bk r m) = b_Name bk" "b_State (failBackup E bk r m) = BackupStateFailed"
  "b_Namespace (failBackup E bk r m) = b_Namespace bk" "b_ClusterName (failBackup E bk r m) = b_ClusterName bk"
  by (simp_all add: failBackup_def setState_def)

lemma setState_fields [simp]: "b_Name (setState bk s d) = b_Name bk" "b_State (setState bk s d) = s" "b_Consistency (setState bk s d) = b_Consistency bk"
  "b_SlotCoverage (setState bk s d) = b_SlotCoverage bk"
  by (simp_all add: setState_def)

definition starts :: "BackupCR \<Rightarrow> BackupCR \<Rightarrow> bool" where
  "starts bk b \<longleftrightarrow> b_Name b = b_Name bk \<and> b_State b \<in> {BackupStateStarting, BackupStateRunning, BackupStateFailed}"

lemma reconcileStart_steps:
  assumes "reconcileStart E bk rs w = (r, w')"
  shows "\<exists>cs. steps E w cs w' \<and> lockedFirst cs \<and> writes (starts bk) cs"
proof (cases "clusterSnapshotReady E bk (bw_srv w)")
  case (Inl e)
  then have "w' = w" using assms by (simp add: reconcileStart_def)
  then show ?thesis by (intro exI [of _ "[]"]) simp
next
  case (Inr p)
  then obtain ok why where p: "clusterSnapshotReady E bk (bw_srv w) = Inr (ok, why)" by (cases p) auto
  show ?thesis
  proof (cases ok)
    case False
    then obtain d where "persist E (setState bk BackupStateStarting d) requeueLockBackoff w = (r, w')"
      using assms p by (auto simp: reconcileStart_def)
    from persist_steps [OF this] obtain cs where "steps E w cs w'" "statusWrite (setState bk BackupStateStarting d) cs" by blast
    then show ?thesis by (intro exI [of _ cs]) (auto simp: starts_def intro: statusWrite_writes statusWrite_lockedFirst)
  next
    case True
    obtain l w1 where l: "lockCluster E bk w = (l, w1)" by fastforce
    note s1 = call_steps(4) [OF l]
    consider (e) e where "l = Inl e" | (f) "l = Inr False" | (t) "l = Inr True" by (metis (full_types) sum.exhaust)
    then show ?thesis
    proof cases
      case e
      then have "w' = w1" using assms p True l by (simp add: reconcileStart_def)
      then show ?thesis using s1 e by (intro exI [of _ "[AcquireLease l]"]) simp
    next
      case f
      then obtain d where "persist E (setState bk BackupStateStarting d) requeueLockBackoff w1 = (r, w')"
        using assms p True l by (auto simp: reconcileStart_def)
      from persist_steps [OF this] obtain cs where "steps E w1 cs w'" "statusWrite (setState bk BackupStateStarting d) cs" by blast
      then show ?thesis using steps_trans [OF s1] f
        by (intro exI [of _ "AcquireLease l # cs"]) (auto simp: starts_def intro: statusWrite_writes statusWrite_lockedFirst)
    next
      case t
      obtain e bk1 w2 where c: "createBackupJob E bk rs w1 = (e, bk1, w2)" by (metis prod_cases3)
      from createBackupJob_steps [OF c] obtain cs where cs: "steps E w1 cs w2" "oneJob (backupJobName bk) cs" "b_Name bk1 = b_Name bk" by auto
      have "\<exists>ds. steps E w2 ds w' \<and> writes (starts bk) ds"
      proof (cases e)
        case None
        then obtain d where "persist E (setState bk1 BackupStateRunning d) requeueJobWatch w2 = (r, w')"
          using assms p True l t c by (auto simp: reconcileStart_def)
        from persist_steps [OF this] obtain ds where "steps E w2 ds w'" "statusWrite (setState bk1 BackupStateRunning d) ds" by blast
        then show ?thesis using cs(3) by (intro exI [of _ ds]) (auto simp: starts_def intro: statusWrite_writes)
      next
        case (Some m)
        obtain u w3 where u: "unlockCluster E bk1 w2 = (u, w3)" by fastforce
        have "terminalFail E bk1 ReasonJobCreateError m w3 = (r, w')" using assms p True l t c Some u by (auto simp: reconcileStart_def)
        from terminalFail_steps [OF this] obtain x ds where d: "steps E w3 (ReleaseLease x # ds) w'"
          "statusWrite (failBackup E bk1 ReasonJobCreateError m) ds" by blast
        from steps_trans [OF call_steps(6) [OF u] d(1)] show ?thesis using d(2) cs(3)
          by (intro exI [of _ "[ReleaseLease u] @ ReleaseLease x # ds"]) (auto simp: starts_def intro: statusWrite_writes)
      qed
      then obtain ds where ds: "steps E w2 ds w'" "writes (starts bk) ds" by blast
      have "steps E w ([AcquireLease l] @ cs @ ds) w'" using steps_trans [OF s1 steps_trans [OF cs(1) ds(1)]] .
      moreover have "lockedFirst ([AcquireLease l] @ cs @ ds)" using t by simp
      ultimately show ?thesis using cs(2) ds(2) oneJob_writes by fastforce
    qed
  qed
qed

definition finishes :: "BackupCR \<Rightarrow> BackupCR \<Rightarrow> bool" where
  "finishes bk b \<longleftrightarrow> b_Name b = b_Name bk \<and> b_State b \<in> {BackupStateRunning, BackupStateSucceeded, BackupStateFailed} \<and>
     (b_State b = BackupStateSucceeded \<longrightarrow> b_Consistency bk = consistencyStrict \<longrightarrow> b_SlotCoverage b = ''complete'')"

lemma finishes_failed: "finishes bk (failBackup E bk r m)"
  by (simp add: finishes_def)

lemma handleJobComplete_verdict: "finishes bk (handleJobComplete E bk rs s)"
proof (cases "readManifest E bk rs s")
  case (Inr man)
  let ?b = "hydrateFromManifest bk man \<lparr> b_Completed := Some (be_now E) \<rparr>"
  have f: "b_Name ?b = b_Name bk" "b_Consistency ?b = b_Consistency bk" by (simp_all add: hydrateFromManifest_def)
  show ?thesis unfolding handleJobComplete_def Inr sum.case Let_def
    by (cases "b_SlotCoverage ?b = ''complete''"; cases "b_Consistency ?b = consistencyStrict") (simp_all add: finishes_def f)
qed (simp add: handleJobComplete_def finishes_failed)

definition noWrites :: "bcall list \<Rightarrow> bool" where
  "noWrites cs \<longleftrightarrow> (\<forall>c \<in> set cs. \<exists>job x u. c = CreateJob job x \<or> c = RenewLease u)"

lemma noWrites_writes: "noWrites cs \<Longrightarrow> writes Q cs"
  by (fastforce simp: noWrites_def writes_def)

lemma watchJob_steps:
  assumes "watchJob E bk rs w = (r, bk1, w')" "b_State bk = BackupStateRunning"
  shows "\<exists>cs. steps E w cs w' \<and> noWrites cs \<and> finishes bk bk1"
proof (cases "getBackupJob E bk (bw_srv w)")
  case (Inl e)
  then have "w' = w" "bk1 = bk" using assms(1) by (auto simp: watchJob_def)
  then show ?thesis using assms(2) by (intro exI [of _ "[]"]) (simp add: noWrites_def finishes_def)
next
  case (Inr j)
  show ?thesis
  proof (cases j)
    case None
    obtain e b2 w2 where c: "createBackupJob E bk rs w = (e, b2, w2)" by (metis prod_cases3)
    then have "w' = w2" "bk1 = b2" using assms(1) Inr None by (cases e; auto simp: watchJob_def)+
    then show ?thesis using createBackupJob_steps [OF c] assms(2) by (fastforce simp: oneJob_def noWrites_def finishes_def)
  next
    case (Some job)
    note g = Inr [unfolded Some]
    show ?thesis
    proof (cases "jobConditionTrue job JobComplete \<or> jobEvicted job \<or> jobConditionTrue job JobFailed")
      case True
      then have "w' = w \<and> finishes bk bk1"
        using assms(1) g handleJobComplete_verdict finishes_failed
        by (auto simp: watchJob_def simp del: failBackup_fields split: if_splits prod.splits)
      then show ?thesis by (intro exI [of _ "[]"]) (simp add: noWrites_def)
    next
      case False
      then obtain d u where u: "renewLock E (setState bk BackupStateRunning d) w = (u, w')" "bk1 = setState bk BackupStateRunning d"
        using assms(1) g by (auto simp: watchJob_def Let_def split: prod.splits sum.splits)
      then show ?thesis using call_steps(5) [OF u(1)] by (intro exI [of _ "[RenewLease u]"]) (simp add: noWrites_def finishes_def)
    qed
  qed
qed

lemma reconcileRunning_steps:
  assumes "reconcileRunning E bk rs w = (r, w')" "b_State bk = BackupStateRunning"
  shows "\<exists>cs. steps E w cs w' \<and> writes (finishes bk) cs"
proof -
  obtain d bk1 w1 where wj: "watchJob E bk rs w = (d, bk1, w1)" by (metis prod_cases3)
  from watchJob_steps [OF this assms(2)] obtain cs where cs: "steps E w cs w1" "noWrites cs" "finishes bk bk1" by blast
  consider (e) e where "d = Inl e" | (f) "d = Inr False" | (t) "d = Inr True" by (metis (full_types) sum.exhaust)
  then show ?thesis
  proof cases
    case e
    then have "w' = w1" using assms(1) wj by (simp add: reconcileRunning_def)
    then show ?thesis using cs noWrites_writes by blast
  next
    case f
    then have "persist E bk1 requeueJobWatch w1 = (r, w')" using assms(1) wj by (simp add: reconcileRunning_def)
    from persist_steps [OF this] obtain ds where "steps E w1 ds w'" "statusWrite bk1 ds" by blast
    then show ?thesis using steps_trans [OF cs(1)] cs(2,3) noWrites_writes statusWrite_writes
      by (intro exI [of _ "cs @ ds"]) auto
  next
    case t
    obtain u w2 where u: "unlockCluster E bk1 w1 = (u, w2)" by fastforce
    note s = steps_trans [OF cs(1) call_steps(6) [OF u]]
    show ?thesis
    proof (cases u)
      case (Inl e)
      then have "w' = w2" using assms(1) wj t u by (simp add: reconcileRunning_def)
      then show ?thesis using s cs(2) noWrites_writes by (intro exI [of _ "cs @ [ReleaseLease u]"]) auto
    next
      case (Inr v)
      then have "persist E bk1 0 w2 = (r, w')" using assms(1) wj t u by (simp add: reconcileRunning_def)
      from persist_steps [OF this] obtain ds where "steps E w2 ds w'" "statusWrite bk1 ds" by blast
      then show ?thesis using steps_trans [OF s] cs(2,3) noWrites_writes statusWrite_writes
        by (intro exI [of _ "(cs @ [ReleaseLease u]) @ ds"]) auto
    qed
  qed
qed

lemma checkNSetDefaults_fields:
  assumes "checkNSetDefaults E bk s = Inr (rs, bk1)"
  shows "b_Name bk1 = b_Name bk \<and> b_State bk1 = b_State bk \<and> b_Consistency bk1 = b_Consistency bk"
  using assms by (auto simp: checkNSetDefaults_def split: sum.splits api_error.splits option.splits if_splits)

lemma advance_steps:
  assumes "advance E bk w = (r, w')"
  shows "\<exists>cs. steps E w cs w' \<and>
     (if b_State bk = BackupStateRunning then writes (finishes bk) cs else lockedFirst cs \<and> writes (starts bk) cs)"
proof (cases "checkNSetDefaults E bk (bw_srv w)")
  case (Inl e)
  then have "terminalFail E bk ReasonStorageError e w = (r, w')" using assms by (simp add: advance_def)
  from terminalFail_steps [OF this] obtain x cs where "steps E w (ReleaseLease x # cs) w'"
    "statusWrite (failBackup E bk ReasonStorageError e) cs" by blast
  then show ?thesis
    by (intro exI [of _ "ReleaseLease x # cs"]) (auto simp: finishes_def starts_def intro: statusWrite_writes statusWrite_lockedFirst)
next
  case (Inr p)
  then obtain rs bk1 where p: "checkNSetDefaults E bk (bw_srv w) = Inr (rs, bk1)" by (cases p) auto
  note f = checkNSetDefaults_fields [OF p]
  show ?thesis
  proof (cases "b_State bk = BackupStateRunning")
    case True
    then have "reconcileRunning E bk1 rs w = (r, w')" using assms p f by (simp add: advance_def)
    moreover have "finishes bk1 = finishes bk" using f by (simp add: finishes_def fun_eq_iff)
    ultimately show ?thesis using reconcileRunning_steps [of E bk1 rs w r w'] True f by simp
  next
    case False
    then have "reconcileStart E bk1 rs w = (r, w')" using assms p f by (simp add: advance_def)
    moreover have "starts bk1 = starts bk" using f by (simp add: starts_def fun_eq_iff)
    ultimately show ?thesis using reconcileStart_steps [of E bk1 rs w r w'] False by simp
  qed
qed

definition cleans :: "'st benv \<Rightarrow> BackupCR \<Rightarrow> 'st \<Rightarrow> bcall list \<Rightarrow> bool" where
  "cleans E bk s cs \<longleftrightarrow>
     (\<forall>fs x. PatchFinalizers fs x \<in> set cs \<longrightarrow> (\<exists>job. getCleanupJob E bk s = Inr (Some job) \<and> jobConditionTrue job JobComplete)) \<and>
     (\<forall>job x. CreateJob job x \<in> set cs \<longrightarrow> jb_Name job = cleanupJobName bk) \<and>
     (\<forall>n x. DeleteJob n x \<in> set cs \<longrightarrow> (\<exists>job. getCleanupJob E bk s = Inr (Some job) \<and> jobConditionTrue job JobFailed \<and> n = jb_Name job))"

lemma createCleanupJob_steps:
  assumes "createCleanupJob E bk rs w = (r, w')"
  shows "\<exists>cs. steps E w cs w' \<and> oneJob (cleanupJobName bk) cs"
proof (cases "be_cluster E (b_ClusterName bk) (bw_srv w)")
  case (Inl e)
  then have "w' = w" using assms by (simp add: createCleanupJob_def)
  then show ?thesis by (intro exI [of _ "[]"]) (simp add: oneJob_def)
next
  case (Inr c)
  obtain x where "createJob E (cleanupJob bk c rs) w = (x, w')"
    using assms Inr unfolding createCleanupJob_def Let_def by (auto split: prod.splits option.splits api_error.splits)
  from call_steps(1) [OF this] show ?thesis
    by (intro exI [of _ "[CreateJob (cleanupJob bk c rs) x]"]) (simp add: oneJob_def cleanupJob_def)
qed

lemma handleDeletion_backup_steps:
  assumes "handleDeletion_backup E bk w = (r, w')"
  shows "\<exists>cs. steps E w cs w' \<and> writes (\<lambda>b. False) cs \<and>
     cleans E bk (bw_srv (snd (unlockCluster E bk w))) cs"
proof (cases "FinalizerDeleteBackup \<in> set (b_Finalizers bk)")
  case False
  then have "w' = w" using assms by (simp add: handleDeletion_backup_def)
  then show ?thesis by (intro exI [of _ "[]"]) (simp add: cleans_def)
next
  case True
  obtain u w1 where u: "unlockCluster E bk w = (u, w1)" by fastforce
  note s = call_steps(6) [OF u]
  have "\<exists>cs. steps E w1 cs w' \<and> writes (\<lambda>b. False) cs \<and> cleans E bk (bw_srv w1) cs"
  proof (cases "\<exists>rs job. u = Inr () \<and> resolveStorageForCleanup E bk (bw_srv w1) = Inr rs \<and> getCleanupJob E bk (bw_srv w1) = Inr job")
    case False
    then have "w' = w1" using assms True u by (auto simp: handleDeletion_backup_def split: sum.splits)
    then show ?thesis by (intro exI [of _ "[]"]) (simp add: cleans_def)
  next
    case c: True
    then obtain rs j where c: "u = Inr ()" "resolveStorageForCleanup E bk (bw_srv w1) = Inr rs" "getCleanupJob E bk (bw_srv w1) = Inr j" by blast
    show ?thesis
    proof (cases j)
      case None
      obtain e w2 where "createCleanupJob E bk rs w1 = (e, w2)" by fastforce
      then have "w' = w2" "createCleanupJob E bk rs w1 = (e, w2)" using assms True u c None by (auto simp: handleDeletion_backup_def split: option.splits)
      then show ?thesis using createCleanupJob_steps [of E bk rs w1 e w2]
        by (auto simp: cleans_def oneJob_def intro!: oneJob_writes)
    next
      case (Some job)
      show ?thesis
      proof (cases "jobConditionTrue job JobComplete")
        case jc: True
        obtain x where "patchFinalizers E (b_Name bk) (filter (\<lambda>f. f \<noteq> FinalizerDeleteBackup) (b_Finalizers bk)) w1 = (x, w')"
          using assms True u c Some jc by (auto simp: handleDeletion_backup_def removeFinalizer_def split: prod.splits option.splits)
        from call_steps(3) [OF this] show ?thesis using c Some jc by (fastforce simp: cleans_def)
      next
        case nc: False
        show ?thesis
        proof (cases "jobConditionTrue job JobFailed")
          case jf: True
          obtain x where "deleteJob E (jb_Name job) w1 = (x, w')"
            using assms True u c Some nc jf by (auto simp: handleDeletion_backup_def split: prod.splits option.splits api_error.splits)
          from call_steps(2) [OF this] show ?thesis using c Some jf by (fastforce simp: cleans_def)
        next
          case False
          then have "w' = w1" using assms True u c Some nc by (simp add: handleDeletion_backup_def)
          then show ?thesis by (intro exI [of _ "[]"]) (simp add: cleans_def)
        qed
      qed
    qed
  qed
  then obtain cs where cs: "steps E w1 cs w'" "writes (\<lambda>b. False) cs" "cleans E bk (bw_srv w1) cs" by blast
  then show ?thesis using steps_trans [OF s cs(1)] u by (intro exI [of _ "[ReleaseLease u] @ cs"]) (auto simp: cleans_def)
qed

lemma ensureFinalizer_steps:
  assumes "ensureFinalizer E bk w = (r, bk1, w')"
  shows "\<exists>cs fs. steps E w cs w' \<and> (cs = [] \<or> (\<exists>x. cs = [PatchFinalizers fs x])) \<and> bk1 = bk \<lparr> b_Finalizers := fs \<rparr>"
proof (cases "FinalizerDeleteBackup \<in> set (b_Finalizers bk)")
  case True
  then show ?thesis using assms by (intro exI [of _ "[]"] exI [of _ "b_Finalizers bk"]) (simp add: ensureFinalizer_def)
next
  case False
  let ?fs = "b_Finalizers bk @ [FinalizerDeleteBackup]"
  obtain x where p: "patchFinalizers E (b_Name bk) ?fs w = (x, w')" "bk1 = bk \<lparr> b_Finalizers := ?fs \<rparr>"
    using assms False by (auto simp: ensureFinalizer_def Let_def split: prod.splits option.splits)
  then show ?thesis using call_steps(3) [OF p(1)] by (intro exI [of _ "[PatchFinalizers ?fs x]"] exI [of _ ?fs]) simp
qed

text \<open>What a pass does, by the state it finds.\<close>

lemma finalizers_irrelevant [simp]:
  "finishes (bk \<lparr> b_Finalizers := fs \<rparr>) = finishes bk" "starts (bk \<lparr> b_Finalizers := fs \<rparr>) = starts bk"
  by (auto simp: finishes_def starts_def fun_eq_iff)

lemma Reconcile_backup_steps:
  assumes "Reconcile_backup E n w = (r, w')" "be_backup E n (bw_srv w) = Inr bk"
  shows "\<exists>cs. steps E w cs w' \<and>
     (if b_Deleting bk then writes (\<lambda>b. False) cs \<and> cleans E bk (bw_srv (snd (unlockCluster E bk w))) cs
      else if isTerminal bk then writes (\<lambda>b. False) cs \<and> (\<forall>job x. CreateJob job x \<notin> set cs)
      else if b_State bk = BackupStateRunning then writes (finishes bk) cs
      else lockedFirst cs \<and> writes (starts bk) cs)"
proof (cases "b_Deleting bk")
  case True
  then have "handleDeletion_backup E bk w = (r, w')" using assms by (simp add: Reconcile_backup_def)
  from handleDeletion_backup_steps [OF this] True show ?thesis by simp
next
  case False
  obtain e bk1 w1 where f: "ensureFinalizer E bk w = (e, bk1, w1)" by (metis prod_cases3)
  from ensureFinalizer_steps [OF f] obtain cs fs where cs: "steps E w cs w1" "cs = [] \<or> (\<exists>x. cs = [PatchFinalizers fs x])"
    "bk1 = bk \<lparr> b_Finalizers := fs \<rparr>" by blast
  show ?thesis
  proof (cases "e \<noteq> None \<or> isTerminal bk")
    case True
    have "w' = w1" using assms False f True cs(3) by (cases e) (auto simp: Reconcile_backup_def isTerminal_def)
    then show ?thesis using cs(1,2) False by (intro exI [of _ cs]) auto
  next
    case nt: False
    then have "advance E bk1 w1 = (r, w')" using assms False f cs(3) by (auto simp: Reconcile_backup_def isTerminal_def)
    from advance_steps [OF this] obtain ds where ds: "steps E w1 ds w'"
      "if b_State bk = BackupStateRunning then writes (finishes bk) ds else lockedFirst ds \<and> writes (starts bk) ds"
      unfolding cs(3) finalizers_irrelevant by auto
    have "lockedFirst (cs @ ds) = lockedFirst ds" using cs(2) by auto
    then show ?thesis using steps_trans [OF cs(1) ds(1)] ds(2) cs(2) False nt by (intro exI [of _ "cs @ ds"]) auto
  qed
qed

lemma lockedFirst_split: "lockedFirst cs \<Longrightarrow> cs = pre @ CreateJob job x # post \<Longrightarrow> AcquireLease (Inr True) \<in> set pre"
proof (induction cs arbitrary: pre rule: lockedFirst.induct)
  case (1 cs)
  then show ?case by (cases pre) auto
qed (auto simp: Cons_eq_append_conv)

text \<open>C9: The Job of a backup is created under the lock of its cluster: when a pass finds the backup in any state but
  Running and creates a Job, it has acquired the lease before, in the same pass.\<close>

theorem backup_job_needs_lock:
  assumes "be_backup E n (bw_srv w) = Inr bk" "\<not> b_Deleting bk" "b_State bk \<noteq> BackupStateRunning"
    "Reconcile_backup E n w = (r, w')" "bw_calls w' = bw_calls w @ pre @ CreateJob job x # post"
  shows "AcquireLease (Inr True) \<in> set pre"
proof -
  from Reconcile_backup_steps [OF assms(4,1)] obtain cs where cs: "bw_calls w' = bw_calls w @ cs"
    "if isTerminal bk then \<forall>job x. CreateJob job x \<notin> set cs else lockedFirst cs"
    using assms(2,3) by (auto simp: steps_def split: if_splits)
  have e: "cs = pre @ CreateJob job x # post" using cs(1) assms(5) by simp
  show ?thesis
  proof (cases "isTerminal bk")
    case True
    then show ?thesis using cs(2) e by (metis in_set_conv_decomp)
  next
    case False
    then show ?thesis using cs(2) e lockedFirst_split by simp
  qed
qed

text \<open>C10: A deleted backup keeps its finalizer until its artifacts are cleaned up: the pass removes it only if the server
  holds a cleanup Job of this backup that is complete, creates no other Job than that one, and writes no status.\<close>

theorem backup_finalizer_after_cleanup:
  assumes "be_backup E n (bw_srv w) = Inr bk" "b_Deleting bk" "Reconcile_backup E n w = (r, w')" "bw_calls w' = bw_calls w @ cs"
  shows "(\<forall>fs x. PatchFinalizers fs x \<in> set cs \<longrightarrow> 
       (\<exists>job. be_job E (cleanupJobName bk) (bw_srv (snd (unlockCluster E bk w))) = Inr job \<and> jobConditionTrue job JobComplete)) \<and>
     (\<forall>job x. CreateJob job x \<in> set cs \<longrightarrow> jb_Name job = cleanupJobName bk) \<and> (\<forall>b x. PatchStatus b x \<notin> set cs)"
proof -
  from Reconcile_backup_steps [OF assms(3,1)] assms(2,4) have w: "writes (\<lambda>b. False) cs" and c: "cleans E bk (bw_srv (snd (unlockCluster E bk w))) cs"
    by (auto simp: steps_def)
  have "be_job E (cleanupJobName bk) s = Inr job" if "getCleanupJob E bk s = Inr (Some job)" for s job
    using that by (auto simp: getCleanupJob_def getJob_def split: sum.splits api_error.splits)
  then show ?thesis using w c unfolding cleans_def writes_def by blast
qed

subsection \<open>The lifecycle of a backup\<close>

text \<open>
  What a user sees of a backup is a machine of three phases.  A pass of the controller makes one step of
  it, and a finished backup stays finished.
\<close>

datatype phase = Waiting | Underway | Done bool

fun phase_step :: "phase \<Rightarrow> phase \<Rightarrow> bool" where
  "phase_step Waiting p \<longleftrightarrow> p \<noteq> Done True"
| "phase_step Underway p \<longleftrightarrow> p \<noteq> Waiting"
| "phase_step (Done b) p \<longleftrightarrow> p = Done b"

lemma phase_step_refl [simp]: "phase_step p p"
  by (cases p) auto

definition phase_of :: "BackupCR \<Rightarrow> phase" where
  "phase_of bk = (case b_State bk of BackupStateNew \<Rightarrow> Waiting | BackupStateStarting \<Rightarrow> Waiting | BackupStateRunning \<Rightarrow> Underway
     | BackupStateSucceeded \<Rightarrow> Done True | BackupStateFailed \<Rightarrow> Done False | BackupStateError \<Rightarrow> Done False)"

definition specOf :: "BackupCR \<Rightarrow> string \<times> string \<times> string \<times> string" where
  "specOf bk = (b_Name bk, b_ClusterName bk, b_StorageName bk, b_Consistency bk)"

definition statusOf :: "BackupCR \<Rightarrow> BackupState \<times> string \<times> ShardBackupStatus list" where
  "statusOf bk = (b_State bk, b_SlotCoverage bk, b_Shards bk)"

text \<open>An object that is the same backup with the same status, or is gone.\<close>

definition kept :: "BackupCR option \<Rightarrow> BackupCR option \<Rightarrow> bool" where
  "kept old new \<longleftrightarrow> (\<forall>b. new = Some b \<longrightarrow> (\<exists>a. old = Some a \<and> specOf b = specOf a \<and> statusOf b = statusOf a))"

text \<open>
  What the controller relies on of the API server that stores the backups: a read returns the stored
  object; a patch of the status subresource writes the status of that one object or fails without effect,
  and leaves its specification alone; a patch of the metadata touches neither; the other calls write
  other objects.
\<close>

locale backup_server =
  fixes E :: "'st benv" and backups :: "'st \<Rightarrow> string \<Rightarrow> BackupCR option"
  assumes got: "be_backup E n s = Inr bk \<Longrightarrow> backups s n = Some bk \<and> b_Name bk = n"
    and status_patch: "be_patchStatus E bk s = (r, s') \<Longrightarrow> backups s' n = Some b \<Longrightarrow>
      \<exists>a. backups s n = Some a \<and> specOf b = specOf a \<and> (statusOf b = statusOf a \<or> n = b_Name bk \<and> statusOf b = statusOf bk)"
    and finalizer_patch: "be_patchFinalizers E m fs s = (fr, s') \<Longrightarrow> kept (backups s n) (backups s' n)"
    and job_created: "be_createJob E job s = (jr, s') \<Longrightarrow> backups s' = backups s"
    and job_deleted: "be_deleteJob E m s = (dr, s') \<Longrightarrow> backups s' = backups s"
    and lease_created: "la_create (be_lease E) s l = (lr, s') \<Longrightarrow> backups s' = backups s"
    and lease_updated: "la_update (be_lease E) s l = (lr, s') \<Longrightarrow> backups s' = backups s"
    and lease_patched: "la_patch (be_lease E) s l l' = (lr, s') \<Longrightarrow> backups s' = backups s"
begin

lemma acquire_keeps: "acquireClusterLease (be_lease E) bk t s = (r, s') \<Longrightarrow> backups s' = backups s"
  by (auto simp: acquireClusterLease_def createLease_def renewLeaseObject_def Let_def dest: lease_created lease_updated
      split: sum.splits api_error.splits prod.splits if_splits option.splits)

lemma renew_keeps: "renewClusterLease (be_lease E) bk t s = (r, s') \<Longrightarrow> backups s' = backups s"
  by (auto simp: renewClusterLease_def createLease_def renewLeaseObject_def Let_def dest: lease_created lease_updated lease_patched
      split: sum.splits api_error.splits prod.splits if_splits option.splits)

lemma release_keeps: "releaseClusterLease (be_lease E) bk s = (r, s') \<Longrightarrow> backups s' = backups s"
  by (auto simp: releaseClusterLease_def Let_def dest: lease_created lease_updated lease_patched
      split: sum.splits api_error.splits prod.splits if_splits option.splits)

lemma srun_status:
  assumes "srun E s cs s'" "writes Q cs" "backups s' n = Some b"
  shows "\<exists>a. backups s n = Some a \<and> specOf b = specOf a \<and>
    (statusOf b = statusOf a \<or> (\<exists>bk. Q bk \<and> b_Name bk = n \<and> statusOf b = statusOf bk))"
  using assms
proof (induction rule: srun.induct)
  case (srun_finalizers m fs s r s1 cs s2)
  then obtain c where c: "backups s1 n = Some c" "specOf b = specOf c" "statusOf b = statusOf c \<or> (\<exists>bk. Q bk \<and> b_Name bk = n \<and> statusOf b = statusOf bk)"
    by auto
  obtain a where "backups s n = Some a" "specOf c = specOf a" "statusOf c = statusOf a"
    using finalizer_patch [OF srun_finalizers(1), of n] c(1) by (auto simp: kept_def)
  then show ?case using c(2,3) by simp
next
  case (srun_status bk s r s1 cs s2)
  then obtain c where c: "backups s1 n = Some c" "specOf b = specOf c" "statusOf b = statusOf c \<or> (\<exists>bk. Q bk \<and> b_Name bk = n \<and> statusOf b = statusOf bk)"
    by auto
  obtain a where a: "backups s n = Some a" "specOf c = specOf a" "statusOf c = statusOf a \<or> n = b_Name bk \<and> statusOf c = statusOf bk"
    using status_patch [OF srun_status(1) c(1)] by auto
  have "Q bk" using srun_status(4) by simp
  then show ?case using a c(2,3) by (metis (no_types))
next
  case (srun_createJob job s r s1 cs s2)
  then show ?case using job_created [OF srun_createJob(1)] by simp
next
  case (srun_deleteJob m s r s1 cs s2)
  then show ?case using job_deleted [OF srun_deleteJob(1)] by simp
next
  case (srun_acquire bk t s l s1 cs s2)
  then show ?case using acquire_keeps [OF srun_acquire(1)] by simp
next
  case (srun_renew bk t s u s1 cs s2)
  then show ?case using renew_keeps [OF srun_renew(1)] by simp
next
  case (srun_release bk s u s1 cs s2)
  then show ?case using release_keeps [OF srun_release(1)] by simp
qed simp

lemma pass_step:
  assumes "Reconcile_backup E m w = (r, w')" "backups (bw_srv w) n = Some a" "backups (bw_srv w') n = Some b"
  shows "phase_step (phase_of a) (phase_of b) \<and> specOf b = specOf a \<and>
    (phase_of b = Done True \<longrightarrow> b_Consistency a = consistencyStrict \<longrightarrow> b_SlotCoverage b = ''complete'' \<or> statusOf b = statusOf a)"
proof (cases "be_backup E m (bw_srv w)")
  case (Inl e)
  then have "w' = w" using assms(1) by (cases e) (auto simp: Reconcile_backup_def)
  then show ?thesis using assms(2,3) by (cases "phase_of a") auto
next
  case (Inr bk)
  define Q where "Q x \<longleftrightarrow> \<not> isTerminal bk \<and> (if b_State bk = BackupStateRunning then finishes bk x else starts bk x)" for x
  obtain cs where cs: "srun E (bw_srv w) cs (bw_srv w')" "writes Q cs"
    using Reconcile_backup_steps [OF assms(1) Inr] unfolding Q_def
    by (auto simp: steps_def writes_def split: if_splits)
  obtain a' where a': "backups (bw_srv w) n = Some a'" "specOf b = specOf a'" 
     "statusOf b = statusOf a' \<or> (\<exists>x. Q x \<and> b_Name x = n \<and> statusOf b = statusOf x)"
    using srun_status [OF cs assms(3)] by auto
  have aa: "a' = a" using a'(1) assms(2) by simp
  show ?thesis
  proof (cases "statusOf b = statusOf a")
    case True
    then show ?thesis using a'(2) aa by (cases "phase_of a") (auto simp: phase_of_def statusOf_def)
  next
    case False
    then obtain x where x: "Q x" "b_Name x = n" "statusOf b = statusOf x" using a'(3) aa by auto
    then have "m = n" using got [OF Inr] by (auto simp: Q_def finishes_def starts_def split: if_splits)
    then have "bk = a" using got [OF Inr] assms(2) by simp
    then show ?thesis using x a'(2) aa
      by (cases "b_State a") (auto simp: Q_def finishes_def starts_def phase_of_def statusOf_def specOf_def isTerminal_def)
  qed
qed

end

text \<open>
  A run, as the backup \<open>n\<close> shows it: passes of the controller over this and other backups, and steps of
  everyone else, who start and stop Jobs, edit clusters or delete objects and do not write the status of
  the backup.  The list holds the phases after each event.
\<close>

inductive bk_run :: "'st benv \<Rightarrow> ('st \<Rightarrow> string \<Rightarrow> BackupCR option) \<Rightarrow> string \<Rightarrow> 'st \<Rightarrow> phase list \<Rightarrow> 'st \<Rightarrow> bool"
  for E backups n where
  bk_start: "backups s n = Some bk \<Longrightarrow> bk_run E backups n s [phase_of bk] s"
| bk_pass: "bk_run E backups n s hs s1 \<Longrightarrow> Reconcile_backup E m \<lparr> bw_srv = s1, bw_calls = [] \<rparr> = (r, w) \<Longrightarrow>
    backups (bw_srv w) n = Some bk \<Longrightarrow> bk_run E backups n s (hs @ [phase_of bk]) (bw_srv w)"
| bk_others: "bk_run E backups n s hs s1 \<Longrightarrow> kept (backups s1 n) (backups s2 n) \<Longrightarrow> backups s2 n = Some bk \<Longrightarrow>
    bk_run E backups n s (hs @ [phase_of bk]) s2"

text \<open>C6: The controller implements the lifecycle of a backup.  However its passes over this and other backups interleave
  with everyone else's writes, against any server that stores what it acknowledges, the phases a backup shows form a
  run of the three-phase machine: it succeeds only from Running, never goes back to waiting once it runs, and stays
  in a final state; and a strict backup that succeeds covers all slots.\<close>

theorem backup_lifecycle_refined:
  assumes "backup_server E backups" "bk_run E backups n s hs s'"
  shows "successively phase_step hs \<and> (\<forall>b. hs ! 0 \<noteq> Done True \<and> backups s' n = Some b \<and> b_State b = BackupStateSucceeded \<and>
    b_Consistency b = ''strict'' \<longrightarrow> b_SlotCoverage b = ''complete'')"
proof -
  have "hs \<noteq> [] \<and> successively phase_step hs \<and> (\<exists>b. backups s' n = Some b \<and> phase_of b = last hs \<and>
     (hs ! 0 \<noteq> Done True \<and> last hs = Done True \<and> b_Consistency b = ''strict'' \<longrightarrow> b_SlotCoverage b = ''complete''))"
    using assms(2)
  proof (induction rule: bk_run.induct)
    case (bk_start s bk)
    then show ?case by auto
  next
    case (bk_pass s hs s1 m r w bk)
    then obtain a where a: "backups s1 n = Some a" "phase_of a = last hs"
      "hs ! 0 \<noteq> Done True \<and> last hs = Done True \<and> b_Consistency a = ''strict'' \<longrightarrow> b_SlotCoverage a = ''complete''" by blast
    have "phase_step (phase_of a) (phase_of bk) \<and> specOf bk = specOf a \<and>
      (phase_of bk = Done True \<longrightarrow> b_Consistency a = consistencyStrict \<longrightarrow> b_SlotCoverage bk = ''complete'' \<or> statusOf bk = statusOf a)"
      using backup_server.pass_step [OF assms(1) bk_pass(2), of n a bk] a(1) bk_pass(3) by simp
    then show ?case using bk_pass a
      by (auto simp: successively_append_iff nth_append specOf_def statusOf_def consistencyStrict_def phase_of_def)
  next
    case (bk_others s hs s1 s2 bk)
    then obtain a where a: "backups s1 n = Some a" "phase_of a = last hs"
      "hs ! 0 \<noteq> Done True \<and> last hs = Done True \<and> b_Consistency a = ''strict'' \<longrightarrow> b_SlotCoverage a = ''complete''" by blast
    have k: "specOf bk = specOf a" "statusOf bk = statusOf a" using bk_others(2,3) a(1) by (auto simp: kept_def)
    then have "phase_of bk = phase_of a" by (simp add: phase_of_def statusOf_def)
    then show ?case using bk_others a k
      by (cases "phase_of a") (auto simp: successively_append_iff nth_append specOf_def statusOf_def)
  qed
  then show ?thesis by (auto simp: phase_of_def)
qed

subsection \<open>A server\<close>

text \<open>The smallest API server for the controller: the objects it reads and writes, every call succeeding as documented.\<close>

record kubernetes =
  ks_backups :: "string \<Rightarrow> BackupCR option"
  ks_jobs :: "string \<Rightarrow> Job option"
  ks_clusters :: "string \<Rightarrow> Cluster option"
  ks_secrets :: "string \<Rightarrow> (string \<times> string) list option"
  ks_lease :: kube
  ks_bucket :: "string \<Rightarrow> string option"

definition found :: "'a option \<Rightarrow> (api_error, 'a) result" where
  "found x = (case x of None \<Rightarrow> Inl (NotFound '''') | Some a \<Rightarrow> Inr a)"

definition stored_backup :: "kubernetes \<Rightarrow> string \<Rightarrow> BackupCR option" where
  "stored_backup s n = (case ks_backups s n of None \<Rightarrow> None | Some b \<Rightarrow> if b_Name b = n then Some b else None)"

definition withStatus :: "BackupCR \<Rightarrow> BackupCR \<Rightarrow> BackupCR" where
  "withStatus cur bk = cur \<lparr> b_State := b_State bk, b_StateDescription := b_StateDescription bk, b_Destination := b_Destination bk,
     b_StatusStorage := b_StatusStorage bk, b_S3 := b_S3 bk, b_GCS := b_GCS bk, b_Azure := b_Azure bk, b_Shards := b_Shards bk,
     b_SlotCoverage := b_SlotCoverage bk, b_Start := b_Start bk, b_Completed := b_Completed bk, b_ValkeyVersion := b_ValkeyVersion bk \<rparr>"

definition kube_leases :: "kubernetes lease_api" where
  "kube_leases = \<lparr>
     la_get = (\<lambda>s n. la_get kube_api (ks_lease s) n),
     la_create = (\<lambda>s l. case la_create kube_api (ks_lease s) l of (e, k) \<Rightarrow> (e, s \<lparr> ks_lease := k \<rparr>)),
     la_update = (\<lambda>s l. case la_update kube_api (ks_lease s) l of (e, k) \<Rightarrow> (e, s \<lparr> ks_lease := k \<rparr>)),
     la_patch = (\<lambda>s a b. case la_patch kube_api (ks_lease s) a b of (e, k) \<Rightarrow> (e, s \<lparr> ks_lease := k \<rparr>)) \<rparr>"

definition kube_bucket :: "kubernetes bucket_api" where
  "kube_bucket = \<lparr>
     bu_put = (\<lambda>k body s. case body of (d, None) \<Rightarrow> (None, s \<lparr> ks_bucket := (ks_bucket s)(k \<mapsto> d) \<rparr>) | (d, Some e) \<Rightarrow> (Some (SendError e), s)),
     bu_get = (\<lambda>k s. case ks_bucket s k of None \<Rightarrow> Inl (ErrNotExist k) | Some d \<Rightarrow> Inr (d, None)),
     bu_list = (\<lambda>p s. Inl ''listing disabled''),
     bu_delete = (\<lambda>k s. (None, s \<lparr> ks_bucket := (ks_bucket s)(k := None) \<rparr>)),
     bu_head = (\<lambda>k s. case ks_bucket s k of None \<Rightarrow> Some (ErrNotExist k) | Some d \<Rightarrow> None) \<rparr>"

interpretation kube_objects: bucket kube_bucket ks_bucket p for p
  by unfold_locales (auto simp: kube_bucket_def split: prod.splits option.splits if_splits)

definition kube_sdk :: "kubernetes sdk" where
  "kube_sdk = \<lparr> sdk_s3 = (\<lambda>spec creds. Inr kube_bucket), sdk_gcs = (\<lambda>n a. Inl ''no GCS''), sdk_azure = (\<lambda>a k n. Inl ''no Azure''),
     sdk_fs = (\<lambda>r. Inl ''read only''), sdk_stat = (\<lambda>p. None) \<rparr>"

definition kube_env :: "json \<Rightarrow> int \<Rightarrow> kubernetes benv" where
  "kube_env J t = \<lparr>
     be_lease = kube_leases,
     be_backup = (\<lambda>n s. found (stored_backup s n)),
     be_cluster = (\<lambda>n s. found (ks_clusters s n)),
     be_secret = (\<lambda>n s. found (ks_secrets s n)),
     be_job = (\<lambda>n s. found (ks_jobs s n)),
     be_createJob = (\<lambda>job s. case ks_jobs s (jb_Name job) of
        None \<Rightarrow> (None, s \<lparr> ks_jobs := (ks_jobs s)(jb_Name job \<mapsto> job) \<rparr>) | Some _ \<Rightarrow> (Some (AlreadyExists ''''), s)),
     be_deleteJob = (\<lambda>n s. (None, s \<lparr> ks_jobs := (ks_jobs s)(n := None) \<rparr>)),
     be_patchFinalizers = (\<lambda>n fs s. case ks_backups s n of
        None \<Rightarrow> (Some (NotFound ''''), s)
      | Some b \<Rightarrow> (None, s \<lparr> ks_backups := (ks_backups s)(n := if b_Deleting b \<and> fs = [] then None else Some (b \<lparr> b_Finalizers := fs \<rparr>)) \<rparr>)),
     be_patchStatus = (\<lambda>bk s. case ks_backups s (b_Name bk) of
        None \<Rightarrow> (Some (NotFound ''''), s)
      | Some b \<Rightarrow> (None, s \<lparr> ks_backups := (ks_backups s)(b_Name bk \<mapsto> withStatus b bk) \<rparr>)),
     be_sdk = kube_sdk, be_json = J, be_now = t \<rparr>"

lemma withStatus_simps [simp]: "specOf (withStatus a b) = specOf a" "statusOf (withStatus a b) = statusOf b" "b_Name (withStatus a b) = b_Name a"
  by (simp_all add: withStatus_def specOf_def statusOf_def)

lemma finalizers_other_fields [simp]: "specOf (b \<lparr> b_Finalizers := fs \<rparr>) = specOf b" "statusOf (b \<lparr> b_Finalizers := fs \<rparr>) = statusOf b"
  by (simp_all add: specOf_def statusOf_def)

lemma kube_env_sel [simp]:
  "be_lease (kube_env J t) = kube_leases" "be_backup (kube_env J t) n s = found (stored_backup s n)"
  "be_cluster (kube_env J t) n s = found (ks_clusters s n)" "be_secret (kube_env J t) n s = found (ks_secrets s n)"
  "be_job (kube_env J t) n s = found (ks_jobs s n)" "be_sdk (kube_env J t) = kube_sdk" "be_json (kube_env J t) = J" "be_now (kube_env J t) = t"
  by (simp_all add: kube_env_def)

lemma kube_writes:
  "be_createJob (kube_env J t) job s = (case ks_jobs s (jb_Name job) of
        None \<Rightarrow> (None, s \<lparr> ks_jobs := (ks_jobs s)(jb_Name job \<mapsto> job) \<rparr>) | Some _ \<Rightarrow> (Some (AlreadyExists ''''), s))"
  "be_deleteJob (kube_env J t) n s = (None, s \<lparr> ks_jobs := (ks_jobs s)(n := None) \<rparr>)"
  "be_patchFinalizers (kube_env J t) n fs s = (case ks_backups s n of
        None \<Rightarrow> (Some (NotFound ''''), s)
      | Some b \<Rightarrow> (None, s \<lparr> ks_backups := (ks_backups s)(n := if b_Deleting b \<and> fs = [] then None else Some (b \<lparr> b_Finalizers := fs \<rparr>)) \<rparr>))"
  "be_patchStatus (kube_env J t) bk s = (case ks_backups s (b_Name bk) of
        None \<Rightarrow> (Some (NotFound ''''), s)
      | Some b \<Rightarrow> (None, s \<lparr> ks_backups := (ks_backups s)(b_Name bk \<mapsto> withStatus b bk) \<rparr>))"
  by (simp_all add: kube_env_def)

lemma stored_backup_update:
  "stored_backup (s \<lparr> ks_backups := (ks_backups s)(m := x) \<rparr>) n =
     (if n = m then (case x of None \<Rightarrow> None | Some b \<Rightarrow> if b_Name b = n then Some b else None) else stored_backup s n)"
  "stored_backup (s \<lparr> ks_jobs := j \<rparr>) = stored_backup s" "stored_backup (s \<lparr> ks_lease := k \<rparr>) = stored_backup s"
  by (simp_all add: stored_backup_def fun_eq_iff)

lemma stored_backup_Some: "stored_backup s n = Some b \<longleftrightarrow> ks_backups s n = Some b \<and> b_Name b = n"
  by (auto simp: stored_backup_def split: option.splits)

lemma kube_lease_frame:
  "la_create kube_leases s l = (r, s') \<Longrightarrow> stored_backup s' = stored_backup s"
  "la_update kube_leases s l = (r, s') \<Longrightarrow> stored_backup s' = stored_backup s"
  "la_patch kube_leases s l l' = (r, s') \<Longrightarrow> stored_backup s' = stored_backup s"
  by (auto simp: kube_leases_def stored_backup_update simp del: split_paired_Ex split: prod.splits)

interpretation kube_backups: backup_server "kube_env J t" stored_backup
proof (unfold_locales, goal_cases)
  case (1 n s bk)
  then show ?case by (auto simp: found_def stored_backup_Some split: option.splits)
next
  case (2 bk s r s' n b)
  then show ?case by (cases "ks_backups s (b_Name bk)") (auto simp: kube_writes stored_backup_update stored_backup_Some split: if_splits)
next
  case (3 m fs s fr s' n)
  then show ?case
    by (cases "ks_backups s m") (auto simp: kube_writes kept_def stored_backup_update stored_backup_Some split: if_splits)
next
  case (4 job s jr s')
  then show ?case by (auto simp: kube_writes stored_backup_update split: option.splits)
next
  case (5 m s dr s')
  then show ?case by (auto simp: kube_writes stored_backup_update)
qed (simp_all add: kube_lease_frame)


definition witness_storage :: BackupStorageSpec where
  "witness_storage = \<lparr> st_Type = BackupStorageS3, st_S3 = Some \<lparr> s3_Bucket = ''bucket'', s3_Prefix = '''', s3_Region = '''', s3_EndpointURL = '''',
     s3_CredentialsSecret = ''creds'' \<rparr>, st_GCS = None, st_Azure = None \<rparr>"

definition witness_cluster :: Cluster where
  "witness_cluster = sample_cluster \<lparr> Spec := sample_spec \<lparr> Backup := Backup sample_spec \<lparr> bk_Storages := [(''s'', witness_storage)] \<rparr> \<rparr>,
     Status := Status sample_cluster \<lparr> State := StateReady \<rparr> \<rparr>"

definition witness_backup :: "BackupState \<Rightarrow> BackupCR" where
  "witness_backup st = sample_backup ''b'' \<lparr> b_State := st, b_Finalizers := [FinalizerDeleteBackup] \<rparr>"

definition witness_kube :: "BackupState \<Rightarrow> kubernetes" where
  "witness_kube st = \<lparr> ks_backups = [''b'' \<mapsto> witness_backup st], ks_jobs = Map.empty, ks_clusters = [''c'' \<mapsto> witness_cluster],
     ks_secrets = [''creds'' \<mapsto> [(''AWS_ACCESS_KEY_ID'', ''k''), (''AWS_SECRET_ACCESS_KEY'', ''s'')]], ks_lease = (None, Inl (NotFound '''')),
     ks_bucket = Map.empty \<rparr>"

abbreviation fresh :: "'st \<Rightarrow> 'st bworld" where
  "fresh s \<equiv> \<lparr> bw_srv = s, bw_calls = [] \<rparr>"

lemma witness_fields:
  "b_Name (witness_backup st) = ''b''" "b_State (witness_backup st) = st" "b_ClusterName (witness_backup st) = ''c''"
  "b_StorageName (witness_backup st) = ''s''" "\<not> b_Deleting (witness_backup st)" "b_Finalizers (witness_backup st) = [FinalizerDeleteBackup]"
  "b_Start (witness_backup st) = None" "b_Consistency (witness_backup st) = consistencyStrict" "b_Namespace (witness_backup st) = ''ns''"
  "State (Status witness_cluster) = StateReady" "bk_Storages (Backup (Spec witness_cluster)) = [(''s'', witness_storage)]" "Name witness_cluster = ''c''"
  by (simp_all add: witness_backup_def sample_backup_def witness_cluster_def sample_cluster_def sample_spec_def consistencyStrict_def)

lemma witness_kube_fields:
  "stored_backup (witness_kube st) n = (if n = ''b'' then Some (witness_backup st) else None)" "ks_jobs (witness_kube st) n = None"
  "ks_clusters (witness_kube st) ''c'' = Some witness_cluster"
  "ks_secrets (witness_kube st) ''creds'' = Some [(''AWS_ACCESS_KEY_ID'', ''k''), (''AWS_SECRET_ACCESS_KEY'', ''s'')]"
  "ks_lease (witness_kube st) = (None, Inl (NotFound ''''))"
  by (simp_all add: witness_kube_def stored_backup_def witness_fields)

definition witness_rs :: resolvedStorage where
  "witness_rs = \<lparr> rv_name = ''s'', rv_spec = witness_storage, rv_credsSecret = ''creds'', rv_destination = FormatDestination SchemeS3 ''bucket'' '''' ''c'' ''b'' \<rparr>"

definition resolved :: "BackupCR \<Rightarrow> BackupCR" where
  "resolved bk = bk \<lparr> b_StatusStorage := ''s'', b_Destination := rv_destination witness_rs, b_S3 := st_S3 witness_storage, b_GCS := None, b_Azure := None \<rparr>"

lemma resolved_fields [simp]:
  "b_Name (resolved bk) = b_Name bk" "b_State (resolved bk) = b_State bk" "b_ClusterName (resolved bk) = b_ClusterName bk"
  "b_Start (resolved bk) = b_Start bk" "b_Consistency (resolved bk) = b_Consistency bk" "b_Namespace (resolved bk) = b_Namespace bk"
  by (simp_all add: resolved_def)

lemma witness_resolves:
  assumes "ks_clusters s ''c'' = Some witness_cluster"
    "ks_secrets s ''creds'' = Some [(''AWS_ACCESS_KEY_ID'', ''k''), (''AWS_SECRET_ACCESS_KEY'', ''s'')]"
  shows "checkNSetDefaults (kube_env J t) (witness_backup st) s = Inr (witness_rs, resolved (witness_backup st))"
  using assms
  by (simp add: checkNSetDefaults_def witness_fields found_def resolveStorage_def storageCoordinates_def witness_storage_def
      witness_rs_def resolved_def BackendRegistered_def backendRegistry_def validateCredsSecret_def)


lemma did_eq: "did w c s = \<lparr> bw_srv = s, bw_calls = bw_calls w @ [c] \<rparr>"
  by (cases w) (simp add: did_def)

lemma kube_persist:
  assumes "stored_backup (bw_srv w) (b_Name bk) = Some cur"
  shows "persist (kube_env J t) bk a w = (Inr a, \<lparr> bw_srv = (bw_srv w) \<lparr> ks_backups := (ks_backups (bw_srv w))(b_Name bk \<mapsto> withStatus cur bk) \<rparr>,
    bw_calls = bw_calls w @ [PatchStatus bk None] \<rparr>)"
  using assms iffD1 [OF stored_backup_Some assms] by (simp add: persist_def writeBackupStatus_def found_def Let_def kube_writes did_eq)

lemma kube_lock:
  assumes "ks_lease (bw_srv w) = (None, Inl (NotFound ''''))"
  shows "\<exists>k. lockCluster (kube_env J t) bk w = (Inr True, \<lparr> bw_srv = (bw_srv w) \<lparr> ks_lease := k \<rparr>, bw_calls = bw_calls w @ [AcquireLease (Inr True)] \<rparr>)"
  using assms by (auto simp: lockCluster_def acquireClusterLease_def createLease_def kube_leases_def kube_api_def Let_def did_eq)

lemma kube_job:
  assumes "ks_jobs (bw_srv w) (backupJobName bk) = None" "ks_clusters (bw_srv w) (b_ClusterName bk) = Some c" "b_Start bk = None"
  shows "\<exists>job. jb_Name job = backupJobName bk \<and> createBackupJob (kube_env J t) bk rs w = (None, bk \<lparr> b_Start := Some t \<rparr>,
     \<lparr> bw_srv = (bw_srv w) \<lparr> ks_jobs := (ks_jobs (bw_srv w))(backupJobName bk \<mapsto> job) \<rparr>, bw_calls = bw_calls w @ [CreateJob job None] \<rparr>)"
proof -
  obtain job where j: "desiredBackupJob (kube_env J t) bk rs (bw_srv w) = Inr job" "jb_Name job = backupJobName bk"
    using assms(2) by (auto simp: desiredBackupJob_def found_def)
  have g: "getBackupJob (kube_env J t) bk (bw_srv w) = Inr None" using assms(1) by (simp add: getBackupJob_def getJob_def found_def)
  show ?thesis using assms(1,3) j by (intro exI [of _ job]) (simp add: createBackupJob_def g kube_writes createJob_def Let_def did_eq)
qed

lemma start_pass:
  "\<exists>job bk' s'. Reconcile_backup (kube_env J t) ''b'' (fresh (witness_kube BackupStateNew)) =
     (Inr requeueJobWatch, \<lparr> bw_srv = s', bw_calls = [AcquireLease (Inr True), CreateJob job None, PatchStatus bk' None] \<rparr>) \<and>
     (\<exists>b. stored_backup s' ''b'' = Some b \<and> b_State b = BackupStateRunning)"
proof -
  let ?E = "kube_env J t" and ?b = "resolved (witness_backup BackupStateNew)" and ?s = "witness_kube BackupStateNew"
  note r = witness_resolves [of ?s J t BackupStateNew, OF witness_kube_fields(3,4)]
  obtain k where k: "lockCluster ?E ?b (fresh ?s) = (Inr True, \<lparr> bw_srv = ?s \<lparr> ks_lease := k \<rparr>, bw_calls = [AcquireLease (Inr True)] \<rparr>)"
    using kube_lock [of "fresh ?s" J t ?b] by (auto simp: witness_kube_fields)
  define s1 where "s1 = ?s \<lparr> ks_lease := k \<rparr>"
  have s1: "ks_jobs s1 n = None" "ks_clusters s1 ''c'' = Some witness_cluster" "stored_backup s1 n = stored_backup ?s n" for n
    by (simp_all add: s1_def stored_backup_update) (simp_all add: witness_kube_fields)
  obtain job where j: "createBackupJob ?E ?b witness_rs \<lparr> bw_srv = s1, bw_calls = [AcquireLease (Inr True)] \<rparr> = (None, ?b \<lparr> b_Start := Some t \<rparr>,
     \<lparr> bw_srv = s1 \<lparr> ks_jobs := (ks_jobs s1)(backupJobName ?b \<mapsto> job) \<rparr>, bw_calls = [AcquireLease (Inr True), CreateJob job None] \<rparr>)"
    using kube_job [of "\<lparr> bw_srv = s1, bw_calls = [AcquireLease (Inr True)] \<rparr>" ?b witness_cluster J t witness_rs] by (auto simp: s1 witness_fields)
  define s2 where "s2 = s1 \<lparr> ks_jobs := (ks_jobs s1)(backupJobName ?b \<mapsto> job) \<rparr>"
  define b' where "b' = setState (?b \<lparr> b_Start := Some t \<rparr>) BackupStateRunning (ReasonJobRunning @ '': backup Job created'')"
  have b': "b_Name b' = ''b''" "b_State b' = BackupStateRunning" by (simp_all add: b'_def setState_fields witness_fields)
  have s2: "stored_backup s2 ''b'' = Some (witness_backup BackupStateNew)" by (simp add: s2_def stored_backup_update s1 witness_kube_fields)
  define s3 where "s3 = s2 \<lparr> ks_backups := (ks_backups s2)(''b'' \<mapsto> withStatus (witness_backup BackupStateNew) b') \<rparr>"
  have p: "persist ?E b' requeueJobWatch \<lparr> bw_srv = s2, bw_calls = [AcquireLease (Inr True), CreateJob job None] \<rparr> =
     (Inr requeueJobWatch, \<lparr> bw_srv = s3, bw_calls = [AcquireLease (Inr True), CreateJob job None, PatchStatus b' None] \<rparr>)"
    using kube_persist [of "\<lparr> bw_srv = s2, bw_calls = [AcquireLease (Inr True), CreateJob job None] \<rparr>" b'] s2 b' by (simp add: s3_def)
  have "Reconcile_backup ?E ''b'' (fresh ?s) =
     (Inr requeueJobWatch, \<lparr> bw_srv = s3, bw_calls = [AcquireLease (Inr True), CreateJob job None, PatchStatus b' None] \<rparr>)"
    using k j p unfolding s1_def [symmetric] s2_def [symmetric] b'_def [symmetric]
    by (simp add: Reconcile_backup_def witness_kube_fields found_def witness_fields ensureFinalizer_def isTerminal_def advance_def r
        reconcileStart_def clusterSnapshotReady_def b'_def [symmetric])
  moreover have "stored_backup s3 ''b'' = Some (withStatus (witness_backup BackupStateNew) b')" by (simp add: s3_def stored_backup_update witness_fields)
  moreover have "b_State (withStatus (witness_backup BackupStateNew) b') = BackupStateRunning" by (simp add: withStatus_def b')
  ultimately show ?thesis by (intro exI [of _ job] exI [of _ b'] exI [of _ s3]) simp
qed

definition complete_job :: Job where
  "complete_job = \<lparr> jb_Name = '''', jb_Labels = Map.empty, jb_Owner = None, jb_BackoffLimit = 0, jb_ActiveDeadline = 0, jb_ServiceAccount = '''',
     jb_Container = '''', jb_Image = '''', jb_Args = [], jb_Env = [], jb_EnvFrom = None, jb_Requests = backupJobResources,
     jb_Conditions = [\<lparr> jc_Type = JobComplete, jc_True = True, jc_Reason = '''', jc_Message = '''' \<rparr>], jb_Failed = 0 \<rparr>"

definition finished_kube :: kubernetes where
  "finished_kube = witness_kube BackupStateRunning \<lparr> ks_jobs := \<lambda>n. Some complete_job, ks_bucket := \<lambda>k. Some ''{}'' \<rparr>"

lemma finished_fields:
  "stored_backup finished_kube n = (if n = ''b'' then Some (witness_backup BackupStateRunning) else None)" "ks_jobs finished_kube n = Some complete_job"
  "ks_clusters finished_kube ''c'' = Some witness_cluster"
  "ks_secrets finished_kube ''creds'' = Some [(''AWS_ACCESS_KEY_ID'', ''k''), (''AWS_SECRET_ACCESS_KEY'', ''s'')]"
  "ks_lease finished_kube = (None, Inl (NotFound ''''))" "ks_bucket finished_kube k = Some ''{}''"
  by (simp_all add: finished_kube_def witness_kube_def stored_backup_def witness_fields)

lemma sample_manifest_fields: "mf_SchemaVersion sample_manifest = ManifestSchemaVersion" "mf_SlotCoverage sample_manifest = ''complete''"
  by (simp_all add: sample_manifest_def stamped_def newManifest_def Let_def)

lemma finished_manifest: "readManifest (kube_env sample_json t) bk witness_rs finished_kube = Inr sample_manifest"
proof -
  have u: "UnmarshalManifest sample_json d = Inr sample_manifest" for d
    by (simp add: UnmarshalManifest_def sample_json_def sample_manifest_fields)
  have g: "sto_Get (s3Store kube_bucket p) k finished_kube = Inr (''{}'', None)" for p k
    by (simp add: s3Store_def s3_Get_def cloud_Get_def kube_bucket_def finished_fields)
  show ?thesis
    by (simp add: readManifest_def loadStorageCreds_def witness_rs_def found_def finished_fields NewStore_def backendRegistry_def
        StorageConfigFromSpec_def newS3Store_def witness_storage_def kube_sdk_def ReadManifest_def g u)
qed

lemma finish_pass:
  "\<exists>cs s' b. Reconcile_backup (kube_env sample_json t) ''b'' (fresh finished_kube) = (Inr 0, \<lparr> bw_srv = s', bw_calls = cs \<rparr>) \<and>
     stored_backup s' ''b'' = Some b \<and> b_State b = BackupStateSucceeded \<and> b_Consistency b = ''strict''"
proof -
  let ?E = "kube_env sample_json t" and ?b = "resolved (witness_backup BackupStateRunning)" and ?s = "finished_kube"
  note r = witness_resolves [of ?s sample_json t BackupStateRunning, OF finished_fields(3,4)]
  define b' where "b' = handleJobComplete ?E ?b witness_rs ?s"
  have b': "b_State b' = BackupStateSucceeded" "b_Name b' = ''b''"
    unfolding b'_def handleJobComplete_def finished_manifest
    by (simp_all add: Let_def hydrateFromManifest_def sample_manifest_fields setState_fields witness_fields)
  have w: "watchJob ?E ?b witness_rs (fresh ?s) = (Inr True, b', fresh ?s)"
    by (simp add: watchJob_def getBackupJob_def getJob_def found_def finished_fields complete_job_def jobConditionTrue_def b'_def)
  have u: "unlockCluster ?E b' (fresh ?s) = (Inr (), \<lparr> bw_srv = ?s, bw_calls = [ReleaseLease (Inr ())] \<rparr>)"
    by (simp add: unlockCluster_def releaseClusterLease_def kube_leases_def kube_api_def finished_fields did_eq Let_def)
  let ?n = "withStatus (witness_backup BackupStateRunning) b'" and ?cs = "[ReleaseLease (Inr ()), PatchStatus b' None]"
  define s1 where "s1 = ?s \<lparr> ks_backups := (ks_backups ?s)(''b'' \<mapsto> ?n) \<rparr>"
  have p: "persist ?E b' 0 \<lparr> bw_srv = ?s, bw_calls = [ReleaseLease (Inr ())] \<rparr> = (Inr 0, \<lparr> bw_srv = s1, bw_calls = ?cs \<rparr>)"
    using kube_persist [of "\<lparr> bw_srv = ?s, bw_calls = [ReleaseLease (Inr ())] \<rparr>" b'] by (simp add: s1_def finished_fields b')
  have "Reconcile_backup ?E ''b'' (fresh ?s) = (Inr 0, \<lparr> bw_srv = s1, bw_calls = ?cs \<rparr>)"
    by (simp add: Reconcile_backup_def finished_fields found_def witness_fields ensureFinalizer_def isTerminal_def advance_def r
        reconcileRunning_def w u p)
  moreover have "stored_backup s1 ''b'' = Some ?n" by (simp add: s1_def stored_backup_update witness_fields)
  moreover have "b_State ?n = BackupStateSucceeded" "b_Consistency ?n = ''strict''"
    by (simp_all add: withStatus_def b') (simp add: witness_fields consistencyStrict_def)
  ultimately show ?thesis by (intro exI [of _ ?cs] exI [of _ s1] exI [of _ ?n]) simp
qed

theorem backup_lifecycle_refined_witness:
  "\<exists>s' b. bk_run (kube_env sample_json 0) stored_backup ''b'' finished_kube [Underway, Done True] s' \<and> stored_backup s' ''b'' = Some b \<and>
     b_State b = BackupStateSucceeded \<and> b_Consistency b = ''strict'' \<and> b_SlotCoverage b = ''complete''"
proof -
  let ?E = "kube_env sample_json 0"
  from finish_pass [of 0] obtain cs s' b where p: "Reconcile_backup ?E ''b'' (fresh finished_kube) = (Inr 0, \<lparr> bw_srv = s', bw_calls = cs \<rparr>)"
    "stored_backup s' ''b'' = Some b" "b_State b = BackupStateSucceeded" "b_Consistency b = ''strict''" by (elim exE conjE)
  have "bk_run ?E stored_backup ''b'' finished_kube [phase_of (witness_backup BackupStateRunning)] finished_kube"
    by (rule bk_start) (simp add: finished_fields)
  from bk_pass [OF this p(1)] p(2) have "bk_run ?E stored_backup ''b'' finished_kube [phase_of (witness_backup BackupStateRunning), phase_of b] s'"
    by simp
  then have run: "bk_run ?E stored_backup ''b'' finished_kube [Underway, Done True] s'" by (simp add: phase_of_def p(3) witness_fields)
  from backup_lifecycle_refined [OF kube_backups.backup_server_axioms run] p(2-4) have "b_SlotCoverage b = ''complete''" by simp
  then show ?thesis using run p(2-4) by (intro exI [of _ s'] exI [of _ b]) simp
qed

theorem backup_job_needs_lock_witness:
  "\<exists>r w job pre post. Reconcile_backup (kube_env sample_json 0) ''b'' (fresh (witness_kube BackupStateNew)) = (r, w) \<and>
     bw_calls w = pre @ CreateJob job None # post \<and> AcquireLease (Inr True) \<in> set pre"
proof -
  from start_pass [of sample_json 0] obtain job bk' s' where p: "Reconcile_backup (kube_env sample_json 0) ''b'' (fresh (witness_kube BackupStateNew)) =
     (Inr requeueJobWatch, \<lparr> bw_srv = s', bw_calls = [AcquireLease (Inr True), CreateJob job None, PatchStatus bk' None] \<rparr>)" by (elim exE conjE)
  have "AcquireLease (Inr True) \<in> set [AcquireLease (Inr True)]"
    by (rule backup_job_needs_lock [OF _ _ _ p, of "witness_backup BackupStateNew" _ job None "[PatchStatus bk' None]"])
      (simp_all add: witness_kube_fields found_def witness_fields)
  then show ?thesis
    by (intro exI [of _ "Inr requeueJobWatch"] exI [of _ "\<lparr> bw_srv = s', bw_calls = [AcquireLease (Inr True), CreateJob job None, PatchStatus bk' None] \<rparr>"]
        exI [of _ job] exI [of _ "[AcquireLease (Inr True)]"] exI [of _ "[PatchStatus bk' None]"]) (simp add: p)
qed

definition leaving_kube :: kubernetes where
  "leaving_kube = finished_kube \<lparr> ks_backups := [''b'' \<mapsto> witness_backup BackupStateRunning \<lparr> b_Deleting := True \<rparr>] \<rparr>"

lemma leaving_pass:
  "Reconcile_backup (kube_env sample_json 0) ''b'' (fresh leaving_kube) =
     (Inr 0, \<lparr> bw_srv = leaving_kube \<lparr> ks_backups := (ks_backups leaving_kube)(''b'' := None) \<rparr>, bw_calls = [ReleaseLease (Inr ()), PatchFinalizers [] None] \<rparr>)"
proof -
  let ?E = "kube_env sample_json 0" and ?b = "witness_backup BackupStateRunning \<lparr> b_Deleting := True \<rparr>"
  have f: "stored_backup leaving_kube ''b'' = Some ?b" "ks_backups leaving_kube ''b'' = Some ?b" "ks_jobs leaving_kube n = Some complete_job"
    "ks_clusters leaving_kube ''c'' = Some witness_cluster" "ks_lease leaving_kube = (None, Inl (NotFound ''''))" for n
    by (simp_all add: leaving_kube_def finished_kube_def witness_kube_def stored_backup_def witness_fields)
  have u: "unlockCluster ?E ?b (fresh leaving_kube) = (Inr (), \<lparr> bw_srv = leaving_kube, bw_calls = [ReleaseLease (Inr ())] \<rparr>)"
    by (simp add: unlockCluster_def releaseClusterLease_def kube_leases_def kube_api_def f did_eq Let_def)
  show ?thesis
    by (simp add: Reconcile_backup_def found_def f handleDeletion_backup_def witness_fields u resolveStorageForCleanup_def resolveStorage_def
        storageCoordinates_def witness_storage_def getCleanupJob_def getJob_def complete_job_def jobConditionTrue_def removeFinalizer_def
        patchFinalizers_def kube_writes did_eq)
qed

theorem backup_finalizer_after_cleanup_witness:
  "\<exists>r w job. Reconcile_backup (kube_env sample_json 0) ''b'' (fresh leaving_kube) = (r, w) \<and> PatchFinalizers [] None \<in> set (bw_calls w) \<and>
     ks_jobs leaving_kube (cleanupJobName (witness_backup BackupStateRunning)) = Some job \<and> jobConditionTrue job JobComplete"
proof -
  let ?E = "kube_env sample_json 0" and ?b = "witness_backup BackupStateRunning \<lparr> b_Deleting := True \<rparr>"
  have f: "be_backup ?E ''b'' (bw_srv (fresh leaving_kube)) = Inr ?b"
    by (simp add: found_def leaving_kube_def stored_backup_def witness_fields)
  have u: "bw_srv (snd (unlockCluster ?E ?b (fresh leaving_kube))) = leaving_kube"
    by (simp add: unlockCluster_def releaseClusterLease_def kube_leases_def kube_api_def leaving_kube_def finished_fields did_eq Let_def)
  have n: "cleanupJobName ?b = cleanupJobName (witness_backup BackupStateRunning)" by (simp add: cleanupJobName_def)
  from backup_finalizer_after_cleanup [OF f _ leaving_pass, of "[ReleaseLease (Inr ()), PatchFinalizers [] None]"]
  obtain job where "be_job ?E (cleanupJobName ?b) leaving_kube = Inr job" "jobConditionTrue job JobComplete" by (auto simp: u)
  then show ?thesis using leaving_pass n by (auto simp: found_def split: option.splits)
qed

subsection \<open>Where the controller loses track of a Job\<close>

text \<open>
  A running backup holds the lock and has a Job.  A read error while the pass resolves its storage ends
  the backup as failed and gives the lock away, and the Job goes on.
\<close>

text \<open>C16: Any error of the API server while a pass over a running backup reads its cluster, also a transient one, ends the
  backup as Failed and releases the lock; the pass does not stop the Job, and never looks at it again.\<close>

theorem transient_error_fails_backup:
  assumes "be_backup E n (bw_srv w) = Inr bk" "\<not> b_Deleting bk" "FinalizerDeleteBackup \<in> set (b_Finalizers bk)" "b_State bk = BackupStateRunning"
    and "b_ClusterName bk \<noteq> ''''" "b_StorageName bk \<noteq> ''''" "be_cluster E (b_ClusterName bk) (bw_srv w) = Inl (ApiError e)"
    and "releaseClusterLease (be_lease E) bk (bw_srv w) = (Inr (), s1)"
    and "be_backup E (b_Name bk) s1 = Inr bk2" "\<And>b. b_Name b = b_Name bk \<Longrightarrow> fst (be_patchStatus E b s1) = None"
  shows "\<exists>bk' s2. Reconcile_backup E n w = (Inr 0, \<lparr> bw_srv = s2, bw_calls = bw_calls w @ [ReleaseLease (Inr ()), PatchStatus bk' None] \<rparr>) \<and>
     b_State bk' = BackupStateFailed \<and> b_Name bk' = b_Name bk"
proof -
  define msg where "msg = ''get cluster '' @ quoted (b_ClusterName bk) @ '': '' @ e"
  define bk' where "bk' = failBackup E bk ReasonStorageError msg"
  have b: "b_Name bk' = b_Name bk" "b_State bk' = BackupStateFailed" by (simp_all add: bk'_def failBackup_fields)
  obtain s2 where s2: "be_patchStatus E bk' s1 = (None, s2)" using assms(10) [OF b(1)] by (cases "be_patchStatus E bk' s1") simp
  have c: "checkNSetDefaults E bk (bw_srv w) = Inl msg" using assms(5-7) by (simp add: checkNSetDefaults_def msg_def)
  have r: "releaseClusterLease (be_lease E) bk' (bw_srv w) = (Inr (), s1)"
    unfolding assms(8) [symmetric] releaseClusterLease_def leaseHolderID_def bk'_def failBackup_fields by (rule refl)
  have "terminalFail E bk ReasonStorageError msg w = (Inr 0, \<lparr> bw_srv = s2, bw_calls = bw_calls w @ [ReleaseLease (Inr ()), PatchStatus bk' None] \<rparr>)"
    unfolding terminalFail_def bk'_def [symmetric] Let_def
    using r assms(9) s2 b(1) by (simp add: unlockCluster_def did_eq persist_def writeBackupStatus_def)
  then have "Reconcile_backup E n w = (Inr 0, \<lparr> bw_srv = s2, bw_calls = bw_calls w @ [ReleaseLease (Inr ()), PatchStatus bk' None] \<rparr>)"
    using assms(1-4) by (simp add: Reconcile_backup_def ensureFinalizer_def isTerminal_def advance_def c)
  then show ?thesis using b by blast
qed

text \<open>When the Job of a running backup is gone, the pass creates it again without acquiring the lock, whoever holds
  it.\<close>

theorem job_recreated_without_lock:
  assumes "be_backup E n (bw_srv w) = Inr bk" "\<not> b_Deleting bk" "FinalizerDeleteBackup \<in> set (b_Finalizers bk)" "b_State bk = BackupStateRunning"
    and "checkNSetDefaults E bk (bw_srv w) = Inr (rs, bk1)" "be_job E (backupJobName bk) (bw_srv w) = Inl (NotFound e)"
    and "desiredBackupJob E bk1 rs (bw_srv w) = Inr job" "be_createJob E job (bw_srv w) = (None, s1)"
    and "be_backup E (b_Name bk) s1 = Inr bk2" "\<And>b. b_Name b = b_Name bk \<Longrightarrow> fst (be_patchStatus E b s1) = None"
  shows "\<exists>bk' s2. Reconcile_backup E n w = (Inr requeueJobWatch, \<lparr> bw_srv = s2, bw_calls = bw_calls w @ [CreateJob job None, PatchStatus bk' None] \<rparr>)"
proof -
  define bk' where "bk' = (if b_Start bk1 = None then bk1 \<lparr> b_Start := Some (be_now E) \<rparr> else bk1)"
  have f: "b_Name bk1 = b_Name bk" "b_State bk1 = b_State bk" using checkNSetDefaults_fields [OF assms(5)] by simp_all
  have b: "b_Name bk' = b_Name bk" by (simp add: bk'_def f)
  have nm: "backupJobName bk1 = backupJobName bk" by (simp add: backupJobName_def f)
  obtain s2 where s2: "be_patchStatus E bk' s1 = (None, s2)" using assms(10) [OF b] by (cases "be_patchStatus E bk' s1") simp
  have g: "getBackupJob E bk1 (bw_srv w) = Inr None" using assms(6) by (simp add: getBackupJob_def getJob_def nm)
  have "watchJob E bk1 rs w = (Inr False, bk', \<lparr> bw_srv = s1, bw_calls = bw_calls w @ [CreateJob job None] \<rparr>)"
    using assms(7,8) by (simp add: watchJob_def g createBackupJob_def createJob_def bk'_def did_eq Let_def)
  then have "Reconcile_backup E n w = (Inr requeueJobWatch, \<lparr> bw_srv = s2, bw_calls = bw_calls w @ [CreateJob job None, PatchStatus bk' None] \<rparr>)"
    using assms(1-5,9) s2 f b
    by (simp add: Reconcile_backup_def ensureFinalizer_def isTerminal_def advance_def reconcileRunning_def persist_def writeBackupStatus_def did_eq)
  then show ?thesis by blast
qed

theorem transient_error_fails_backup_witness:
  "\<exists>bk' s2. Reconcile_backup (kube_env sample_json 0 \<lparr> be_cluster := \<lambda>n s. Inl (ApiError ''timeout'') \<rparr>) ''b'' (fresh (witness_kube BackupStateRunning)) =
     (Inr 0, \<lparr> bw_srv = s2, bw_calls = [ReleaseLease (Inr ()), PatchStatus bk' None] \<rparr>) \<and> b_State bk' = BackupStateFailed"
proof -
  let ?E = "kube_env sample_json 0 \<lparr> be_cluster := \<lambda>n s. Inl (ApiError ''timeout'') \<rparr>" and ?s = "witness_kube BackupStateRunning"
  have r: "releaseClusterLease (be_lease ?E) (witness_backup BackupStateRunning) (bw_srv (fresh ?s)) = (Inr (), ?s)"
    by (simp add: releaseClusterLease_def kube_leases_def kube_api_def witness_kube_fields Let_def)
  have p: "fst (be_patchStatus ?E b ?s) = None" if "b_Name b = b_Name (witness_backup BackupStateRunning)" for b
    using that by (simp add: kube_writes witness_kube_def witness_fields)
  have "\<exists>bk' s2. Reconcile_backup ?E ''b'' (fresh ?s) = (Inr 0, \<lparr> bw_srv = s2, bw_calls = bw_calls (fresh ?s) @ [ReleaseLease (Inr ()), PatchStatus bk' None] \<rparr>) \<and>
     b_State bk' = BackupStateFailed \<and> b_Name bk' = b_Name (witness_backup BackupStateRunning)"
    by (rule transient_error_fails_backup [OF _ _ _ _ _ _ _ r _ p]) (simp_all add: found_def witness_kube_fields witness_fields)
  then show ?thesis by auto
qed

definition foreign_lease :: Lease where
  "foreign_lease = newLease (LeaseName ''c'') ''backup/ns/other'' 0"

theorem job_recreated_without_lock_witness:
  "\<exists>job bk' s2. leaseHeldByOther foreign_lease ''backup/ns/b'' 0 = (True, False) \<and>
     Reconcile_backup (kube_env sample_json 0) ''b'' (fresh (witness_kube BackupStateRunning \<lparr> ks_lease := (Some foreign_lease, Inr foreign_lease) \<rparr>)) =
     (Inr requeueJobWatch, \<lparr> bw_srv = s2, bw_calls = [CreateJob job None, PatchStatus bk' None] \<rparr>)"
proof -
  let ?E = "kube_env sample_json 0" and ?b = "witness_backup BackupStateRunning"
  define s where "s = witness_kube BackupStateRunning \<lparr> ks_lease := (Some foreign_lease, Inr foreign_lease) \<rparr>"
  have f: "stored_backup s ''b'' = Some ?b" "ks_jobs s n = None" "ks_clusters s ''c'' = Some witness_cluster"
    "ks_secrets s ''creds'' = Some [(''AWS_ACCESS_KEY_ID'', ''k''), (''AWS_SECRET_ACCESS_KEY'', ''s'')]" for n
    by (simp_all add: s_def stored_backup_update) (simp_all add: witness_kube_fields)
  have c: "checkNSetDefaults ?E ?b (bw_srv (fresh s)) = Inr (witness_rs, resolved ?b)" by (simp add: witness_resolves f)
  obtain job where j: "desiredBackupJob ?E (resolved ?b) witness_rs (bw_srv (fresh s)) = Inr job"
    by (simp add: desiredBackupJob_def found_def f witness_fields)
  define s1 where "s1 = s \<lparr> ks_jobs := (ks_jobs s)(jb_Name job \<mapsto> job) \<rparr>"
  have s1: "be_createJob ?E job (bw_srv (fresh s)) = (None, s1)" by (simp add: kube_writes f s1_def)
  have b1: "stored_backup s1 ''b'' = Some ?b" by (simp add: s1_def stored_backup_update f)
  then have p: "fst (be_patchStatus ?E b s1) = None" if "b_Name b = b_Name ?b" for b
    using that by (simp add: kube_writes witness_fields stored_backup_Some)
  have "\<exists>bk' s2. Reconcile_backup ?E ''b'' (fresh s) = (Inr requeueJobWatch, \<lparr> bw_srv = s2, bw_calls = bw_calls (fresh s) @ [CreateJob job None, PatchStatus bk' None] \<rparr>)"
    by (rule job_recreated_without_lock [OF _ _ _ _ c _ j s1 _ p, of _ "''''" ?b]) (simp_all add: found_def f b1 witness_fields)
  moreover have "leaseHeldByOther foreign_lease ''backup/ns/b'' 0 = (True, False)"
    by (simp add: leaseHeldByOther_def foreign_lease_def newLease_def leaseDurationSeconds_def second_def Let_def)
  ultimately show ?thesis by (auto simp: s_def)
qed
end
