(* ===== verification/Spec2Isabelle.thy ===== *)
theory Spec2Isabelle
  imports Planner Version Object_Keys Server_Config Naming Restore_Target Steady_Pass Degraded_Roll Backup_Phases
begin

text \<open>
  Verification of the Percona operator for Valkey.

  Theories:
  \<^item> \<^verbatim>\<open>Prelude\<close>, \<^verbatim>\<open>Go_Strings\<close>: shared lemmas and the Go string routines the sources call;
  \<^item> \<^verbatim>\<open>Slots\<close>: hash-slot arithmetic, \<^verbatim>\<open>src/pkg/valkey/slots.go\<close>.
\<close>

end
